theory Spec2Isabelle
  imports Complex_Main "HOL-Library.Word"
begin

unbundle bit_operations_syntax

section \<open>Data model\<close>

text \<open>
  The expression graph of \<^verbatim>\<open>graph/expression_graph.h\<close> holds its nodes through shared
  pointers (\<^verbatim>\<open>Expr\<close>) and mutates them in place. The embedding keeps an explicit store:
  an \<open>addr\<close> is the identity of a node object, \<open>heap\<close> maps it to the node's fields, and
  \<open>next_addr\<close> is the allocation pointer of \<^verbatim>\<open>new T(...)\<close>. Objects are allocated at
  increasing addresses, so the children handed to a constructor are older (smaller) than the
  node under construction.

  \<^verbatim>\<open>size_t\<close> is a 64-bit word where the code can wrap (\<^verbatim>\<open>edges_\<close>, hash values); the id
  counter and list positions are natural numbers. Floats are idealised as reals, a tensor is
  the content of its buffer, and a null tensor handle is \<open>None\<close>.
\<close>

type_synonym addr = nat
type_synonym size_t = "64 word"
type_synonym Shape = "nat list"
type_synonym Tensor = "real list"

datatype ntype = Leaf | Logit | Tanh | ReLU | Log | Exp | Square | Neg

datatype error = TopNodesError | NameError | ShapeError

text \<open>
  The fields of \<^verbatim>\<open>Node\<close> (node.h); \<^verbatim>\<open>hash_\<close> and the shadowing \<^verbatim>\<open>children_\<close> are those of
  \<^verbatim>\<open>NaryNodeOp\<close>. A C++ name \<^verbatim>\<open>x_\<close> is written \<open>n_x\<close> here (node) and \<open>g_x\<close> (graph).
  The debug flag only prints and is left out.
\<close>

record Node =
  n_id :: nat
  n_edges :: size_t
  n_trainable :: bool
  n_children :: "addr list"
  n_shape :: Shape
  n_name :: string
  n_val :: "Tensor option"
  n_adj :: "Tensor option"
  n_hash :: size_t
  n_type :: ntype

text \<open>
  The fields of \<^verbatim>\<open>ExpressionGraph\<close>. \<open>g_params\<close> is the name table of the class
  \<^verbatim>\<open>Parameters\<close>; \<open>freed\<close> records, in order, the nodes whose storage went back to the
  arena (\<^verbatim>\<open>TensorAllocator\<close>). The top-node set is kept as a duplicate-free list.
\<close>

record ExpressionGraph =
  heap :: "addr \<Rightarrow> Node"
  next_addr :: addr
  g_count :: nat
  g_nodes :: "addr list"
  g_tapes :: "addr list list"
  g_tapeMap :: "addr \<rightharpoonup> nat"
  g_named :: "string \<rightharpoonup> addr"
  g_topNodes :: "addr list"
  g_params :: "(string \<times> addr) list"
  g_hashMap :: "size_t \<rightharpoonup> addr"
  freed :: "addr list"

definition default_shape :: Shape where
  "default_shape = [1, 1, 1, 1]"

definition elements :: "Shape \<Rightarrow> nat" where
  "elements s = prod_list s"

text \<open>The member initialisers of \<^verbatim>\<open>Node\<close>: id 0, no edges, trainable, name "none".\<close>

definition default_node :: Node where
  "default_node = \<lparr> n_id = 0, n_edges = 0, n_trainable = True, n_children = [],
     n_shape = default_shape, n_name = ''none'', n_val = None, n_adj = None,
     n_hash = 0, n_type = Leaf \<rparr>"

definition empty_graph :: ExpressionGraph where
  "empty_graph = \<lparr> heap = (\<lambda>_. default_node), next_addr = 0, g_count = 0, g_nodes = [],
     g_tapes = [], g_tapeMap = Map.empty, g_named = Map.empty, g_topNodes = [],
     g_params = [], g_hashMap = Map.empty, freed = [] \<rparr>"

definition upd :: "ExpressionGraph \<Rightarrow> addr \<Rightarrow> (Node \<Rightarrow> Node) \<Rightarrow> ExpressionGraph" where
  "upd g a f = g\<lparr>heap := (heap g)(a := f (heap g a))\<rparr>"

subsection \<open>Node accessors (node.h)\<close>

definition setId :: "ExpressionGraph \<Rightarrow> addr \<Rightarrow> nat \<Rightarrow> ExpressionGraph" where
  "setId g a i = upd g a (\<lambda>n. n\<lparr>n_id := i\<rparr>)"

definition increaseEdges :: "ExpressionGraph \<Rightarrow> addr \<Rightarrow> size_t \<Rightarrow> ExpressionGraph" where
  "increaseEdges g a k = upd g a (\<lambda>n. n\<lparr>n_edges := n_edges n + k\<rparr>)"

definition decreaseEdges :: "ExpressionGraph \<Rightarrow> addr \<Rightarrow> size_t \<Rightarrow> ExpressionGraph" where
  "decreaseEdges g a k = upd g a (\<lambda>n. n\<lparr>n_edges := n_edges n - k\<rparr>)"

definition set_name :: "ExpressionGraph \<Rightarrow> addr \<Rightarrow> string \<Rightarrow> ExpressionGraph" where
  "set_name g a s = upd g a (\<lambda>n. n\<lparr>n_name := s\<rparr>)"

definition type_name :: "ntype \<Rightarrow> string" where
  "type_name t = (case t of Leaf \<Rightarrow> ''leaf'' | Logit \<Rightarrow> ''logit'' | Tanh \<Rightarrow> ''tanh''
     | ReLU \<Rightarrow> ''ReLU'' | Log \<Rightarrow> ''log'' | Exp \<Rightarrow> ''exp'' | Square \<Rightarrow> ''square'' | Neg \<Rightarrow> ''-'')"

subsection \<open>Structural hash (NaryNodeOp::hash)\<close>

text \<open>
  \<^verbatim>\<open>boost::hash_combine\<close> and \<^verbatim>\<open>boost::hash<std::string>\<close> belong to a third-party library;
  they are written out in their classical form. No theorem below depends on the values.
\<close>

definition hash_combine :: "size_t \<Rightarrow> size_t \<Rightarrow> size_t" where
  "hash_combine seed h = seed XOR (h + 0x9e3779b9 + push_bit 6 seed + drop_bit 2 seed)"

definition hash_string :: "string \<Rightarrow> size_t" where
  "hash_string s = foldl (\<lambda>seed c. hash_combine seed (of_char c)) 0 s"

text \<open>
  Modelled from the spec: the leaf node classes (\<^verbatim>\<open>InputNode\<close>, \<^verbatim>\<open>ConstantNode\<close>,
  \<^verbatim>\<open>ParamNode\<close> of graph/node_operators.h) and with them their \<^verbatim>\<open>hash()\<close> are missing from
  the sources. The spec says that a parameter is "never subject to CSE by hash -- by name
  only", so a leaf's hash is taken from its own identity.
\<close>

definition leaf_hash :: "addr \<Rightarrow> size_t" where
  "leaf_hash a = word_of_nat a"

definition set_hash :: "ExpressionGraph \<Rightarrow> addr \<Rightarrow> size_t \<Rightarrow> ExpressionGraph" where
  "set_hash g a h = upd g a (\<lambda>n. n\<lparr>n_hash := h\<rparr>)"

text \<open>
  \<^verbatim>\<open>hash()\<close> memoises in \<^verbatim>\<open>hash_\<close> and calls \<^verbatim>\<open>child->hash()\<close> for every child. The recursion
  descends to older objects only; for a child that is not older (no constructor produces
  one) the stored \<^verbatim>\<open>hash_\<close> is read without descending.
\<close>

function hash :: "ExpressionGraph \<Rightarrow> addr \<Rightarrow> size_t \<times> ExpressionGraph"
  and hash_children :: "ExpressionGraph \<Rightarrow> addr \<Rightarrow> addr list \<Rightarrow> size_t \<Rightarrow> size_t \<times> ExpressionGraph"
where
  "hash g a =
     (if n_type (heap g a) = Leaf then (leaf_hash a, g)
      else if n_hash (heap g a) \<noteq> 0 then (n_hash (heap g a), g)
      else (case hash_children g a (n_children (heap g a))
                   (hash_combine (hash_string (n_name (heap g a)))
                                 (hash_string (type_name (n_type (heap g a))))) of
              (seed, g') \<Rightarrow> (seed, set_hash g' a seed)))"
| "hash_children g a [] seed = (seed, g)"
| "hash_children g a (c # cs) seed =
     (if c < a
      then (case hash g c of (h, g') \<Rightarrow> hash_children g' a cs (hash_combine seed h))
      else hash_children g a cs (hash_combine seed (n_hash (heap g c))))"
  by pat_completeness auto
termination
  by (relation "inv_image (less_than <*lex*> less_than)
        (\<lambda>x. case x of Inl (g, a) \<Rightarrow> (a, Suc (length (n_children (heap g a))))
                     | Inr (g, a, cs, s) \<Rightarrow> (a, length cs))") auto


section \<open>Graph construction (ExpressionGraph::add and the node constructors)\<close>

definition remove_top_node :: "ExpressionGraph \<Rightarrow> addr \<Rightarrow> ExpressionGraph" where
  "remove_top_node g a = g\<lparr>g_topNodes := removeAll a (g_topNodes g)\<rparr>"

definition insert_top_node :: "ExpressionGraph \<Rightarrow> addr \<Rightarrow> ExpressionGraph" where
  "insert_top_node g a =
     g\<lparr>g_topNodes := (if a \<in> set (g_topNodes g) then g_topNodes g else g_topNodes g @ [a])\<rparr>"

text \<open>
  The loop over the children in \<^verbatim>\<open>add\<close>. \<^verbatim>\<open>tapeMap_[child]\<close> inserts the key with value 0
  when it is absent.
\<close>

fun add_children :: "ExpressionGraph \<Rightarrow> addr \<Rightarrow> addr list \<Rightarrow> nat \<Rightarrow> nat \<times> ExpressionGraph" where
  "add_children g node [] grp = (grp, g)"
| "add_children g node (child # cs) grp =
     (let t = (case g_tapeMap g child of None \<Rightarrow> 0 | Some t \<Rightarrow> t);
          g1 = g\<lparr>g_tapeMap := (g_tapeMap g)(child \<mapsto> t)\<rparr>;
          g2 = increaseEdges g1 child 2;
          g3 = increaseEdges g2 node 2
      in add_children g3 node cs (max grp (t + 1)))"

definition add :: "ExpressionGraph \<Rightarrow> addr \<Rightarrow> addr \<times> ExpressionGraph" where
  "add g node =
     (case hash g node of (h, g0) \<Rightarrow>
        (case g_hashMap g0 h of
           Some e \<Rightarrow> (e, g0)
         | None \<Rightarrow>
            (let g1 = g0\<lparr>g_hashMap := (g_hashMap g0)(h \<mapsto> node)\<rparr>;
                 g2 = (setId g1 node (g_count g1))\<lparr>g_count := Suc (g_count g1)\<rparr>
             in (case add_children g2 node (n_children (heap g2 node)) 0 of (grp, g3) \<Rightarrow>
                  (let g4 = g3\<lparr>g_tapeMap := (g_tapeMap g3)(node \<mapsto> grp)\<rparr>;
                       g5 = (if grp \<ge> length (g_tapes g4)
                             then g4\<lparr>g_tapes := g_tapes g4 @ replicate (grp + 1 - length (g_tapes g4)) []\<rparr>
                             else g4);
                       g6 = g5\<lparr>g_tapes := (g_tapes g5)[grp := g_tapes g5 ! grp @ [node]]\<rparr>;
                       g7 = g6\<lparr>g_nodes := g_nodes g6 @ [node]\<rparr>
                   in (node, insert_top_node g7 node))))))"

definition alloc :: "ExpressionGraph \<Rightarrow> Node \<Rightarrow> addr \<times> ExpressionGraph" where
  "alloc g n = (next_addr g, g\<lparr>heap := (heap g)(next_addr g := n), next_addr := Suc (next_addr g)\<rparr>)"

text \<open>
  \<^verbatim>\<open>TanhNodeOp::newShape\<close>: dimension by dimension, two extents must agree unless one of
  them is 1. A shape has four extents.
\<close>

fun broadcast :: "Shape \<Rightarrow> Shape \<Rightarrow> error + Shape" where
  "broadcast (a # as) (b # bs) =
     (if a \<noteq> b \<and> a \<noteq> 1 \<and> b \<noteq> 1 then Inl ShapeError
      else (case broadcast as bs of Inl e \<Rightarrow> Inl e | Inr r \<Rightarrow> Inr (max a b # r)))"
| "broadcast as [] = Inr as"
| "broadcast [] bs = Inr []"

fun newShape_loop :: "Shape \<Rightarrow> Shape list \<Rightarrow> error + Shape" where
  "newShape_loop s [] = Inr s"
| "newShape_loop s (sn # rest) =
     (case broadcast s sn of Inl e \<Rightarrow> Inl e | Inr s' \<Rightarrow> newShape_loop s' rest)"

definition newShape :: "ExpressionGraph \<Rightarrow> addr list \<Rightarrow> error + Shape" where
  "newShape g ns =
     (case ns of [] \<Rightarrow> Inr default_shape
      | n # rest \<Rightarrow> newShape_loop (n_shape (heap g n)) (map (\<lambda>m. n_shape (heap g m)) rest))"

text \<open>
  Modelled from the spec: the body of \<^verbatim>\<open>NaryNodeOp::remove_children_from_top_nodes\<close> is
  missing (node.cu). The spec says that constructing a node as a child of a later node
  removes it from the top-node set; the removal itself is \<^verbatim>\<open>remove_top_node\<close>.
\<close>

definition remove_children_from_top_nodes :: "ExpressionGraph \<Rightarrow> addr \<Rightarrow> ExpressionGraph" where
  "remove_children_from_top_nodes g a = foldl remove_top_node g (n_children (heap g a))"

text \<open>The constructor of \<^verbatim>\<open>NaryNodeOp\<close>: trainable if any child is.\<close>

definition NaryNodeOp :: "ExpressionGraph \<Rightarrow> ntype \<Rightarrow> addr list \<Rightarrow> Shape \<Rightarrow> addr \<times> ExpressionGraph" where
  "NaryNodeOp g ty ns shp =
     (case alloc g (default_node\<lparr>n_shape := shp, n_children := ns, n_type := ty,
                      n_trainable := list_ex (\<lambda>c. n_trainable (heap g c)) ns\<rparr>) of
        (a, g1) \<Rightarrow> (a, remove_children_from_top_nodes g1 a))"

text \<open>
  \<^verbatim>\<open>Expression<T>(args...)\<close> for the operator classes of node_operators_unary.h:
  construct, then \<^verbatim>\<open>add\<close>. \<^verbatim>\<open>TanhNodeOp\<close> takes any number of operands and checks their
  shapes; the \<^verbatim>\<open>UnaryNodeOp\<close> classes take the shape of their operand.
\<close>

definition arity_ok :: "ntype \<Rightarrow> addr list \<Rightarrow> bool" where
  "arity_ok ty ns = (case ty of Leaf \<Rightarrow> False | Tanh \<Rightarrow> ns \<noteq> [] | _ \<Rightarrow> length ns = 1)"

definition Expression :: "ExpressionGraph \<Rightarrow> ntype \<Rightarrow> addr list \<Rightarrow> (error + addr) \<times> ExpressionGraph" where
  "Expression g ty ns =
     (case (if ty = Tanh then newShape g ns
            else Inr (case ns of [] \<Rightarrow> default_shape | n # _ \<Rightarrow> n_shape (heap g n))) of
        Inl e \<Rightarrow> (Inl e, g)
      | Inr shp \<Rightarrow>
          (case NaryNodeOp g ty ns shp of (a, g1) \<Rightarrow>
             (case add g1 a of (r, g2) \<Rightarrow> (Inr r, g2))))"

text \<open>
  Modelled from the spec: \<^verbatim>\<open>Expression<InputNode>\<close>, \<^verbatim>\<open>Expression<ConstantNode>\<close> and
  \<^verbatim>\<open>Expression<ParamNode>\<close>; the three classes are missing from the sources. A leaf has
  no children, a shape, a trainable flag and, when an initialiser is given, its value.
\<close>

definition Expression_leaf :: "ExpressionGraph \<Rightarrow> Shape \<Rightarrow> bool \<Rightarrow> Tensor option \<Rightarrow> addr \<times> ExpressionGraph" where
  "Expression_leaf g shp trn ini =
     (case alloc g (default_node\<lparr>n_shape := shp, n_trainable := trn, n_val := ini\<rparr>) of
        (a, g1) \<Rightarrow> add g1 a)"

subsection \<open>Names and parameters\<close>

text \<open>
  Modelled from the spec: the class \<^verbatim>\<open>Parameters\<close> (graph/parameters.h) is missing. The
  spec describes it as the table "name -> persistent node", with its own allocation and
  zeroing of the parameters' buffers.
\<close>

definition Parameters_get :: "(string \<times> addr) list \<Rightarrow> string \<Rightarrow> addr option" where
  "Parameters_get ps nm = map_of ps nm"

definition Parameters_add :: "(string \<times> addr) list \<Rightarrow> addr \<Rightarrow> string \<Rightarrow> (string \<times> addr) list" where
  "Parameters_add ps p nm = ps @ [(nm, p)]"

definition get :: "ExpressionGraph \<Rightarrow> string \<Rightarrow> addr option" where
  "get g nm = (case Parameters_get (g_params g) nm of Some e \<Rightarrow> Some e | None \<Rightarrow> g_named g nm)"

definition add_named_node :: "ExpressionGraph \<Rightarrow> addr \<Rightarrow> string \<Rightarrow> error option \<times> ExpressionGraph" where
  "add_named_node g e nm =
     (if Parameters_get (g_params g) nm \<noteq> None \<or> get g nm \<noteq> None then (Some NameError, g)
      else (None, g\<lparr>g_named := (g_named g)(nm \<mapsto> e)\<rparr>))"

text \<open>
  \<^verbatim>\<open>param(name, shape, args...)\<close>. The result of \<^verbatim>\<open>add(p)\<close> on the existing parameter is
  dropped by the code, which returns \<^verbatim>\<open>p\<close>.
\<close>

definition param :: "ExpressionGraph \<Rightarrow> string \<Rightarrow> Shape \<Rightarrow> Tensor option \<Rightarrow> (error + addr) \<times> ExpressionGraph" where
  "param g nm shp ini =
     (case Parameters_get (g_params g) nm of
        Some p \<Rightarrow> (case add g p of (r, g1) \<Rightarrow> (Inr p, g1))
      | None \<Rightarrow>
          (case get g nm of
             Some e \<Rightarrow> (Inl NameError, g)
           | None \<Rightarrow>
               (case Expression_leaf g shp True ini of (p, g1) \<Rightarrow>
                  (let g2 = set_name g1 p nm
                   in (Inr p, g2\<lparr>g_params := Parameters_add (g_params g2) p nm\<rparr>)))))"

definition clear :: "ExpressionGraph \<Rightarrow> ExpressionGraph" where
  "clear g = g\<lparr>g_count := 0, g_nodes := [], g_tapes := [], g_tapeMap := Map.empty,
               g_named := Map.empty, g_topNodes := [], g_hashMap := Map.empty\<rparr>"


section \<open>Buffers and kernels\<close>

text \<open>
  Modelled from the spec: \<^verbatim>\<open>Node::allocate\<close>, \<^verbatim>\<open>Node::free\<close>, \<^verbatim>\<open>Node::init_dependent\<close> and
  \<^verbatim>\<open>Node::set_zero_adjoint\<close> are declared in node.h and defined in the missing node.cu.
  The spec: value and gradient handles are "allocated lazily, freed eagerly";
  \<^verbatim>\<open>allocate\<close>/\<^verbatim>\<open>free\<close> "acquire/release its value and gradient buffers from the arena";
  \<^verbatim>\<open>init_dependent\<close> seeds the gradient with 1; the backward pass zeroes "the gradient
  buffer of every trainable child that has not yet been touched this pass". The arena has
  room for every request, and the dry mode (\<open>fake\<close>) allocates without writing numbers.
\<close>

definition zeros :: "Shape \<Rightarrow> Tensor" where
  "zeros s = replicate (elements s) 0"

definition ones :: "Shape \<Rightarrow> Tensor" where
  "ones s = replicate (elements s) 1"

definition Node_allocate :: "ExpressionGraph \<Rightarrow> addr \<Rightarrow> bool \<Rightarrow> ExpressionGraph" where
  "Node_allocate g v fake =
     (case n_val (heap g v) of
        None \<Rightarrow> upd g v (\<lambda>n. n\<lparr>n_val := Some (zeros (n_shape n))\<rparr>)
      | Some t \<Rightarrow> g)"

definition Node_free :: "ExpressionGraph \<Rightarrow> addr \<Rightarrow> bool \<Rightarrow> ExpressionGraph" where
  "Node_free g v fake = (upd g v (\<lambda>n. n\<lparr>n_val := None, n_adj := None\<rparr>))\<lparr>freed := freed g @ [v]\<rparr>"

definition init_dependent :: "ExpressionGraph \<Rightarrow> addr \<Rightarrow> bool \<Rightarrow> ExpressionGraph" where
  "init_dependent g v fake =
     upd g v (\<lambda>n. n\<lparr>n_adj := (if fake then (case n_adj n of None \<Rightarrow> Some (zeros (n_shape n)) | Some t \<Rightarrow> Some t)
                              else Some (ones (n_shape n)))\<rparr>)"

definition set_zero_adjoint :: "ExpressionGraph \<Rightarrow> addr \<Rightarrow> bool \<Rightarrow> ExpressionGraph" where
  "set_zero_adjoint g v fake =
     (case n_adj (heap g v) of
        None \<Rightarrow> upd g v (\<lambda>n. n\<lparr>n_adj := Some (zeros (n_shape n))\<rparr>)
      | Some t \<Rightarrow> g)"

text \<open>\<^verbatim>\<open>Node::init\<close> has an empty body in node.h.\<close>

definition Node_init :: "ExpressionGraph \<Rightarrow> addr \<Rightarrow> bool \<Rightarrow> ExpressionGraph" where
  "Node_init g v fake = g"

text \<open>
  Modelled from the spec: the kernels \<^verbatim>\<open>Element\<close> and \<^verbatim>\<open>Add\<close> (kernels/tensor_operators.h)
  are missing. \<^verbatim>\<open>Element\<close> assigns the functor's value to the output position by position;
  \<^verbatim>\<open>Add\<close> is the kernel of the backward ops, which "accumulate into (not overwrite)" the
  output: \<^verbatim>\<open>Add(f, out, in...)\<close> is \<open>Add out t\<close> for the tensor \<open>t\<close> of the functor's
  values on the inputs (\<open>functor1\<close>, \<open>functor2\<close>). Operands have the output's element count
  (broadcasting is not modelled), and a kernel with a null operand leaves the output as it
  is.
\<close>

definition Element0 :: "(real \<Rightarrow> real) \<Rightarrow> Tensor option \<Rightarrow> Tensor option" where
  "Element0 f out = (case out of Some ot \<Rightarrow> Some (map f ot) | None \<Rightarrow> None)"

definition Element1 :: "(real \<Rightarrow> real) \<Rightarrow> Tensor option \<Rightarrow> Tensor option \<Rightarrow> Tensor option" where
  "Element1 f out a = (case (out, a) of (Some ot, Some x) \<Rightarrow> Some (map f x) | _ \<Rightarrow> out)"

definition Element2 :: "(real \<Rightarrow> real \<Rightarrow> real) \<Rightarrow> Tensor option \<Rightarrow> Tensor option \<Rightarrow> Tensor option \<Rightarrow> Tensor option" where
  "Element2 f out a b =
     (case (out, a, b) of (Some ot, Some x, Some y) \<Rightarrow> Some (map2 f x y) | _ \<Rightarrow> out)"

definition Element3 :: "(real \<Rightarrow> real \<Rightarrow> real \<Rightarrow> real) \<Rightarrow> Tensor option \<Rightarrow> Tensor option \<Rightarrow> Tensor option \<Rightarrow> Tensor option \<Rightarrow> Tensor option" where
  "Element3 f out a b c =
     (case (out, a, b, c) of
        (Some ot, Some x, Some y, Some z) \<Rightarrow> Some (map2 (\<lambda>u w. f (fst u) (snd u) w) (zip x y) z)
      | _ \<Rightarrow> out)"

definition Add :: "Tensor option \<Rightarrow> Tensor option \<Rightarrow> Tensor option" where
  "Add out t = (case (out, t) of (Some ot, Some x) \<Rightarrow> Some (map2 (+) ot x) | _ \<Rightarrow> out)"

definition functor1 :: "(real \<Rightarrow> real) \<Rightarrow> Tensor option \<Rightarrow> Tensor option" where
  "functor1 f a = (case a of Some x \<Rightarrow> Some (map f x) | None \<Rightarrow> None)"

definition functor2 :: "(real \<Rightarrow> real \<Rightarrow> real) \<Rightarrow> Tensor option \<Rightarrow> Tensor option \<Rightarrow> Tensor option" where
  "functor2 f a b = (case (a, b) of (Some x, Some y) \<Rightarrow> Some (map2 f x y) | _ \<Rightarrow> None)"

definition Sigma :: "real \<Rightarrow> real" where
  "Sigma x = 1 / (1 + exp (- x))"

definition ReLU_f :: "real \<Rightarrow> real" where
  "ReLU_f x = (if x > 0 then x else 0)"

definition ReLUback :: "real \<Rightarrow> real" where
  "ReLUback x = (if x > 0 then 1 else 0)"

definition set_val :: "ExpressionGraph \<Rightarrow> addr \<Rightarrow> Tensor option \<Rightarrow> ExpressionGraph" where
  "set_val g a t = upd g a (\<lambda>n. n\<lparr>n_val := t\<rparr>)"

definition set_adj :: "ExpressionGraph \<Rightarrow> addr \<Rightarrow> Tensor option \<Rightarrow> ExpressionGraph" where
  "set_adj g a t = upd g a (\<lambda>n. n\<lparr>n_adj := t\<rparr>)"

section \<open>Forward and backward ops of the operator classes (node_operators_unary.h)\<close>

type_synonym NodeOp = "ExpressionGraph \<Rightarrow> ExpressionGraph"

text \<open>
  A \<^verbatim>\<open>NodeOp\<close> is a closure over the node and its children; it reads the buffers when it
  runs. \<^verbatim>\<open>children_[0]\<close> of a unary class is the single operand (for an empty operand list,
  which no constructor produces, the op list is empty). \<open>tanh_forward\<close> is the \<^verbatim>\<open>switch\<close> of
  \<^verbatim>\<open>TanhNodeOp::forwardOps\<close> on the number of operands, \<open>unary_forward\<close> the forward op of
  the unary classes.
\<close>

fun tanh_rest :: "addr \<Rightarrow> addr list \<Rightarrow> ExpressionGraph \<Rightarrow> ExpressionGraph" where
  "tanh_rest v [] s = s"
| "tanh_rest v (c # cs) s =
     tanh_rest v cs (set_val s v (Add (n_val (heap s v)) (n_val (heap s c))))"

fun tanh_forward :: "addr \<Rightarrow> addr list \<Rightarrow> NodeOp" where
  "tanh_forward v [c0] s = set_val s v (Element1 tanh (n_val (heap s v)) (n_val (heap s c0)))"
| "tanh_forward v [c0, c1] s =
     set_val s v (Element2 (\<lambda>a b. tanh (a + b)) (n_val (heap s v))
                    (n_val (heap s c0)) (n_val (heap s c1)))"
| "tanh_forward v [c0, c1, c2] s =
     set_val s v (Element3 (\<lambda>a b c. tanh (a + b + c)) (n_val (heap s v))
                    (n_val (heap s c0)) (n_val (heap s c1)) (n_val (heap s c2)))"
| "tanh_forward v (c0 # c1 # c2 # rest) s =
     (let s1 = set_val s v (Element3 (\<lambda>a b c. a + b + c) (n_val (heap s v))
                              (n_val (heap s c0)) (n_val (heap s c1)) (n_val (heap s c2)));
          s2 = tanh_rest v rest s1
      in set_val s2 v (Element0 tanh (n_val (heap s2 v))))"
| "tanh_forward v [] s = s"

definition unary_forward :: "ntype \<Rightarrow> addr \<Rightarrow> addr \<Rightarrow> NodeOp" where
  "unary_forward ty v c0 s =
     set_val s v
       ((case ty of Logit \<Rightarrow> Element1 Sigma | ReLU \<Rightarrow> Element1 ReLU_f
           | Log \<Rightarrow> Element1 ln | Exp \<Rightarrow> Element1 exp
           | Square \<Rightarrow> Element1 (\<lambda>x. x * x) | _ \<Rightarrow> Element1 (\<lambda>x. - x))
          (n_val (heap s v)) (n_val (heap s c0)))"

definition forwardOps :: "ExpressionGraph \<Rightarrow> addr \<Rightarrow> NodeOp list" where
  "forwardOps g v =
     (case n_type (heap g v) of
        Leaf \<Rightarrow> []
      | Tanh \<Rightarrow> (case n_children (heap g v) of [] \<Rightarrow> [] | cs \<Rightarrow> [tanh_forward v cs])
      | ty \<Rightarrow> (case n_children (heap g v) of [] \<Rightarrow> [] | c0 # rest \<Rightarrow> [unary_forward ty v c0]))"

text \<open>
  The backward op of node \<open>v\<close> for its child \<open>c\<close>: every class adds a term into
  \<^verbatim>\<open>child->grad()\<close> through \<^verbatim>\<open>Add\<close>. \<open>grad_term\<close> is the term: the functor of the class
  on the node's gradient \<^verbatim>\<open>adj_\<close> and on its value \<^verbatim>\<open>val_\<close> or the child's value.
\<close>

definition grad_term :: "ntype \<Rightarrow> ExpressionGraph \<Rightarrow> addr \<Rightarrow> addr \<Rightarrow> Tensor option" where
  "grad_term ty s v c =
     (let a = n_adj (heap s v); w = n_val (heap s v); x = n_val (heap s c)
      in (case ty of
            Leaf \<Rightarrow> None
          | Logit \<Rightarrow> functor2 (\<lambda>a w. a * w * (1 - w)) a w
          | Tanh \<Rightarrow> functor2 (\<lambda>a w. a * (1 - w * w)) a w
          | ReLU \<Rightarrow> functor2 (\<lambda>a x. a * ReLUback x) a x
          | Log \<Rightarrow> functor2 (\<lambda>a x. a * (1 / x)) a x
          | Exp \<Rightarrow> functor2 (\<lambda>a x. a * exp x) a x
          | Square \<Rightarrow> functor2 (\<lambda>x a. 2 * x * a) x a
          | Neg \<Rightarrow> functor1 (\<lambda>a. - a) a))"

definition grad_op :: "ntype \<Rightarrow> addr \<Rightarrow> addr \<Rightarrow> NodeOp" where
  "grad_op ty v c s = set_adj s c (Add (n_adj (heap s c)) (grad_term ty s v c))"

definition backwardOps :: "ExpressionGraph \<Rightarrow> addr \<Rightarrow> NodeOp list" where
  "backwardOps g v =
     (case n_type (heap g v) of
        Leaf \<Rightarrow> []
      | Tanh \<Rightarrow> map (grad_op Tanh v) (n_children (heap g v))
      | ty \<Rightarrow> (case n_children (heap g v) of [] \<Rightarrow> [] | c0 # _ \<Rightarrow> [grad_op ty v c0]))"

subsection \<open>Node::runForward, Node::runBackward, Node::forward, Node::backward\<close>

fun runForward :: "ExpressionGraph \<Rightarrow> NodeOp list \<Rightarrow> ExpressionGraph" where
  "runForward g [] = g"
| "runForward g (op # ops) = runForward (op g) ops"

text \<open>
  \<^verbatim>\<open>runBackward\<close> pairs the ops with the children by position; an op beyond the last child
  (no class produces one) is not run.
\<close>

fun runBackward_from :: "ExpressionGraph \<Rightarrow> addr \<Rightarrow> NodeOp list \<Rightarrow> nat \<Rightarrow> ExpressionGraph" where
  "runBackward_from g v [] i = g"
| "runBackward_from g v (op # ops) i =
     (if i < length (n_children (heap g v)) \<and> n_trainable (heap g (n_children (heap g v) ! i))
      then runBackward_from (op g) v ops (Suc i)
      else runBackward_from g v ops (Suc i))"

definition runBackward :: "ExpressionGraph \<Rightarrow> addr \<Rightarrow> NodeOp list \<Rightarrow> ExpressionGraph" where
  "runBackward g v ops = runBackward_from g v ops 0"

definition Node_forward :: "ExpressionGraph \<Rightarrow> addr \<Rightarrow> bool \<Rightarrow> ExpressionGraph" where
  "Node_forward g v fake = (if \<not> fake then runForward g (forwardOps g v) else g)"

definition Node_backward :: "ExpressionGraph \<Rightarrow> addr \<Rightarrow> bool \<Rightarrow> ExpressionGraph" where
  "Node_backward g v fake = (if \<not> fake then runBackward g v (backwardOps g v) else g)"

section \<open>The passes (ExpressionGraph::forward, ExpressionGraph::backward)\<close>

text \<open>
  Modelled from the spec: \<^verbatim>\<open>Parameters::allocateForward\<close>, \<^verbatim>\<open>allocateBackward\<close> and
  \<^verbatim>\<open>set_zero_adjoint\<close> (graph/parameters.h is missing). The parameters have a "separate
  allocation/zeroing lifecycle", and the first step of the backward pass is "zero all
  parameter gradients".
\<close>

definition Parameters_allocateForward :: "ExpressionGraph \<Rightarrow> bool \<Rightarrow> ExpressionGraph" where
  "Parameters_allocateForward g fake = foldl (\<lambda>s p. Node_allocate s p fake) g (map snd (g_params g))"

definition Parameters_allocateBackward :: "ExpressionGraph \<Rightarrow> bool \<Rightarrow> ExpressionGraph" where
  "Parameters_allocateBackward g fake = foldl (\<lambda>s p. set_zero_adjoint s p fake) g (map snd (g_params g))"

definition Parameters_set_zero_adjoint :: "ExpressionGraph \<Rightarrow> bool \<Rightarrow> ExpressionGraph" where
  "Parameters_set_zero_adjoint g fake =
     (if fake then g
      else foldl (\<lambda>s p. upd s p (\<lambda>n. n\<lparr>n_adj := Some (zeros (n_shape n))\<rparr>)) g (map snd (g_params g)))"

text \<open>The loop over the children that both passes run after a node's ops.\<close>

fun release_edges :: "ExpressionGraph \<Rightarrow> addr \<Rightarrow> addr list \<Rightarrow> ExpressionGraph" where
  "release_edges g v [] = g"
| "release_edges g v (child # cs) =
     release_edges (decreaseEdges (decreaseEdges g v 1) child 1) v cs"

definition forward_visit :: "bool \<Rightarrow> ExpressionGraph \<Rightarrow> addr \<Rightarrow> ExpressionGraph" where
  "forward_visit fake g v =
     (let g1 = Node_allocate g v fake;
          g2 = Node_init g1 v fake;
          g3 = Node_forward g2 v fake
      in release_edges g3 v (n_children (heap g3 v)))"

text \<open>
  \<^verbatim>\<open>forward(pos, fake)\<close> starts at position \<open>pos\<close> of the node list (a position beyond the
  end is outside the iterator's range in the code; here nothing is visited) and returns the
  distance from the beginning to the end of the list.
\<close>

definition forward_pos :: "ExpressionGraph \<Rightarrow> nat \<Rightarrow> bool \<Rightarrow> nat \<times> ExpressionGraph" where
  "forward_pos g pos fake = (length (g_nodes g), foldl (forward_visit fake) g (drop pos (g_nodes g)))"

definition forward :: "ExpressionGraph \<Rightarrow> bool \<Rightarrow> nat \<times> ExpressionGraph" where
  "forward g fake = forward_pos (Parameters_allocateForward g fake) 0 fake"

fun zero_children :: "bool \<Rightarrow> ExpressionGraph \<Rightarrow> addr list \<Rightarrow> ExpressionGraph" where
  "zero_children fake g [] = g"
| "zero_children fake g (child # cs) =
     zero_children fake (if n_trainable (heap g child) then set_zero_adjoint g child fake else g) cs"

text \<open>One iteration of the loop of \<^verbatim>\<open>backward\<close>, for the node \<open>v\<close>.\<close>

definition backward_visit :: "bool \<Rightarrow> ExpressionGraph \<Rightarrow> addr \<Rightarrow> ExpressionGraph" where
  "backward_visit fake g v =
     (let g1 = zero_children fake g (n_children (heap g v));
          g2 = (if n_trainable (heap g1 v) then Node_backward g1 v fake else g1);
          g3 = release_edges g2 v (n_children (heap g2 v))
      in if n_edges (heap g3 v) = 0 \<and> n_name (heap g3 v) = ''none'' then Node_free g3 v fake else g3)"

text \<open>
  \<^verbatim>\<open>backward(fake)\<close>: the check of the top-node set, the parameters' gradients, the seed
  of the top nodes, and the loop over the node list in reverse. An exception leaves the
  graph as it is at the throw.
\<close>

definition backward :: "ExpressionGraph \<Rightarrow> bool \<Rightarrow> error option \<times> ExpressionGraph" where
  "backward g fake =
     (if length (g_topNodes g) > 1 then (Some TopNodesError, g)
      else (let g1 = Parameters_allocateBackward g fake;
                g2 = Parameters_set_zero_adjoint g1 fake;
                g3 = foldl (\<lambda>s v. init_dependent s v fake) g2 (g_topNodes g2)
            in (None, foldl (backward_visit fake) g3 (rev (g_nodes g3)))))"

definition backprop :: "ExpressionGraph \<Rightarrow> error option \<times> ExpressionGraph" where
  "backprop g = backward (snd (forward g False)) False"


section \<open>Saving and loading the parameters (ExpressionGraph::save, ExpressionGraph::load)\<close>

text \<open>
  Modelled from the spec: the array file (\<^verbatim>\<open>cnpy::npz_save\<close>, \<^verbatim>\<open>cnpy::npz_load\<close>), the
  initialiser \<^verbatim>\<open>inits::from_numpy\<close> and the class \<^verbatim>\<open>Shape\<close> are missing. The file holds
  "one named float array per parameter"; an array is its list of extents and its data, and
  \<^verbatim>\<open>npz_save(file, name, data, shape, ndims, mode)\<close> stores as many numbers as the extents
  announce. A default-constructed \<^verbatim>\<open>Shape\<close> has four extents 1, like \<^verbatim>\<open>shape_\<close> of a node.
\<close>

record NpyArray =
  npy_shape :: "nat list"
  npy_data :: "real list"

definition shape_at :: "Shape \<Rightarrow> nat \<Rightarrow> nat" where
  "shape_at s i = (if i < length s then s ! i else 1)"

definition npz_array :: "nat list \<Rightarrow> real list \<Rightarrow> NpyArray" where
  "npz_array shp v = \<lparr> npy_shape = shp, npy_data = take (prod_list shp) v \<rparr>"

text \<open>The body of the loop of \<^verbatim>\<open>save\<close> for a parameter of shape \<open>s\<close> and values \<open>v\<close>.\<close>

definition save_array :: "Shape \<Rightarrow> real list \<Rightarrow> NpyArray" where
  "save_array s v =
     (if shape_at s 0 = 1 then npz_array [shape_at s 1] v
      else npz_array [shape_at s 0, shape_at s 1] v)"

definition save :: "ExpressionGraph \<Rightarrow> (string \<times> NpyArray) list" where
  "save g =
     map (\<lambda>(nm, p). (nm, save_array (n_shape (heap g p))
                           (case n_val (heap g p) of Some v \<Rightarrow> v | None \<Rightarrow> [])))
         (g_params g)"

text \<open>The shape that \<^verbatim>\<open>load\<close> builds for an array of the file.\<close>

definition load_shape :: "NpyArray \<Rightarrow> Shape" where
  "load_shape a =
     (if length (npy_shape a) = 2
      then (default_shape[0 := npy_shape a ! 0])[1 := npy_shape a ! 1]
      else if length (npy_shape a) = 1
      then (default_shape[0 := 1])[1 := npy_shape a ! 0]
      else default_shape)"

fun load :: "ExpressionGraph \<Rightarrow> (string \<times> NpyArray) list \<Rightarrow> error option \<times> ExpressionGraph" where
  "load g [] = (None, g)"
| "load g ((nm, a) # rest) =
     (case param g nm (load_shape a) (Some (npy_data a)) of
        (Inl e, g') \<Rightarrow> (Some e, g')
      | (Inr p, g') \<Rightarrow> load g' rest)"

section \<open>Graphs built through the constructors\<close>

text \<open>
  The graphs of one generation: from the empty graph, by constructing leaves, operator
  nodes over nodes of the graph, new parameters, and by naming nodes.
\<close>

inductive built :: "ExpressionGraph \<Rightarrow> bool" where
  built_empty: "built empty_graph"
| built_leaf: "built g \<Longrightarrow> built (snd (Expression_leaf g shp trn ini))"
| built_op: "built g \<Longrightarrow> set ns \<subseteq> set (g_nodes g) \<Longrightarrow> arity_ok ty ns
             \<Longrightarrow> built (snd (Expression g ty ns))"
| built_param: "built g \<Longrightarrow> Parameters_get (g_params g) nm = None
             \<Longrightarrow> built (snd (param g nm shp ini))"
| built_named: "built g \<Longrightarrow> e \<in> set (g_nodes g) \<Longrightarrow> built (snd (add_named_node g e nm))"

text \<open>
  The number of edge ends at node \<open>a\<close>: for every node \<open>v\<close> of the node list, one for each
  child of \<open>v\<close> when \<open>v\<close> is \<open>a\<close>, and one for each occurrence of \<open>a\<close> among the children.
\<close>

definition edge_ends :: "ExpressionGraph \<Rightarrow> addr \<Rightarrow> addr \<Rightarrow> nat" where
  "edge_ends g v a =
     (if v = a then length (n_children (heap g v)) else 0) + count_list (n_children (heap g v)) a"

definition degree :: "ExpressionGraph \<Rightarrow> addr \<Rightarrow> nat" where
  "degree g a = sum_list (map (\<lambda>v. edge_ends g v a) (g_nodes g))"

text \<open>
  What the passes leave alone: every field of the graph but the store and the arena, and
  every field of a node but its edge count and its two buffers. Hashing leaves alone all
  but the memoised hash of the nodes.
\<close>

definition same_graph :: "ExpressionGraph \<Rightarrow> ExpressionGraph \<Rightarrow> bool" where
  "same_graph g g' \<longleftrightarrow>
     next_addr g' = next_addr g \<and> g_count g' = g_count g \<and> g_nodes g' = g_nodes g \<and>
     g_tapes g' = g_tapes g \<and> g_tapeMap g' = g_tapeMap g \<and> g_named g' = g_named g \<and>
     g_topNodes g' = g_topNodes g \<and> g_params g' = g_params g \<and> g_hashMap g' = g_hashMap g"

definition same_node :: "Node \<Rightarrow> Node \<Rightarrow> bool" where
  "same_node n n' \<longleftrightarrow>
     n_id n' = n_id n \<and> n_trainable n' = n_trainable n \<and> n_children n' = n_children n \<and>
     n_shape n' = n_shape n \<and> n_name n' = n_name n \<and> n_type n' = n_type n"

definition same_struct :: "ExpressionGraph \<Rightarrow> ExpressionGraph \<Rightarrow> bool" where
  "same_struct g g' \<longleftrightarrow>
     same_graph g g' \<and>
     (\<forall>a. same_node (heap g a) (heap g' a) \<and> n_hash (heap g' a) = n_hash (heap g a))"

definition hash_frame :: "ExpressionGraph \<Rightarrow> ExpressionGraph \<Rightarrow> bool" where
  "hash_frame g g' \<longleftrightarrow>
     same_graph g g' \<and> freed g' = freed g \<and>
     (\<forall>a. same_node (heap g a) (heap g' a) \<and> n_edges (heap g' a) = n_edges (heap g a) \<and>
          n_val (heap g' a) = n_val (heap g a) \<and> n_adj (heap g' a) = n_adj (heap g a))"

text \<open>A step that writes buffers only: no edge count moves and nothing is released.\<close>

definition buffers_only :: "ExpressionGraph \<Rightarrow> ExpressionGraph \<Rightarrow> bool" where
  "buffers_only g g' \<longleftrightarrow>
     same_struct g g' \<and> freed g' = freed g \<and> (\<forall>a. n_edges (heap g' a) = n_edges (heap g a))"

text \<open>
  The invariant of the built graphs: the node list has no duplicates and holds allocated
  objects, the ids are the positions in the list, the children of every node of the list
  are in the list with smaller ids, children are older objects than their parents, and
  every edge count is twice the number of edge ends.
\<close>

definition wf :: "ExpressionGraph \<Rightarrow> bool" where
  "wf g \<longleftrightarrow>
     distinct (g_nodes g) \<and> g_count g = length (g_nodes g) \<and>
     map (\<lambda>v. n_id (heap g v)) (g_nodes g) = [0..<length (g_nodes g)] \<and>
     (\<forall>v\<in>set (g_nodes g). v < next_addr g \<and> set (n_children (heap g v)) \<subseteq> set (g_nodes g) \<and>
        (\<forall>c\<in>set (n_children (heap g v)). n_id (heap g c) < n_id (heap g v))) \<and>
     (\<forall>a. \<forall>c\<in>set (n_children (heap g a)). c < a) \<and>
     (\<forall>a. n_edges (heap g a) = 2 * of_nat (degree g a))"

text \<open>
  The value that \<^verbatim>\<open>hash()\<close> returns, as a function of the store alone; \<open>memo_ok\<close> relates
  two stores of which the second has memoised some of these values; \<open>older\<close> says that
  children are older objects than their parents.
\<close>

function hval :: "ExpressionGraph \<Rightarrow> addr \<Rightarrow> size_t" where
  "hval g a =
     (if n_type (heap g a) = Leaf then leaf_hash a
      else if n_hash (heap g a) \<noteq> 0 then n_hash (heap g a)
      else foldl (\<lambda>seed c. hash_combine seed (if c < a then hval g c else n_hash (heap g c)))
             (hash_combine (hash_string (n_name (heap g a)))
                           (hash_string (type_name (n_type (heap g a)))))
             (n_children (heap g a)))"
  by pat_completeness auto
termination
  by (relation "measure snd") auto

declare hval.simps [simp del]

definition memo_ok :: "ExpressionGraph \<Rightarrow> ExpressionGraph \<Rightarrow> bool" where
  "memo_ok g g' \<longleftrightarrow>
     hash_frame g g' \<and>
     (\<forall>b. n_hash (heap g' b) = n_hash (heap g b) \<or>
          (n_type (heap g b) \<noteq> Leaf \<and> n_hash (heap g b) = 0 \<and> n_hash (heap g' b) = hval g b))"

definition older :: "ExpressionGraph \<Rightarrow> bool" where
  "older g \<longleftrightarrow> (\<forall>a. \<forall>c\<in>set (n_children (heap g a)). c < a)"

text \<open>The children for which a class has a backward op: all for \<^verbatim>\<open>TanhNodeOp\<close>, the first for a unary class.\<close>

definition op_children :: "ntype \<Rightarrow> addr list \<Rightarrow> addr list" where
  "op_children ty cs = (case ty of Leaf \<Rightarrow> [] | Tanh \<Rightarrow> cs | _ \<Rightarrow> take 1 cs)"

text \<open>
  A graph that holds parameters only, as \<^verbatim>\<open>load\<close> builds it from the empty graph: no named
  node, and every key of the hash table is the hash of an allocated leaf.
\<close>

definition params_only :: "ExpressionGraph \<Rightarrow> bool" where
  "params_only g \<longleftrightarrow>
     g_named g = Map.empty \<and> dom (g_hashMap g) \<subseteq> leaf_hash ` {..<next_addr g} \<and>
     fst ` set (g_params g) \<subseteq> {nm. \<exists>p. map_of (g_params g) nm = Some p \<and> p < next_addr g}"

text \<open>The parameter \<open>nm\<close> of the graph has shape \<open>s\<close> and values \<open>v\<close>.\<close>

definition has_param :: "ExpressionGraph \<Rightarrow> string \<Rightarrow> Shape \<Rightarrow> Tensor \<Rightarrow> bool" where
  "has_param g nm s v \<longleftrightarrow>
     (\<exists>p. Parameters_get (g_params g) nm = Some p \<and> p < next_addr g \<and>
          n_shape (heap g p) = s \<and> n_val (heap g p) = Some v)"

text \<open>
  The steps of \<^verbatim>\<open>backward(fake)\<close> before its loop; the state of \<^verbatim>\<open>backward(false)\<close> when
  its loop reaches the node \<open>v\<close>; and the term that the backward op of the parent \<open>p\<close> adds
  into the gradient of its child \<open>x\<close>, computed from the buffers of that state.
\<close>

definition backward_prologue :: "ExpressionGraph \<Rightarrow> bool \<Rightarrow> ExpressionGraph" where
  "backward_prologue g fake =
     foldl (\<lambda>s v. init_dependent s v fake)
       (Parameters_set_zero_adjoint (Parameters_allocateBackward g fake) fake) (g_topNodes g)"

definition reached :: "ExpressionGraph \<Rightarrow> addr \<Rightarrow> ExpressionGraph" where
  "reached g v =
     foldl (backward_visit False) (backward_prologue g False)
       (takeWhile (\<lambda>u. u \<noteq> v) (rev (g_nodes g)))"

definition contribution :: "ExpressionGraph \<Rightarrow> addr \<Rightarrow> addr \<Rightarrow> Tensor option" where
  "contribution g p x = grad_term (n_type (heap g p)) (reached g p) p x"

section \<open>Example graphs\<close>

definition one_leaf :: ExpressionGraph where
  "one_leaf = snd (Expression_leaf empty_graph [1, 4, 1, 1] True None)"

definition two_leaves :: ExpressionGraph where
  "two_leaves = snd (Expression_leaf one_leaf [1, 4, 1, 1] True None)"

definition named_leaf :: ExpressionGraph where
  "named_leaf = snd (add_named_node one_leaf 0 ''x'')"

definition one_param :: ExpressionGraph where
  "one_param = snd (param empty_graph ''W'' [2, 3, 1, 1] None)"

text \<open>A leaf and its hyperbolic tangent; the same operator node constructed once more.\<close>

definition tanh_graph :: ExpressionGraph where
  "tanh_graph = snd (Expression one_leaf Tanh [0])"

definition tanh_again :: ExpressionGraph where
  "tanh_again = snd (NaryNodeOp tanh_graph Tanh [0] [1, 4, 1, 1])"

text \<open>A constant (a leaf that is not trainable) and its hyperbolic tangent.\<close>

definition const_leaf :: ExpressionGraph where
  "const_leaf = snd (Expression_leaf empty_graph [1, 4, 1, 1] False None)"

definition const_tanh :: ExpressionGraph where
  "const_tanh = snd (Expression const_leaf Tanh [0])"

definition tanh_forwarded :: ExpressionGraph where
  "tanh_forwarded = snd (forward tanh_graph False)"

text \<open>A parameter of shape (1, 3) with three values, and one of shape (2, 3, 2, 1) with twelve.\<close>

definition flat_param :: ExpressionGraph where
  "flat_param = snd (param empty_graph ''b'' [1, 3, 1, 1] (Some [1, 2, 3]))"

definition deep_param :: ExpressionGraph where
  "deep_param = snd (param empty_graph ''W'' [2, 3, 2, 1] (Some [1, 2, 3, 4, 5, 6, 7, 8, 9, 10, 11, 12]))"


text \<open>
  The parameter \<open>x\<close> with the values (0, 1), its square and its negation, and the
  hyperbolic tangent of the two: \<open>y = tanh (x * x + (- x))\<close>; the graph after
  \<^verbatim>\<open>forward(false)\<close>.
\<close>

definition sum_x :: ExpressionGraph where
  "sum_x = snd (param empty_graph ''x'' [1, 2, 1, 1] (Some [0, 1]))"

definition sum_square :: ExpressionGraph where
  "sum_square = snd (Expression sum_x Square [0])"

definition sum_neg :: ExpressionGraph where
  "sum_neg = snd (Expression sum_square Neg [0])"

definition sum_graph :: ExpressionGraph where
  "sum_graph = snd (Expression sum_neg Tanh [1, 2])"

definition sum_forwarded :: ExpressionGraph where
  "sum_forwarded = snd (forward sum_graph False)"

text \<open>
  The same expression over an operator node: the parameter \<open>w\<close> with the values (0, 0),
  its hyperbolic tangent \<open>x\<close>, the square and the negation of \<open>x\<close>,
         and the hyperbolic
  tangent of the two; the graph after \<^verbatim>\<open>forward(false)\<close>.
\<close>

definition mid_w :: ExpressionGraph where
  "mid_w = snd (param empty_graph ''w'' [1, 2, 1, 1] (Some [0, 0]))"

definition mid_x :: ExpressionGraph where
  "mid_x = snd (Expression mid_w Tanh [0])"

definition mid_square :: ExpressionGraph where
  "mid_square = snd (Expression mid_x Square [1])"

definition mid_neg :: ExpressionGraph where
  "mid_neg = snd (Expression mid_square Neg [1])"

definition mid_graph :: ExpressionGraph where
  "mid_graph = snd (Expression mid_neg Tanh [2, 3])"

definition mid_forwarded :: ExpressionGraph where
  "mid_forwarded = snd (forward mid_graph False)"

section \<open>Basic facts\<close>

lemma foldl_sel: "(\<And>s x. sel (f s x) = sel s) \<Longrightarrow> sel (foldl f g xs) = sel g"
  by (induction xs arbitrary: g) simp_all

lemma upd_fields [simp]:
  "heap (upd g a f) = (heap g)(a := f (heap g a))"
  "next_addr (upd g a f) = next_addr g"
  "g_count (upd g a f) = g_count g"
  "g_nodes (upd g a f) = g_nodes g"
  "g_tapes (upd g a f) = g_tapes g"
  "g_tapeMap (upd g a f) = g_tapeMap g"
  "g_named (upd g a f) = g_named g"
  "g_topNodes (upd g a f) = g_topNodes g"
  "g_params (upd g a f) = g_params g"
  "g_hashMap (upd g a f) = g_hashMap g"
  "freed (upd g a f) = freed g"
  by (simp_all add: upd_def)

lemma set_zero_adjoint_fields [simp]:
  "g_nodes (set_zero_adjoint g v fake) = g_nodes g"
  "g_topNodes (set_zero_adjoint g v fake) = g_topNodes g"
  "g_params (set_zero_adjoint g v fake) = g_params g"
  "freed (set_zero_adjoint g v fake) = freed g"
  by (simp_all add: set_zero_adjoint_def split: option.splits)

lemma Parameters_allocateBackward_fields [simp]:
  "g_nodes (Parameters_allocateBackward g fake) = g_nodes g"
  "g_topNodes (Parameters_allocateBackward g fake) = g_topNodes g"
  "g_params (Parameters_allocateBackward g fake) = g_params g"
  "freed (Parameters_allocateBackward g fake) = freed g"
  unfolding Parameters_allocateBackward_def
  by (rule foldl_sel, simp)+

lemma Parameters_set_zero_adjoint_fields [simp]:
  "g_nodes (Parameters_set_zero_adjoint g fake) = g_nodes g"
  "g_topNodes (Parameters_set_zero_adjoint g fake) = g_topNodes g"
  "g_params (Parameters_set_zero_adjoint g fake) = g_params g"
  "freed (Parameters_set_zero_adjoint g fake) = freed g"
  unfolding Parameters_set_zero_adjoint_def
  by (auto intro: foldl_sel)

lemma init_dependent_fields [simp]:
  "g_nodes (init_dependent g v fake) = g_nodes g"
  "g_topNodes (init_dependent g v fake) = g_topNodes g"
  "g_params (init_dependent g v fake) = g_params g"
  "freed (init_dependent g v fake) = freed g"
  by (simp_all add: init_dependent_def)

lemma one_leaf_eval:
  "g_topNodes one_leaf = [0]" "g_nodes one_leaf = [0]" "g_params one_leaf = []"
  "next_addr one_leaf = Suc 0" "g_hashMap one_leaf = [0 \<mapsto> 0]"
  by (simp_all add: one_leaf_def Expression_leaf_def alloc_def empty_graph_def add_def
      default_node_def Let_def insert_top_node_def setId_def leaf_hash_def)

lemma two_leaves_eval: "g_topNodes two_leaves = [0, 1]"
  by (simp add: two_leaves_def Expression_leaf_def alloc_def add_def one_leaf_eval
      default_node_def Let_def insert_top_node_def setId_def leaf_hash_def)

section \<open>The check of the top-node set\<close>

text \<open>
  C2. \<^verbatim>\<open>backward\<close> on a graph with more than one top node raises the well-formedness error
  and leaves the graph untouched. With exactly one top node \<open>t\<close> it raises nothing: it
  prepares the parameters' gradients, seeds \<open>t\<close>, visits the whole node list in reverse and
  returns.
\<close>

theorem backward_single_root:
  "(length (g_topNodes g) > 1 \<longrightarrow> backward g fake = (Some TopNodesError, g)) \<and>
   (g_topNodes g = [t] \<longrightarrow>
      backward g fake =
        (None, foldl (backward_visit fake)
                 (init_dependent
                    (Parameters_set_zero_adjoint (Parameters_allocateBackward g fake) fake) t fake)
                 (rev (g_nodes g))))"
  by (simp add: backward_def Let_def)

theorem backward_single_root_witness:
  "length (g_topNodes two_leaves) > 1 \<and>
   backward two_leaves False = (Some TopNodesError, two_leaves) \<and>
   g_topNodes one_leaf = [0] \<and>
   backward one_leaf False =
     (None, foldl (backward_visit False)
              (init_dependent
                 (Parameters_set_zero_adjoint (Parameters_allocateBackward one_leaf False) False)
                 0 False)
              (rev (g_nodes one_leaf)))"
  using backward_single_root [of two_leaves False] backward_single_root [of one_leaf False 0]
  by (simp add: two_leaves_eval one_leaf_eval)

text \<open>
  C9. With an empty top-node set \<^verbatim>\<open>backward\<close> does not raise the well-formedness error: no
  gradient is seeded (the loop starts from the graph as the parameters' preparation left
  it), the node list is traversed, and on the empty graph nothing changes.
\<close>

theorem backward_no_top_node:
  "(g_topNodes g = [] \<longrightarrow>
      backward g fake =
        (None, foldl (backward_visit fake)
                 (Parameters_set_zero_adjoint (Parameters_allocateBackward g fake) fake)
                 (rev (g_nodes g)))) \<and>
   backward empty_graph fake = (None, empty_graph)"
proof
  show "g_topNodes g = [] \<longrightarrow>
      backward g fake =
        (None, foldl (backward_visit fake)
                 (Parameters_set_zero_adjoint (Parameters_allocateBackward g fake) fake)
                 (rev (g_nodes g)))"
    by (simp add: backward_def Let_def)
  show "backward empty_graph fake = (None, empty_graph)"
    by (simp add: backward_def Let_def empty_graph_def Parameters_allocateBackward_def
        Parameters_set_zero_adjoint_def)
qed

theorem backward_no_top_node_witness:
  "g_topNodes empty_graph = [] \<and>
   backward empty_graph False =
     (None, foldl (backward_visit False)
              (Parameters_set_zero_adjoint (Parameters_allocateBackward empty_graph False) False)
              (rev (g_nodes empty_graph)))"
  using backward_no_top_node [of empty_graph False]
  by (simp add: empty_graph_def)

section \<open>What hashing changes\<close>

declare hash.simps [simp del]

lemma same_graph_refl [simp]: "same_graph g g"
  by (simp add: same_graph_def)

lemma same_node_refl [simp]: "same_node n n"
  by (simp add: same_node_def)

lemma same_graph_trans: "same_graph g g' \<Longrightarrow> same_graph g' g'' \<Longrightarrow> same_graph g g''"
  by (simp add: same_graph_def)

lemma same_node_trans: "same_node n n' \<Longrightarrow> same_node n' n'' \<Longrightarrow> same_node n n''"
  by (simp add: same_node_def)

lemma same_graph_upd [simp]: "same_graph g (upd g a f)"
  by (simp add: same_graph_def)

lemma hash_frame_refl [simp]: "hash_frame g g"
  by (simp add: hash_frame_def)

lemma hash_frame_trans: "hash_frame g g' \<Longrightarrow> hash_frame g' g'' \<Longrightarrow> hash_frame g g''"
  by (simp add: hash_frame_def same_graph_def same_node_def)

lemma hash_frame_set_hash: "hash_frame g (set_hash g a h)"
  by (simp add: hash_frame_def set_hash_def same_node_def)

lemma hash_frame_both:
  "hash_frame g (snd (hash g a))"
  "hash_frame g (snd (hash_children g a cs seed))"
proof (induction g a and g a cs seed rule: hash_hash_children.induct)
  case (1 g a)
  then show ?case
    by (auto simp: hash.simps[of g a] split: prod.splits intro: hash_frame_trans hash_frame_set_hash)
next
  case (2 g a seed)
  then show ?case by simp
next
  case (3 g a c cs seed)
  then show ?case
    by (auto split: prod.splits intro: hash_frame_trans)
qed

lemma hash_fields [simp]:
  "next_addr (snd (hash g a)) = next_addr g"
  "g_count (snd (hash g a)) = g_count g"
  "g_nodes (snd (hash g a)) = g_nodes g"
  "g_tapes (snd (hash g a)) = g_tapes g"
  "g_tapeMap (snd (hash g a)) = g_tapeMap g"
  "g_named (snd (hash g a)) = g_named g"
  "g_topNodes (snd (hash g a)) = g_topNodes g"
  "g_params (snd (hash g a)) = g_params g"
  "g_hashMap (snd (hash g a)) = g_hashMap g"
  "freed (snd (hash g a)) = freed g"
  using hash_frame_both(1) [of g a] by (simp_all add: hash_frame_def same_graph_def)

lemma hash_node_fields [simp]:
  "n_id (heap (snd (hash g a)) b) = n_id (heap g b)"
  "n_trainable (heap (snd (hash g a)) b) = n_trainable (heap g b)"
  "n_children (heap (snd (hash g a)) b) = n_children (heap g b)"
  "n_shape (heap (snd (hash g a)) b) = n_shape (heap g b)"
  "n_name (heap (snd (hash g a)) b) = n_name (heap g b)"
  "n_type (heap (snd (hash g a)) b) = n_type (heap g b)"
  "n_edges (heap (snd (hash g a)) b) = n_edges (heap g b)"
  "n_val (heap (snd (hash g a)) b) = n_val (heap g b)"
  "n_adj (heap (snd (hash g a)) b) = n_adj (heap g b)"
  using hash_frame_both(1) [of g a] by (simp_all add: hash_frame_def same_node_def)

section \<open>Common-subexpression elimination\<close>

lemma add_hit:
  "g_hashMap g (fst (hash g n)) = Some e \<Longrightarrow> add g n = (e, snd (hash g n))"
  by (simp add: add_def split_beta)

text \<open>
  When the hash of the node handed to \<^verbatim>\<open>add\<close> is a key of the hash table, nothing but
  memoised hashes is written.
\<close>

lemma add_hit_frame:
  assumes "g_hashMap g (fst (hash g n)) = Some e"
  shows "fst (add g n) = e \<and>
         g_count (snd (add g n)) = g_count g \<and> g_nodes (snd (add g n)) = g_nodes g \<and>
         g_tapes (snd (add g n)) = g_tapes g \<and> g_tapeMap (snd (add g n)) = g_tapeMap g \<and>
         g_topNodes (snd (add g n)) = g_topNodes g \<and> g_hashMap (snd (add g n)) = g_hashMap g \<and>
         (\<forall>a. n_edges (heap (snd (add g n)) a) = n_edges (heap g a) \<and>
              n_id (heap (snd (add g n)) a) = n_id (heap g a) \<and>
              n_children (heap (snd (add g n)) a) = n_children (heap g a))"
  using assms by (simp add: add_hit)

section \<open>What add changes\<close>

lemma add_children_fields [simp]:
  "next_addr (snd (add_children g n cs grp)) = next_addr g"
  "g_count (snd (add_children g n cs grp)) = g_count g"
  "g_nodes (snd (add_children g n cs grp)) = g_nodes g"
  "g_tapes (snd (add_children g n cs grp)) = g_tapes g"
  "g_named (snd (add_children g n cs grp)) = g_named g"
  "g_topNodes (snd (add_children g n cs grp)) = g_topNodes g"
  "g_params (snd (add_children g n cs grp)) = g_params g"
  "g_hashMap (snd (add_children g n cs grp)) = g_hashMap g"
  "freed (snd (add_children g n cs grp)) = freed g"
  by (induction cs arbitrary: g grp; simp add: Let_def increaseEdges_def)+

lemma add_children_node [simp]:
  "n_id (heap (snd (add_children g n cs grp)) b) = n_id (heap g b)"
  "n_trainable (heap (snd (add_children g n cs grp)) b) = n_trainable (heap g b)"
  "n_children (heap (snd (add_children g n cs grp)) b) = n_children (heap g b)"
  "n_shape (heap (snd (add_children g n cs grp)) b) = n_shape (heap g b)"
  "n_name (heap (snd (add_children g n cs grp)) b) = n_name (heap g b)"
  "n_type (heap (snd (add_children g n cs grp)) b) = n_type (heap g b)"
  "n_hash (heap (snd (add_children g n cs grp)) b) = n_hash (heap g b)"
  "n_val (heap (snd (add_children g n cs grp)) b) = n_val (heap g b)"
  "n_adj (heap (snd (add_children g n cs grp)) b) = n_adj (heap g b)"
  by (induction cs arbitrary: g grp; simp add: Let_def increaseEdges_def)+

lemma add_children_edges:
  "n_edges (heap (snd (add_children g n cs grp)) b) =
     n_edges (heap g b) + 2 * of_nat ((if b = n then length cs else 0) + count_list cs b)"
  by (induction cs arbitrary: g grp) (simp_all add: Let_def increaseEdges_def algebra_simps)

lemma add_fields [simp]:
  "next_addr (snd (add g n)) = next_addr g"
  "g_named (snd (add g n)) = g_named g"
  "g_params (snd (add g n)) = g_params g"
  "freed (snd (add g n)) = freed g"
  by (simp_all add: add_def split_beta Let_def insert_top_node_def setId_def split: option.splits)

lemma add_node [simp]:
  "n_trainable (heap (snd (add g n)) b) = n_trainable (heap g b)"
  "n_children (heap (snd (add g n)) b) = n_children (heap g b)"
  "n_shape (heap (snd (add g n)) b) = n_shape (heap g b)"
  "n_name (heap (snd (add g n)) b) = n_name (heap g b)"
  "n_type (heap (snd (add g n)) b) = n_type (heap g b)"
  "n_val (heap (snd (add g n)) b) = n_val (heap g b)"
  "n_adj (heap (snd (add g n)) b) = n_adj (heap g b)"
  by (simp_all add: add_def split_beta Let_def insert_top_node_def setId_def split: option.splits)

lemma add_nodes:
  "g_nodes (snd (add g n)) =
     (if g_hashMap g (fst (hash g n)) = None then g_nodes g @ [n] else g_nodes g)"
  by (simp add: add_def split_beta Let_def insert_top_node_def setId_def split: option.splits)

section \<open>Parameters\<close>

lemma param_existing:
  "Parameters_get (g_params g) nm = Some p \<Longrightarrow> param g nm shp ini = (Inr p, snd (add g p))"
  by (simp add: param_def split_beta)

lemma param_collision:
  "Parameters_get (g_params g) nm = None \<Longrightarrow> g_named g nm = Some e
     \<Longrightarrow> param g nm shp ini = (Inl NameError, g)"
  by (simp add: param_def get_def)

text \<open>
  C8. \<^verbatim>\<open>param\<close> with a name that is bound to a node which is not a parameter raises the
  naming error and leaves the graph as it was: no node is created, none is aliased. With
  a name that is bound to a parameter \<open>p\<close> it returns \<open>p\<close> after handing it to \<^verbatim>\<open>add\<close>
  (which puts it on the node list of the generation unless its hash is in the hash
  table already); no object is allocated and the parameter table is unchanged.
\<close>

theorem param_name_collision:
  "(Parameters_get (g_params g) nm = None \<and> g_named g nm = Some e \<longrightarrow>
      param g nm shp ini = (Inl NameError, g)) \<and>
   (Parameters_get (g_params g) nm = Some p \<longrightarrow>
      param g nm shp ini = (Inr p, snd (add g p)) \<and>
      next_addr (snd (param g nm shp ini)) = next_addr g \<and>
      g_params (snd (param g nm shp ini)) = g_params g \<and>
      (g_hashMap g (fst (hash g p)) = None \<longrightarrow>
         g_nodes (snd (param g nm shp ini)) = g_nodes g @ [p]) \<and>
      (g_hashMap g (fst (hash g p)) \<noteq> None \<longrightarrow>
         g_nodes (snd (param g nm shp ini)) = g_nodes g))"
  by (simp add: param_existing param_collision add_nodes)


lemma one_leaf_named: "g_named one_leaf = Map.empty"
  by (simp add: one_leaf_def empty_graph_def Expression_leaf_def alloc_def)

lemma named_leaf_eval:
  "g_params named_leaf = []" "g_named named_leaf ''x'' = Some 0"
  by (simp_all add: named_leaf_def add_named_node_def get_def Parameters_get_def one_leaf_eval
      one_leaf_named)

lemma one_param_eval:
  "g_params one_param = [(''W'', 0)]" "next_addr one_param = Suc 0"
  "g_nodes one_param = [0]" "g_hashMap one_param = [0 \<mapsto> 0]"
  by (simp_all add: one_param_def param_def get_def Parameters_get_def Parameters_add_def
      Expression_leaf_def alloc_def empty_graph_def add_def default_node_def Let_def
      insert_top_node_def setId_def leaf_hash_def set_name_def hash.simps)

theorem param_name_collision_witness:
  "Parameters_get (g_params named_leaf) ''x'' = None \<and> g_named named_leaf ''x'' = Some 0 \<and>
   param named_leaf ''x'' [1, 4, 1, 1] None = (Inl NameError, named_leaf) \<and>
   Parameters_get (g_params one_param) ''W'' = Some 0 \<and>
   param one_param ''W'' [2, 3, 1, 1] None = (Inr 0, snd (add one_param 0)) \<and>
   next_addr (snd (param one_param ''W'' [2, 3, 1, 1] None)) = next_addr one_param \<and>
   g_params (snd (param one_param ''W'' [2, 3, 1, 1] None)) = g_params one_param"
  using param_name_collision [of named_leaf "''x''" 0 "[1, 4, 1, 1]" None]
    param_name_collision [of one_param "''W''" _ "[2, 3, 1, 1]" None 0]
  by (simp add: named_leaf_eval one_param_eval Parameters_get_def)

section \<open>What the passes change\<close>

lemma same_struct_refl [simp]: "same_struct g g"
  by (simp add: same_struct_def)

lemma same_struct_trans: "same_struct g g' \<Longrightarrow> same_struct g' g'' \<Longrightarrow> same_struct g g''"
  by (simp add: same_struct_def same_graph_def same_node_def)

lemma buffers_only_refl [simp]: "buffers_only g g"
  by (simp add: buffers_only_def)

lemma buffers_only_trans: "buffers_only g g' \<Longrightarrow> buffers_only g' g'' \<Longrightarrow> buffers_only g g''"
  by (auto simp: buffers_only_def intro: same_struct_trans)

lemma buffers_only_same_struct: "buffers_only g g' \<Longrightarrow> same_struct g g'"
  by (simp add: buffers_only_def)

lemma same_structD:
  assumes "same_struct g g'"
  shows "g_nodes g' = g_nodes g" "g_params g' = g_params g" "g_topNodes g' = g_topNodes g"
    "next_addr g' = next_addr g" "g_count g' = g_count g" "g_hashMap g' = g_hashMap g"
    "g_named g' = g_named g" "g_tapes g' = g_tapes g" "g_tapeMap g' = g_tapeMap g"
    "n_children (heap g' a) = n_children (heap g a)"
    "n_trainable (heap g' a) = n_trainable (heap g a)"
    "n_name (heap g' a) = n_name (heap g a)"
    "n_type (heap g' a) = n_type (heap g a)"
    "n_shape (heap g' a) = n_shape (heap g a)"
    "n_id (heap g' a) = n_id (heap g a)"
    "n_hash (heap g' a) = n_hash (heap g a)"
  using assms by (simp_all add: same_struct_def same_graph_def same_node_def)

lemma buffers_only_val:
  "buffers_only g (upd g a (\<lambda>n. n\<lparr>n_val := t n\<rparr>))"
  by (simp add: buffers_only_def same_struct_def same_node_def)

lemma buffers_only_adj:
  "buffers_only g (upd g a (\<lambda>n. n\<lparr>n_adj := t n\<rparr>))"
  by (simp add: buffers_only_def same_struct_def same_node_def)

lemma buffers_only_set_val [simp]: "buffers_only g (set_val g a t)"
  unfolding set_val_def by (rule buffers_only_val)

lemma buffers_only_set_adj [simp]: "buffers_only g (set_adj g a t)"
  unfolding set_adj_def by (rule buffers_only_adj)

lemma buffers_only_Node_allocate [simp]: "buffers_only g (Node_allocate g v fake)"
  by (simp add: Node_allocate_def buffers_only_val split: option.splits)

lemma buffers_only_set_zero_adjoint [simp]: "buffers_only g (set_zero_adjoint g v fake)"
  by (simp add: set_zero_adjoint_def buffers_only_adj split: option.splits)

lemma buffers_only_init_dependent [simp]: "buffers_only g (init_dependent g v fake)"
  unfolding init_dependent_def by (rule buffers_only_adj)

lemma buffers_only_foldl:
  "(\<And>s x. buffers_only s (f s x)) \<Longrightarrow> buffers_only g (foldl f g xs)"
proof (induction xs arbitrary: g)
  case Nil
  show ?case by simp
next
  case (Cons x xs)
  have "buffers_only g (f g x)" by (rule Cons.prems)
  moreover have "buffers_only (f g x) (foldl f (f g x) xs)" by (rule Cons.IH) (rule Cons.prems)
  ultimately show ?case by (auto intro: buffers_only_trans)
qed

lemma buffers_only_Parameters [simp]:
  "buffers_only g (Parameters_allocateForward g fake)"
  "buffers_only g (Parameters_allocateBackward g fake)"
  "buffers_only g (Parameters_set_zero_adjoint g fake)"
  by (auto simp: Parameters_allocateForward_def Parameters_allocateBackward_def
      Parameters_set_zero_adjoint_def buffers_only_adj intro!: buffers_only_foldl)

lemma buffers_only_then_set_val [simp]:
  "buffers_only s s' \<Longrightarrow> buffers_only s (set_val s' a t)"
  by (rule buffers_only_trans [OF _ buffers_only_set_val])

lemma buffers_only_tanh_rest [simp]:
  "buffers_only s s' \<Longrightarrow> buffers_only s (tanh_rest v cs s')"
  by (induction cs arbitrary: s') simp_all

lemma buffers_only_tanh_forward [simp]: "buffers_only s (tanh_forward v cs s)"
  by (cases "(v, cs, s)" rule: tanh_forward.cases) (simp_all add: Let_def)

lemma buffers_only_unary_forward [simp]: "buffers_only s (unary_forward ty v c s)"
  by (simp add: unary_forward_def)

lemma buffers_only_forwardOps:
  "op \<in> set (forwardOps g v) \<Longrightarrow> buffers_only s (op s)"
  by (auto simp: forwardOps_def split: ntype.splits list.splits)

lemma buffers_only_grad_op [simp]: "buffers_only s (grad_op ty v c s)"
  by (simp add: grad_op_def)

lemma buffers_only_backwardOps:
  "op \<in> set (backwardOps g v) \<Longrightarrow> buffers_only s (op s)"
  by (auto simp: backwardOps_def split: ntype.splits list.splits)

lemma buffers_only_runForward:
  "(\<And>op s. op \<in> set ops \<Longrightarrow> buffers_only s (op s)) \<Longrightarrow> buffers_only g (runForward g ops)"
proof (induction ops arbitrary: g)
  case Nil
  show ?case by simp
next
  case (Cons op ops)
  have "buffers_only g (op g)" by (rule Cons.prems) simp
  moreover have "buffers_only (op g) (runForward (op g) ops)"
    by (rule Cons.IH) (rule Cons.prems, simp)
  ultimately show ?case by (auto intro: buffers_only_trans)
qed

lemma buffers_only_runBackward_from:
  "(\<And>op s. op \<in> set ops \<Longrightarrow> buffers_only s (op s))
     \<Longrightarrow> buffers_only g (runBackward_from g v ops i)"
proof (induction ops arbitrary: g i)
  case Nil
  show ?case by simp
next
  case (Cons op ops)
  have a: "buffers_only g (op g)" by (rule Cons.prems) simp
  have b: "\<And>s j. buffers_only s (runBackward_from s v ops j)"
    by (rule Cons.IH) (rule Cons.prems, simp)
  show ?case using a b by (auto intro: buffers_only_trans)
qed

lemma buffers_only_Node_forward [simp]: "buffers_only g (Node_forward g v fake)"
  by (auto simp: Node_forward_def intro: buffers_only_runForward buffers_only_forwardOps)

lemma buffers_only_Node_backward [simp]: "buffers_only g (Node_backward g v fake)"
  by (auto simp: Node_backward_def runBackward_def
      intro: buffers_only_runBackward_from buffers_only_backwardOps)

lemma buffers_only_zero_children [simp]: "buffers_only g (zero_children fake g cs)"
proof (induction cs arbitrary: g)
  case Nil
  show ?case by simp
next
  case (Cons c cs)
  show ?case
    using Cons.IH [of "set_zero_adjoint g c fake"] Cons.IH [of g]
    by (auto intro: buffers_only_trans [OF buffers_only_set_zero_adjoint])
qed

subsection \<open>Edge counts\<close>

lemma release_edges_struct: "same_struct g (release_edges g v cs) \<and> freed (release_edges g v cs) = freed g"
proof (induction cs arbitrary: g)
  case Nil
  show ?case by simp
next
  case (Cons c cs)
  have "same_struct g (decreaseEdges (decreaseEdges g v 1) c 1)"
    by (simp add: same_struct_def same_graph_def same_node_def decreaseEdges_def)
  with Cons [of "decreaseEdges (decreaseEdges g v 1) c 1"] show ?case
    by (auto intro: same_struct_trans simp: decreaseEdges_def)
qed

lemma release_edges_buffers [simp]:
  "n_val (heap (release_edges g v cs) b) = n_val (heap g b)"
  "n_adj (heap (release_edges g v cs) b) = n_adj (heap g b)"
  by (induction cs arbitrary: g; simp add: decreaseEdges_def)+

lemma release_edges_edges:
  "n_edges (heap (release_edges g v cs) b) =
     n_edges (heap g b) - of_nat ((if b = v then length cs else 0) + count_list cs b)"
proof (induction cs arbitrary: g)
  case Nil
  show ?case by simp
next
  case (Cons c cs)
  show ?case
    by (simp add: Cons.IH decreaseEdges_def)
qed

lemma edge_ends_same_struct: "same_struct g g' \<Longrightarrow> edge_ends g' v b = edge_ends g v b"
  by (simp add: edge_ends_def same_structD)

lemma degree_same_struct: "same_struct g g' \<Longrightarrow> degree g' b = degree g b"
  by (simp add: degree_def same_structD edge_ends_same_struct)

lemma Node_free_struct: "same_struct g (Node_free g v fake)"
  by (simp add: Node_free_def same_struct_def same_graph_def same_node_def)

lemma Node_free_edges [simp]: "n_edges (heap (Node_free g v fake) b) = n_edges (heap g b)"
  by (simp add: Node_free_def)

lemma forward_visit_struct: "same_struct g (forward_visit fake g v)"
  unfolding forward_visit_def Let_def Node_init_def
  by (blast intro: same_struct_trans buffers_only_same_struct buffers_only_Node_allocate
      buffers_only_Node_forward release_edges_struct [THEN conjunct1])

lemma forward_visit_edges:
  "n_edges (heap (forward_visit fake g v) b) = n_edges (heap g b) - of_nat (edge_ends g v b)"
proof -
  let ?g3 = "Node_forward (Node_allocate g v fake) v fake"
  have b: "buffers_only g ?g3"
    by (blast intro: buffers_only_trans buffers_only_Node_allocate buffers_only_Node_forward)
  then have "n_children (heap ?g3 v) = n_children (heap g v)" "n_edges (heap ?g3 b) = n_edges (heap g b)"
    by (simp_all add: buffers_only_def same_structD)
  then show ?thesis
    by (simp add: forward_visit_def Let_def Node_init_def release_edges_edges edge_ends_def)
qed

lemma backward_visit_struct: "same_struct g (backward_visit fake g v)"
proof -
  let ?g1 = "zero_children fake g (n_children (heap g v))"
  let ?g2 = "if n_trainable (heap ?g1 v) then Node_backward ?g1 v fake else ?g1"
  let ?g3 = "release_edges ?g2 v (n_children (heap ?g2 v))"
  have "buffers_only g ?g2"
    by (auto intro: buffers_only_trans [OF buffers_only_zero_children buffers_only_Node_backward])
  then have "same_struct g ?g3"
    by (blast intro: same_struct_trans buffers_only_same_struct release_edges_struct [THEN conjunct1])
  then show ?thesis
    unfolding backward_visit_def Let_def
    by (auto intro: same_struct_trans Node_free_struct)
qed

lemma backward_visit_edges:
  "n_edges (heap (backward_visit fake g v) b) = n_edges (heap g b) - of_nat (edge_ends g v b)"
proof -
  let ?g1 = "zero_children fake g (n_children (heap g v))"
  let ?g2 = "if n_trainable (heap ?g1 v) then Node_backward ?g1 v fake else ?g1"
  have "buffers_only g ?g2"
    by (auto intro: buffers_only_trans [OF buffers_only_zero_children buffers_only_Node_backward])
  then have "n_children (heap ?g2 v) = n_children (heap g v)" "n_edges (heap ?g2 b) = n_edges (heap g b)"
    by (simp_all add: buffers_only_def same_structD)
  then show ?thesis
    unfolding backward_visit_def Let_def
    by (simp add: release_edges_edges edge_ends_def)
qed

lemma foldl_visit_edges:
  assumes st: "\<And>s v. same_struct s (F s v)"
    and ed: "\<And>s v b. n_edges (heap (F s v) b) = n_edges (heap s b) - of_nat (edge_ends s v b)"
  shows "same_struct g (foldl F g vs) \<and>
         n_edges (heap (foldl F g vs) b) =
           n_edges (heap g b) - of_nat (sum_list (map (\<lambda>v. edge_ends g v b) vs))"
proof (induction vs arbitrary: g)
  case Nil
  show ?case by simp
next
  case (Cons v vs)
  have s1: "same_struct g (F g v)" by (rule st)
  have e: "\<And>u. edge_ends (F g v) u b = edge_ends g u b"
    using s1 by (rule edge_ends_same_struct)
  show ?case
    using Cons.IH [of "F g v"] s1
    by (auto intro: same_struct_trans simp: ed e algebra_simps)
qed

lemma forward_edges:
  "same_struct g (snd (forward g fake)) \<and>
   n_edges (heap (snd (forward g fake)) b) = n_edges (heap g b) - of_nat (degree g b)"
proof -
  let ?g0 = "Parameters_allocateForward g fake"
  have b: "buffers_only g ?g0" by simp
  then have s0: "same_struct g ?g0" by (rule buffers_only_same_struct)
  have n: "g_nodes ?g0 = g_nodes g" using s0 by (simp add: same_structD)
  have e0: "n_edges (heap ?g0 b) = n_edges (heap g b)" using b by (simp add: buffers_only_def)
  have d: "degree ?g0 b = degree g b" using s0 by (rule degree_same_struct)
  from foldl_visit_edges [of "forward_visit fake" ?g0 "g_nodes ?g0" b,
      OF forward_visit_struct forward_visit_edges]
  show ?thesis
    using s0 e0 d
    by (auto simp: forward_def forward_pos_def degree_def intro: same_struct_trans)
qed

lemma backward_edges:
  assumes "length (g_topNodes g) \<le> 1"
  shows "fst (backward g fake) = None \<and> same_struct g (snd (backward g fake)) \<and>
   n_edges (heap (snd (backward g fake)) b) = n_edges (heap g b) - of_nat (degree g b)"
proof -
  let ?g3 = "foldl (\<lambda>s v. init_dependent s v fake)
               (Parameters_set_zero_adjoint (Parameters_allocateBackward g fake) fake)
               (g_topNodes (Parameters_set_zero_adjoint (Parameters_allocateBackward g fake) fake))"
  have b: "buffers_only g ?g3"
    by (blast intro: buffers_only_trans buffers_only_Parameters buffers_only_foldl
        buffers_only_init_dependent)
  then have s0: "same_struct g ?g3" by (rule buffers_only_same_struct)
  have e0: "n_edges (heap ?g3 b) = n_edges (heap g b)" using b by (simp add: buffers_only_def)
  have d: "degree ?g3 b = degree g b" using s0 by (rule degree_same_struct)
  have r: "sum_list (map (\<lambda>v. edge_ends ?g3 v b) (rev (g_nodes ?g3))) = degree ?g3 b"
    by (simp add: degree_def rev_map [symmetric])
  from foldl_visit_edges [of "backward_visit fake" ?g3 "rev (g_nodes ?g3)" b,
      OF backward_visit_struct backward_visit_edges]
  show ?thesis
    using assms s0 e0 d r
    by (auto simp: backward_def Let_def intro: same_struct_trans)
qed

section \<open>The invariant of the built graphs\<close>

lemma degree_cong:
  "g_nodes g' = g_nodes g \<Longrightarrow> (\<And>v. v \<in> set (g_nodes g) \<Longrightarrow> n_children (heap g' v) = n_children (heap g v))
     \<Longrightarrow> degree g' b = degree g b"
  unfolding degree_def edge_ends_def by (rule arg_cong [where f = sum_list]) simp

lemma wf_cong:
  assumes "g_nodes g' = g_nodes g" "g_count g' = g_count g" "next_addr g' = next_addr g"
    and "\<And>a. n_id (heap g' a) = n_id (heap g a)"
    and "\<And>a. n_children (heap g' a) = n_children (heap g a)"
    and "\<And>a. n_edges (heap g' a) = n_edges (heap g a)"
  shows "wf g' = wf g"
proof -
  have "\<And>b. degree g' b = degree g b"
    by (rule degree_cong) (simp_all add: assms)
  then show ?thesis
    by (simp add: wf_def assms)
qed

lemma wf_id_bound: "wf g \<Longrightarrow> c \<in> set (g_nodes g) \<Longrightarrow> n_id (heap g c) < length (g_nodes g)"
proof -
  assume w: "wf g" and c: "c \<in> set (g_nodes g)"
  from c obtain i where i: "i < length (g_nodes g)" "g_nodes g ! i = c"
    by (auto simp: in_set_conv_nth)
  from w have "map (\<lambda>v. n_id (heap g v)) (g_nodes g) ! i = [0..<length (g_nodes g)] ! i"
    by (simp add: wf_def)
  with i show ?thesis by simp
qed

lemma degree_fresh:
  assumes "a \<notin> set (g_nodes g)"
    and "\<And>v. v \<in> set (g_nodes g) \<Longrightarrow> a \<notin> set (n_children (heap g v))"
  shows "degree g a = 0"
proof -
  have "\<And>v. v \<in> set (g_nodes g) \<Longrightarrow> edge_ends g v a = 0"
    using assms by (auto simp: edge_ends_def)
  then show ?thesis by (simp add: degree_def)
qed

lemma wf_alloc:
  assumes w: "wf g" and cs: "set (n_children nd) \<subseteq> set (g_nodes g)" and e: "n_edges nd = 0"
  shows "wf (snd (alloc g nd))"
proof -
  let ?a = "next_addr g"
  let ?g = "snd (alloc g nd)"
  have lt: "\<And>v. v \<in> set (g_nodes g) \<Longrightarrow> v < ?a" using w by (simp add: wf_def)
  then have nin: "?a \<notin> set (g_nodes g)" by blast
  have h: "\<And>v. v \<in> set (g_nodes g) \<Longrightarrow> heap ?g v = heap g v"
    using lt by (auto simp: alloc_def)
  have hn: "\<And>v. v \<noteq> ?a \<Longrightarrow> heap ?g v = heap g v" by (simp add: alloc_def)
  have ha: "heap ?g ?a = nd" by (simp add: alloc_def)
  have nodes: "g_nodes ?g = g_nodes g" "g_count ?g = g_count g" "next_addr ?g = Suc ?a"
    by (simp_all add: alloc_def)
  have sub: "\<And>v. v \<in> set (g_nodes g) \<Longrightarrow> set (n_children (heap g v)) \<subseteq> set (g_nodes g)"
    using w by (simp add: wf_def)
  have deg: "\<And>b. degree ?g b = degree g b"
    by (rule degree_cong) (simp_all add: nodes h)
  have dega: "degree g ?a = 0"
    using nin sub by (intro degree_fresh) auto
  have ids: "map (\<lambda>v. n_id (heap ?g v)) (g_nodes g) = map (\<lambda>v. n_id (heap g v)) (g_nodes g)"
    by (rule map_cong) (simp_all add: h)
  have older: "\<And>a c. c \<in> set (n_children (heap ?g a)) \<Longrightarrow> c < a"
  proof -
    fix a c assume c: "c \<in> set (n_children (heap ?g a))"
    show "c < a"
    proof (cases "a = ?a")
      case True
      with c ha cs lt show ?thesis by auto
    next
      case False
      with c hn w show ?thesis by (auto simp: wf_def)
    qed
  qed
  have edges: "\<And>b. n_edges (heap ?g b) = 2 * of_nat (degree ?g b)"
  proof -
    fix b show "n_edges (heap ?g b) = 2 * of_nat (degree ?g b)"
    proof (cases "b = ?a")
      case True
      then show ?thesis using ha e deg dega by simp
    next
      case False
      then show ?thesis using hn deg w by (simp add: wf_def)
    qed
  qed
  have per: "\<And>v. v \<in> set (g_nodes g) \<Longrightarrow>
      v < Suc ?a \<and> set (n_children (heap ?g v)) \<subseteq> set (g_nodes g) \<and>
      (\<forall>c\<in>set (n_children (heap ?g v)). n_id (heap ?g c) < n_id (heap ?g v))"
  proof -
    fix v assume v: "v \<in> set (g_nodes g)"
    have 1: "v < Suc ?a" using lt [OF v] by simp
    have 2: "set (n_children (heap ?g v)) \<subseteq> set (g_nodes g)" using sub [OF v] h [OF v] by simp
    have 3: "\<forall>c\<in>set (n_children (heap ?g v)). n_id (heap ?g c) < n_id (heap ?g v)"
    proof
      fix c assume "c \<in> set (n_children (heap ?g v))"
      then have c: "c \<in> set (n_children (heap g v))" using h [OF v] by simp
      then have "c \<in> set (g_nodes g)" using sub [OF v] by blast
      then have "heap ?g c = heap g c" by (rule h)
      moreover have "n_id (heap g c) < n_id (heap g v)" using w v c by (simp add: wf_def)
      ultimately show "n_id (heap ?g c) < n_id (heap ?g v)" using h [OF v] by simp
    qed
    show "v < Suc ?a \<and> set (n_children (heap ?g v)) \<subseteq> set (g_nodes g) \<and>
      (\<forall>c\<in>set (n_children (heap ?g v)). n_id (heap ?g c) < n_id (heap ?g v))"
      using 1 2 3 by blast
  qed
  have d: "distinct (g_nodes g)" "g_count g = length (g_nodes g)"
    "map (\<lambda>v. n_id (heap g v)) (g_nodes g) = [0..<length (g_nodes g)]"
    using w by (simp_all add: wf_def)
  show ?thesis
    unfolding wf_def nodes
    using d ids per older edges by auto
qed


lemma add_miss:
  assumes "g_hashMap g (fst (hash g n)) = None"
  shows "fst (add g n) = n"
    and "g_nodes (snd (add g n)) = g_nodes g @ [n]"
    and "g_count (snd (add g n)) = Suc (g_count g)"
    and "g_hashMap (snd (add g n)) = (g_hashMap g)(fst (hash g n) \<mapsto> n)"
    and "n_id (heap (snd (add g n)) b) = (if b = n then g_count g else n_id (heap g b))"
    and "n_edges (heap (snd (add g n)) b) = n_edges (heap g b) + 2 * of_nat (edge_ends g n b)"
  using assms
  by (simp_all add: add_def split_beta Let_def insert_top_node_def setId_def add_children_edges
      edge_ends_def)

lemma wf_add:
  assumes w: "wf g" and nin: "n \<notin> set (g_nodes g)" and lt: "n < next_addr g"
    and cs: "set (n_children (heap g n)) \<subseteq> set (g_nodes g)"
  shows "wf (snd (add g n))"
proof (cases "g_hashMap g (fst (hash g n))")
  case (Some e)
  then have "snd (add g n) = snd (hash g n)" by (simp add: add_hit)
  moreover have "wf (snd (hash g n)) = wf g" by (rule wf_cong) simp_all
  ultimately show ?thesis using w by simp
next
  case None
  let ?g = "snd (add g n)"
  note m = add_miss [OF None]
  have ch: "\<And>a. n_children (heap ?g a) = n_children (heap g a)" by simp
  have d: "distinct (g_nodes g)" "g_count g = length (g_nodes g)"
    "map (\<lambda>v. n_id (heap g v)) (g_nodes g) = [0..<length (g_nodes g)]"
    using w by (simp_all add: wf_def)
  have ids: "map (\<lambda>v. n_id (heap ?g v)) (g_nodes g) = map (\<lambda>v. n_id (heap g v)) (g_nodes g)"
    by (rule map_cong) (use nin in \<open>auto simp: m\<close>)
  have ee: "\<And>v b. edge_ends ?g v b = edge_ends g v b"
    by (simp add: edge_ends_def)
  have deg: "\<And>b. degree ?g b = degree g b + edge_ends g n b"
    by (simp add: degree_def m ee)
  have edges: "\<And>b. n_edges (heap ?g b) = 2 * of_nat (degree ?g b)"
    using w by (simp add: m deg wf_def algebra_simps)
  have older: "\<And>a c. c \<in> set (n_children (heap ?g a)) \<Longrightarrow> c < a"
    using w by (simp add: wf_def)
  have old: "\<And>v. v \<in> set (g_nodes g) \<Longrightarrow>
      v < next_addr g \<and> set (n_children (heap g v)) \<subseteq> set (g_nodes g) \<and>
      (\<forall>c\<in>set (n_children (heap g v)). n_id (heap g c) < n_id (heap g v))"
    using w by (simp add: wf_def)
  have per: "\<And>v. v \<in> set (g_nodes g @ [n]) \<Longrightarrow>
      v < next_addr ?g \<and> set (n_children (heap ?g v)) \<subseteq> set (g_nodes g @ [n]) \<and>
      (\<forall>c\<in>set (n_children (heap ?g v)). n_id (heap ?g c) < n_id (heap ?g v))"
  proof -
    fix v assume v: "v \<in> set (g_nodes g @ [n])"
    show "v < next_addr ?g \<and> set (n_children (heap ?g v)) \<subseteq> set (g_nodes g @ [n]) \<and>
      (\<forall>c\<in>set (n_children (heap ?g v)). n_id (heap ?g c) < n_id (heap ?g v))"
    proof (cases "v = n")
      case True
      have "\<And>c. c \<in> set (n_children (heap g n)) \<Longrightarrow> n_id (heap ?g c) < g_count g"
      proof -
        fix c assume "c \<in> set (n_children (heap g n))"
        then have c: "c \<in> set (g_nodes g)" using cs by blast
        then have "c \<noteq> n" using nin by blast
        then show "n_id (heap ?g c) < g_count g"
          using wf_id_bound [OF w c] d by (simp add: m)
      qed
      then show ?thesis using True lt cs by (auto simp: m)
    next
      case False
      then have vin: "v \<in> set (g_nodes g)" using v by simp
      have "\<And>c. c \<in> set (n_children (heap g v)) \<Longrightarrow> c \<noteq> n"
        using old [OF vin] nin by blast
      then show ?thesis using old [OF vin] False by (auto simp: m)
    qed
  qed
  show ?thesis
    unfolding wf_def m(2) m(3)
    using d ids per older edges nin by (auto simp: m)
qed

lemma wf_fields:
  "wf (g\<lparr>g_topNodes := t\<rparr>) = wf g"
  "wf (g\<lparr>g_named := nmd\<rparr>) = wf g"
  "wf (g\<lparr>g_params := ps\<rparr>) = wf g"
  by (rule wf_cong; simp)+

lemma remove_children_fields [simp]:
  "heap (remove_children_from_top_nodes g a) = heap g"
  "g_nodes (remove_children_from_top_nodes g a) = g_nodes g"
  "g_count (remove_children_from_top_nodes g a) = g_count g"
  "next_addr (remove_children_from_top_nodes g a) = next_addr g"
  "g_hashMap (remove_children_from_top_nodes g a) = g_hashMap g"
  "g_params (remove_children_from_top_nodes g a) = g_params g"
  "g_named (remove_children_from_top_nodes g a) = g_named g"
  "freed (remove_children_from_top_nodes g a) = freed g"
  unfolding remove_children_from_top_nodes_def
  by (rule foldl_sel, simp add: remove_top_node_def)+

lemma wf_Expression_leaf: "wf g \<Longrightarrow> wf (snd (Expression_leaf g shp trn ini))"
proof -
  assume w: "wf g"
  let ?nd = "default_node\<lparr>n_shape := shp, n_trainable := trn, n_val := ini\<rparr>"
  have w1: "wf (snd (alloc g ?nd))"
    by (rule wf_alloc [OF w]) (simp_all add: default_node_def)
  have "wf (snd (add (snd (alloc g ?nd)) (next_addr g)))"
  proof (rule wf_add [OF w1])
    show "next_addr g \<notin> set (g_nodes (snd (alloc g ?nd)))"
      using w by (auto simp: alloc_def wf_def)
  qed (simp_all add: alloc_def default_node_def)
  then show ?thesis by (simp add: Expression_leaf_def alloc_def)
qed

lemma wf_Expression:
  assumes w: "wf g" and ns: "set ns \<subseteq> set (g_nodes g)"
  shows "wf (snd (Expression g ty ns))"
proof -
  have "\<And>shp. wf (snd (add (snd (NaryNodeOp g ty ns shp)) (fst (NaryNodeOp g ty ns shp))))"
  proof -
    fix shp
    let ?nd = "default_node\<lparr>n_shape := shp, n_children := ns, n_type := ty,
                      n_trainable := list_ex (\<lambda>c. n_trainable (heap g c)) ns\<rparr>"
    let ?g1 = "snd (alloc g ?nd)"
    let ?g2 = "remove_children_from_top_nodes ?g1 (next_addr g)"
    have w1: "wf ?g1"
      by (rule wf_alloc [OF w]) (simp_all add: default_node_def ns)
    have "wf ?g2 = wf ?g1" by (rule wf_cong) simp_all
    with w1 have w2: "wf ?g2" by simp
    have "wf (snd (add ?g2 (next_addr g)))"
    proof (rule wf_add [OF w2])
      show "next_addr g \<notin> set (g_nodes ?g2)"
        using w by (auto simp: alloc_def wf_def)
      show "set (n_children (heap ?g2 (next_addr g))) \<subseteq> set (g_nodes ?g2)"
        using ns by (simp add: alloc_def)
    qed (simp_all add: alloc_def)
    then show "wf (snd (add (snd (NaryNodeOp g ty ns shp)) (fst (NaryNodeOp g ty ns shp))))"
      by (simp add: NaryNodeOp_def alloc_def)
  qed
  then show ?thesis
    using w by (auto simp: Expression_def split_beta split: sum.splits)
qed

lemma wf_param:
  assumes w: "wf g" and n: "Parameters_get (g_params g) nm = None"
  shows "wf (snd (param g nm shp ini))"
proof -
  have "wf (set_name (snd (Expression_leaf g shp True ini)) (fst (Expression_leaf g shp True ini)) nm)
        = wf (snd (Expression_leaf g shp True ini))"
    by (rule wf_cong) (simp_all add: set_name_def)
  then show ?thesis
    using n w wf_Expression_leaf [OF w, of shp True ini]
    by (simp add: param_def split_beta Let_def wf_fields split: option.splits)
qed

lemma wf_add_named_node: "wf g \<Longrightarrow> wf (snd (add_named_node g e nm))"
  by (simp add: add_named_node_def wf_fields)

lemma wf_empty: "wf empty_graph"
  by (simp add: wf_def empty_graph_def degree_def default_node_def)

lemma built_wf: "built g \<Longrightarrow> wf g"
  by (induction rule: built.induct)
     (simp_all add: wf_empty wf_Expression_leaf wf_Expression wf_param wf_add_named_node)

section \<open>Ids and insertion order\<close>

lemma one_leaf_heap:
  "heap one_leaf = (\<lambda>_. default_node)(0 := default_node\<lparr>n_shape := [1, 4, 1, 1]\<rparr>)"
  by (simp add: one_leaf_def Expression_leaf_def alloc_def empty_graph_def add_def
      default_node_def Let_def insert_top_node_def setId_def leaf_hash_def hash.simps upd_def)

lemma tanh_graph_eval:
  "g_nodes tanh_graph = [0, 1]" "g_topNodes tanh_graph = [1]"
  "g_hashMap tanh_graph = [0 \<mapsto> 0, 2942146793635365144 \<mapsto> 1]"
  "next_addr tanh_graph = 2"
  by (simp_all add: tanh_graph_def Expression_def newShape_def NaryNodeOp_def alloc_def
      one_leaf_eval one_leaf_heap add_def Let_def insert_top_node_def setId_def leaf_hash_def
      hash.simps upd_def default_node_def remove_children_from_top_nodes_def remove_top_node_def
      set_hash_def hash_combine_def hash_string_def type_name_def increaseEdges_def)

lemma built_one_leaf: "built one_leaf"
  unfolding one_leaf_def by (rule built_leaf [OF built_empty])

lemma built_tanh_graph: "built tanh_graph"
  unfolding tanh_graph_def
  by (rule built_op [OF built_one_leaf]) (simp_all add: one_leaf_eval arity_ok_def)


section \<open>Edge counts\<close>



lemma one_leaf_explicit:
  "one_leaf = \<lparr> heap = (\<lambda>_. default_node)(0 := default_node\<lparr>n_shape := [1, 4, 1, 1]\<rparr>),
     next_addr = 1, g_count = 1, g_nodes = [0], g_tapes = [[0]], g_tapeMap = [0 \<mapsto> 0],
     g_named = Map.empty, g_topNodes = [0], g_params = [], g_hashMap = [0 \<mapsto> 0], freed = [] \<rparr>"
  by (simp add: one_leaf_def Expression_leaf_def alloc_def empty_graph_def add_def
      default_node_def Let_def insert_top_node_def setId_def leaf_hash_def hash.simps upd_def)

lemma tanh_graph_explicit:
  "tanh_graph = \<lparr> heap = (\<lambda>_. default_node)
       (0 := default_node\<lparr>n_shape := [1, 4, 1, 1], n_edges := 2\<rparr>,
        1 := default_node\<lparr>n_shape := [1, 4, 1, 1], n_edges := 2, n_id := 1,
               n_children := [0], n_type := Tanh, n_hash := 2942146793635365144\<rparr>),
     next_addr = 2, g_count = 2, g_nodes = [0, 1], g_tapes = [[0], [1]],
     g_tapeMap = [0 \<mapsto> 0, 1 \<mapsto> 1], g_named = Map.empty, g_topNodes = [1], g_params = [],
     g_hashMap = [0 \<mapsto> 0, 2942146793635365144 \<mapsto> 1], freed = [] \<rparr>"
  by (simp add: tanh_graph_def Expression_def newShape_def NaryNodeOp_def alloc_def
      one_leaf_explicit add_def Let_def insert_top_node_def setId_def leaf_hash_def
      hash.simps upd_def default_node_def remove_children_from_top_nodes_def remove_top_node_def
      set_hash_def hash_combine_def hash_string_def type_name_def increaseEdges_def fun_upd_twist)

lemma tanh_graph_heap:
  "heap tanh_graph 0 = default_node\<lparr>n_shape := [1, 4, 1, 1], n_edges := 2\<rparr>"
  "heap tanh_graph 1 = default_node\<lparr>n_shape := [1, 4, 1, 1], n_edges := 2, n_id := 1,
      n_children := [0], n_type := Tanh, n_hash := 2942146793635365144\<rparr>"
  by (simp_all add: tanh_graph_def Expression_def newShape_def NaryNodeOp_def alloc_def
      one_leaf_explicit add_def Let_def insert_top_node_def setId_def leaf_hash_def
      hash.simps upd_def default_node_def remove_children_from_top_nodes_def remove_top_node_def
      set_hash_def hash_combine_def hash_string_def type_name_def increaseEdges_def)

lemma hash_frameD:
  assumes "hash_frame g g'"
  shows "n_children (heap g' a) = n_children (heap g a)"
    "n_name (heap g' a) = n_name (heap g a)"
    "n_type (heap g' a) = n_type (heap g a)"
    "g_hashMap g' = g_hashMap g" "next_addr g' = next_addr g"
  using assms by (simp_all add: hash_frame_def same_graph_def same_node_def)

lemma older_hash_frame: "hash_frame g g' \<Longrightarrow> older g' = older g"
  by (simp add: older_def hash_frameD)

lemma memo_ok_refl [simp]: "memo_ok g g"
  by (simp add: memo_ok_def)

lemma hval_cong:
  assumes o: "older g"
    and eq: "\<And>b. b \<le> a \<Longrightarrow> n_type (heap g' b) = n_type (heap g b) \<and>
              n_name (heap g' b) = n_name (heap g b) \<and>
              n_children (heap g' b) = n_children (heap g b) \<and>
              n_hash (heap g' b) = n_hash (heap g b)"
  shows "hval g' a = hval g a"
  using eq
proof (induction a rule: less_induct)
  case (less a)
  have ch: "\<And>c. c \<in> set (n_children (heap g a)) \<Longrightarrow> c < a"
    using o by (simp add: older_def)
  have ih: "\<And>c. c \<in> set (n_children (heap g a)) \<Longrightarrow> hval g' c = hval g c"
  proof -
    fix c assume c: "c \<in> set (n_children (heap g a))"
    show "hval g' c = hval g c"
      by (rule less.IH [OF ch [OF c]]) (use ch [OF c] less.prems in auto)
  qed
  have f: "foldl (\<lambda>seed c. hash_combine seed (if c < a then hval g' c else n_hash (heap g' c)))
             s0 (n_children (heap g a)) =
           foldl (\<lambda>seed c. hash_combine seed (if c < a then hval g c else n_hash (heap g c)))
             s0 (n_children (heap g a))" for s0
    by (rule foldl_cong) (use ch ih in auto)
  show ?case
    using less.prems [of a] f by (simp add: hval.simps [of g' a] hval.simps [of g a])
qed

lemma memo_hval:
  assumes m: "memo_ok g g'" and o: "older g"
  shows "hval g' a = hval g a"
proof (induction a rule: less_induct)
  case (less a)
  have hf: "hash_frame g g'" using m by (simp add: memo_ok_def)
  note fr = hash_frameD [OF hf]
  have ch: "\<And>c. c \<in> set (n_children (heap g a)) \<Longrightarrow> c < a"
    using o by (simp add: older_def)
  have f: "foldl (\<lambda>seed c. hash_combine seed (if c < a then hval g' c else n_hash (heap g' c)))
             s0 (n_children (heap g a)) =
           foldl (\<lambda>seed c. hash_combine seed (if c < a then hval g c else n_hash (heap g c)))
             s0 (n_children (heap g a))" for s0
    by (rule foldl_cong) (use ch less.IH in auto)
  from m have "n_hash (heap g' a) = n_hash (heap g a) \<or>
          (n_type (heap g a) \<noteq> Leaf \<and> n_hash (heap g a) = 0 \<and> n_hash (heap g' a) = hval g a)"
    by (simp add: memo_ok_def)
  then show ?case
  proof
    assume "n_hash (heap g' a) = n_hash (heap g a)"
    then show ?thesis
      using f by (simp add: hval.simps [of g' a] hval.simps [of g a] fr)
  next
    assume a: "n_type (heap g a) \<noteq> Leaf \<and> n_hash (heap g a) = 0 \<and> n_hash (heap g' a) = hval g a"
    show ?thesis
    proof (cases "hval g a = 0")
      case True
      then show ?thesis
        using a f by (simp add: hval.simps [of g' a] hval.simps [of g a] fr)
    next
      case False
      then show ?thesis
        using a by (simp add: hval.simps [of g' a] fr)
    qed
  qed
qed

lemma memo_ok_trans:
  assumes "memo_ok g g'" "memo_ok g' g''" "older g"
  shows "memo_ok g g''"
proof -
  have hf: "hash_frame g g'" "hash_frame g' g''" using assms by (simp_all add: memo_ok_def)
  have hv: "\<And>b. hval g' b = hval g b" using assms(1,3) by (rule memo_hval)
  have t: "\<And>b. n_type (heap g' b) = n_type (heap g b)" using hf by (simp add: hash_frameD)
  show ?thesis
    unfolding memo_ok_def
  proof (intro conjI allI)
    show "hash_frame g g''" using hf by (rule hash_frame_trans)
    fix b
    from assms(1) have 1: "n_hash (heap g' b) = n_hash (heap g b) \<or>
          (n_type (heap g b) \<noteq> Leaf \<and> n_hash (heap g b) = 0 \<and> n_hash (heap g' b) = hval g b)"
      by (simp add: memo_ok_def)
    from assms(2) have 2: "n_hash (heap g'' b) = n_hash (heap g' b) \<or>
          (n_type (heap g' b) \<noteq> Leaf \<and> n_hash (heap g' b) = 0 \<and> n_hash (heap g'' b) = hval g' b)"
      by (simp add: memo_ok_def)
    from 1 2 show "n_hash (heap g'' b) = n_hash (heap g b) \<or>
          (n_type (heap g b) \<noteq> Leaf \<and> n_hash (heap g b) = 0 \<and> n_hash (heap g'' b) = hval g b)"
      by (auto simp: hv t)
  qed
qed


lemma memo_ok_set_hash:
  assumes "n_type (heap g a) \<noteq> Leaf"
    and "n_hash (heap g a) = h \<or> (n_hash (heap g a) = 0 \<and> h = hval g a)"
  shows "memo_ok g (set_hash g a h)"
  using assms
  by (auto simp: memo_ok_def set_hash_def hash_frame_def same_node_def)

lemma hash_hval:
  "older g \<Longrightarrow> fst (hash g a) = hval g a \<and> memo_ok g (snd (hash g a))"
  "older g \<Longrightarrow> \<forall>c\<in>set cs. c < a \<Longrightarrow>
     fst (hash_children g a cs seed) = foldl (\<lambda>seed c. hash_combine seed (hval g c)) seed cs \<and>
     memo_ok g (snd (hash_children g a cs seed))"
proof (induction g a and g a cs seed rule: hash_hash_children.induct)
  case (1 g a)
  show ?case
  proof (cases "n_type (heap g a) = Leaf \<or> n_hash (heap g a) \<noteq> 0")
    case True
    then show ?thesis
      by (auto simp: hash.simps [of g a] hval.simps [of g a])
  next
    case False
    let ?s0 = "hash_combine (hash_string (n_name (heap g a)))
                 (hash_string (type_name (n_type (heap g a))))"
    let ?r = "hash_children g a (n_children (heap g a)) ?s0"
    have ch: "\<forall>c\<in>set (n_children (heap g a)). c < a"
      using "1.prems" by (simp add: older_def)
    from False "1.IH" [OF _ _ "1.prems" ch]
    have ih: "fst ?r = foldl (\<lambda>seed c. hash_combine seed (hval g c)) ?s0 (n_children (heap g a))"
      and mk: "memo_ok g (snd ?r)" by auto
    have "foldl (\<lambda>seed c. hash_combine seed (hval g c)) ?s0 (n_children (heap g a)) =
          foldl (\<lambda>seed c. hash_combine seed (if c < a then hval g c else n_hash (heap g c)))
            ?s0 (n_children (heap g a))"
      by (rule foldl_cong) (use ch in auto)
    with ih False have v: "fst ?r = hval g a"
      by (simp add: hval.simps [of g a])
    have hf: "hash_frame g (snd ?r)" using mk by (simp add: memo_ok_def)
    have hv: "hval (snd ?r) a = hval g a" using mk "1.prems" by (rule memo_hval)
    from mk have "n_hash (heap (snd ?r) a) = n_hash (heap g a) \<or>
          (n_type (heap g a) \<noteq> Leaf \<and> n_hash (heap g a) = 0 \<and> n_hash (heap (snd ?r) a) = hval g a)"
      by (simp add: memo_ok_def)
    with False have nh: "n_hash (heap (snd ?r) a) = 0 \<or> n_hash (heap (snd ?r) a) = hval g a"
      by auto
    have "memo_ok (snd ?r) (set_hash (snd ?r) a (fst ?r))"
      by (rule memo_ok_set_hash) (use False hf nh v hv in \<open>auto simp: hash_frameD\<close>)
    with mk have "memo_ok g (set_hash (snd ?r) a (fst ?r))"
      using "1.prems" by (rule memo_ok_trans)
    with v False show ?thesis
      by (simp add: hash.simps [of g a] split_beta)
  qed
next
  case (2 g a seed)
  show ?case by simp
next
  case (3 g a c cs seed)
  from "3.prems" have c: "c < a" and cs: "\<forall>c\<in>set cs. c < a" by simp_all
  let ?r = "hash g c"
  from "3.IH"(1) [OF c "3.prems"(1)]
  have h: "fst ?r = hval g c" and mk: "memo_ok g (snd ?r)" by simp_all
  have "hash_frame g (snd ?r)" using mk by (simp add: memo_ok_def)
  then have o': "older (snd ?r)"
    using "3.prems"(1) by (simp add: older_hash_frame)
  from "3.IH"(2) [OF c prod.collapse o' cs]
  have ih: "fst (hash_children (snd ?r) a cs (hash_combine seed (fst ?r))) =
              foldl (\<lambda>seed c. hash_combine seed (hval (snd ?r) c)) (hash_combine seed (fst ?r)) cs"
    and mk2: "memo_ok (snd ?r) (snd (hash_children (snd ?r) a cs (hash_combine seed (fst ?r))))"
    by simp_all
  have hv: "\<And>b. hval (snd ?r) b = hval g b" using mk "3.prems"(1) by (rule memo_hval)
  from mk mk2 have "memo_ok g (snd (hash_children (snd ?r) a cs (hash_combine seed (fst ?r))))"
    using "3.prems"(1) by (rule memo_ok_trans)
  with ih h hv c show ?case
    by (simp add: split_beta)
qed


lemma wf_older: "wf g \<Longrightarrow> older g"
  by (simp add: wf_def older_def)

lemma wf_NaryNodeOp:
  assumes w: "wf g" and ns: "set ns \<subseteq> set (g_nodes g)"
  shows "wf (snd (NaryNodeOp g ty ns shp))"
proof -
  let ?nd = "default_node\<lparr>n_shape := shp, n_children := ns, n_type := ty,
                    n_trainable := list_ex (\<lambda>c. n_trainable (heap g c)) ns\<rparr>"
  let ?g1 = "snd (alloc g ?nd)"
  have w1: "wf ?g1"
    by (rule wf_alloc [OF w]) (simp_all add: default_node_def ns)
  have "wf (remove_children_from_top_nodes ?g1 (next_addr g)) = wf ?g1"
    by (rule wf_cong) simp_all
  with w1 show ?thesis by (simp add: NaryNodeOp_def alloc_def)
qed

lemma NaryNodeOp_fields:
  "fst (NaryNodeOp g ty ns shp) = next_addr g"
  "next_addr (snd (NaryNodeOp g ty ns shp)) = Suc (next_addr g)"
  "g_nodes (snd (NaryNodeOp g ty ns shp)) = g_nodes g"
  "g_hashMap (snd (NaryNodeOp g ty ns shp)) = g_hashMap g"
  "b \<noteq> next_addr g \<Longrightarrow> heap (snd (NaryNodeOp g ty ns shp)) b = heap g b"
  "heap (snd (NaryNodeOp g ty ns shp)) (next_addr g) =
     default_node\<lparr>n_shape := shp, n_children := ns, n_type := ty,
                    n_trainable := list_ex (\<lambda>c. n_trainable (heap g c)) ns\<rparr>"
  by (simp_all add: NaryNodeOp_def alloc_def)

lemma NaryNodeOp_new:
  "a = next_addr g \<Longrightarrow> heap (snd (NaryNodeOp g ty ns shp)) a =
     default_node\<lparr>n_shape := shp, n_children := ns, n_type := ty,
                    n_trainable := list_ex (\<lambda>c. n_trainable (heap g c)) ns\<rparr>"
  by (simp add: NaryNodeOp_fields)

lemma hval_fresh:
  assumes "n_type (heap g a) \<noteq> Leaf" "n_hash (heap g a) = 0"
    and "\<forall>c\<in>set (n_children (heap g a)). c < a"
  shows "hval g a =
     foldl (\<lambda>seed c. hash_combine seed (hval g c))
       (hash_combine (hash_string (n_name (heap g a))) (hash_string (type_name (n_type (heap g a)))))
       (n_children (heap g a))"
proof -
  have "foldl (\<lambda>seed c. hash_combine seed (if c < a then hval g c else n_hash (heap g c))) s0
          (n_children (heap g a)) =
        foldl (\<lambda>seed c. hash_combine seed (hval g c)) s0 (n_children (heap g a))" for s0
    by (rule foldl_cong) (use assms(3) in auto)
  then show ?thesis using assms(1,2) by (simp add: hval.simps [of g a])
qed

lemma add_hash_table:
  "g_hashMap (snd (add g n)) (fst (hash g n)) = Some (fst (add g n))"
  by (cases "g_hashMap g (fst (hash g n))") (simp_all add: add_miss add_hit)

lemma add_n_hash: "n_hash (heap (snd (add g n)) b) = n_hash (heap (snd (hash g n)) b)"
  by (simp add: add_def split_beta Let_def insert_top_node_def setId_def split: option.splits)

lemma add_hval:
  assumes o: "older g"
  shows "hval (snd (add g n)) c = hval g c"
proof -
  have m: "memo_ok g (snd (hash g n))" using hash_hval(1) [OF o] by simp
  then have hf: "hash_frame g (snd (hash g n))" by (simp add: memo_ok_def)
  have o': "older (snd (hash g n))" using hf o by (simp add: older_hash_frame)
  have "hval (snd (add g n)) c = hval (snd (hash g n)) c"
    by (rule hval_cong [OF o']) (simp add: add_n_hash)
  also have "\<dots> = hval g c" using m o by (rule memo_hval)
  finally show ?thesis .
qed

lemma shape_result_cong:
  assumes "\<And>c. c \<in> set ns \<Longrightarrow> n_shape (heap g' c) = n_shape (heap g c)"
  shows "(if ty = Tanh then newShape g' ns
          else Inr (case ns of [] \<Rightarrow> default_shape | n # x \<Rightarrow> n_shape (heap g' n))) =
         (if ty = Tanh then newShape g ns
          else Inr (case ns of [] \<Rightarrow> default_shape | n # x \<Rightarrow> n_shape (heap g n)))"
proof -
  show ?thesis
  proof (cases ns)
    case Nil
    then show ?thesis by (simp add: newShape_def)
  next
    case (Cons n rest)
    have m: "map (\<lambda>m. n_shape (heap g' m)) rest = map (\<lambda>m. n_shape (heap g m)) rest"
      by (rule map_cong) (simp_all add: assms Cons)
    have "n_shape (heap g' n) = n_shape (heap g n)" by (simp add: assms Cons)
    then show ?thesis by (simp add: newShape_def Cons m)
  qed
qed

lemma Expression_twice:
  assumes b: "built g" and ns: "set ns \<subseteq> set (g_nodes g)" and ar: "arity_ok ty ns"
    and r: "fst (Expression g ty ns) = Inr r"
  shows "fst (Expression (snd (Expression g ty ns)) ty ns) = Inr r"
proof -
  let ?sr = "\<lambda>g. (if ty = Tanh then newShape g ns
          else Inr (case ns of [] \<Rightarrow> default_shape | n # x \<Rightarrow> n_shape (heap g n)))"
  have w: "wf g" using b by (rule built_wf)
  from r obtain sh where sh: "?sr g = Inr sh"
    by (cases "?sr g") (simp_all add: Expression_def)
  let ?a1 = "next_addr g"
  let ?gA = "snd (NaryNodeOp g ty ns sh)"
  let ?g1 = "snd (add ?gA ?a1)"
  have E1: "Expression g ty ns = (Inr (fst (add ?gA ?a1)), ?g1)"
    using sh by (simp add: Expression_def split_beta NaryNodeOp_fields)
  then have r1: "r = fst (add ?gA ?a1)" using r by simp
  have lt: "\<And>c. c \<in> set ns \<Longrightarrow> c < ?a1" using w ns by (auto simp: wf_def)
  have ty: "ty \<noteq> Leaf" using ar by (auto simp: arity_ok_def)
  have wA: "wf ?gA" using w ns by (rule wf_NaryNodeOp)
  have oA: "older ?gA" using wA by (rule wf_older)
  have w1: "wf ?g1" using wf_Expression [OF w ns, of ty] E1 by simp
  have o1: "older ?g1" using w1 by (rule wf_older)
  have n1: "g_nodes ?g1 = g_nodes ?gA \<or> g_nodes ?g1 = g_nodes ?gA @ [?a1]"
    by (simp add: add_nodes)
  then have ns1: "set ns \<subseteq> set (g_nodes ?g1)" using ns by (auto simp: NaryNodeOp_fields)
  have hA: "fst (hash ?gA ?a1) = hval ?gA ?a1" using hash_hval(1) [OF oA] by simp
  have tab: "g_hashMap ?g1 (hval ?gA ?a1) = Some r"
    using add_hash_table [of ?gA ?a1] by (simp add: hA r1)
  have shp: "\<And>c. c \<in> set ns \<Longrightarrow> n_shape (heap ?g1 c) = n_shape (heap g c)"
  proof -
    fix c assume "c \<in> set ns"
    then have "c \<noteq> ?a1" using lt by blast
    then show "n_shape (heap ?g1 c) = n_shape (heap g c)"
      by (simp add: NaryNodeOp_fields(5))
  qed
  have sh1: "?sr ?g1 = Inr sh"
    using shape_result_cong [of ns ?g1 g ty, OF shp] sh by simp
  let ?a2 = "next_addr ?g1"
  let ?gB = "snd (NaryNodeOp ?g1 ty ns sh)"
  have a2: "?a2 = Suc ?a1" by (simp add: NaryNodeOp_fields)
  have E2: "Expression ?g1 ty ns = (Inr (fst (add ?gB ?a2)), snd (add ?gB ?a2))"
    using sh1 by (simp add: Expression_def split_beta NaryNodeOp_fields)
  have wB: "wf ?gB" using w1 ns1 by (rule wf_NaryNodeOp)
  have oB: "older ?gB" using wB by (rule wf_older)
  have hB: "fst (hash ?gB ?a2) = hval ?gB ?a2" using hash_hval(1) [OF oB] by simp
  have cA: "\<And>c. c \<in> set ns \<Longrightarrow> hval ?gB c = hval ?gA c"
  proof -
    fix c assume c: "c \<in> set ns"
    have "hval ?gB c = hval ?g1 c"
      by (rule hval_cong [OF o1]) (use lt [OF c] a2 in \<open>simp add: NaryNodeOp_fields(5)\<close>)
    also have "\<dots> = hval ?gA c" using oA by (rule add_hval)
    finally show "hval ?gB c = hval ?gA c" .
  qed
  have fA: "hval ?gA ?a1 = foldl (\<lambda>seed c. hash_combine seed (hval ?gA c))
       (hash_combine (hash_string ''none'') (hash_string (type_name ty))) ns"
    using hval_fresh [of ?gA ?a1] ty lt
    by (simp add: NaryNodeOp_new default_node_def)
  have fB: "hval ?gB ?a2 = foldl (\<lambda>seed c. hash_combine seed (hval ?gB c))
       (hash_combine (hash_string ''none'') (hash_string (type_name ty))) ns"
    using hval_fresh [of ?gB ?a2] ty lt
    by (simp add: NaryNodeOp_new NaryNodeOp_fields(2) default_node_def less_Suc_eq)
  have "foldl (\<lambda>seed c. hash_combine seed (hval ?gB c)) s0 ns =
        foldl (\<lambda>seed c. hash_combine seed (hval ?gA c)) s0 ns" for s0
    by (rule foldl_cong) (simp_all add: cA)
  with fA fB have eq: "hval ?gB ?a2 = hval ?gA ?a1" by simp
  have "g_hashMap ?gB (fst (hash ?gB ?a2)) = g_hashMap ?g1 (hval ?gA ?a1)"
    by (simp only: hB eq NaryNodeOp_fields(4))
  with tab have "g_hashMap ?gB (fst (hash ?gB ?a2)) = Some r" by (simp only:)
  then have "add ?gB ?a2 = (r, snd (hash ?gB ?a2))" by (rule add_hit)
  then have "fst (add ?gB ?a2) = r" by (simp only: fst_conv)
  with E2 have "fst (Expression ?g1 ty ns) = Inr r" by (simp only: fst_conv)
  with E1 show ?thesis by (simp only: snd_conv)
qed


section \<open>Gradient buffers in the backward pass\<close>

lemma backwardOps_map:
  "backwardOps g v =
     map (grad_op (n_type (heap g v)) v) (op_children (n_type (heap g v)) (n_children (heap g v)))"
  by (cases "n_children (heap g v)")
     (simp_all add: backwardOps_def op_children_def split: ntype.splits)

lemma grad_op_adj:
  "n_adj (heap (grad_op ty v c s) b) =
     (if b = c then Add (n_adj (heap s c)) (grad_term ty s v c) else n_adj (heap s b))"
  by (simp add: grad_op_def set_adj_def)

lemma grad_op_val [simp]: "n_val (heap (grad_op ty v c s) b) = n_val (heap s b)"
  by (simp add: grad_op_def set_adj_def)

lemma grad_op_struct [simp]:
  "n_trainable (heap (grad_op ty v c s) b) = n_trainable (heap s b)"
  "n_children (heap (grad_op ty v c s) b) = n_children (heap s b)"
  by (simp_all add: grad_op_def set_adj_def)

lemma runBackward_from_fold:
  assumes "\<forall>j<length cs. i + j < length (n_children (heap g v)) \<and>
             n_children (heap g v) ! (i + j) = cs ! j"
    and "\<And>c. n_trainable (heap g c) = tr c"
  shows "runBackward_from g v (map (grad_op ty v) cs) i =
         foldl (\<lambda>s c. if tr c then grad_op ty v c s else s) g cs"
  using assms
proof (induction cs arbitrary: g i)
  case Nil
  show ?case by simp
next
  case (Cons c cs)
  from Cons.prems(1) have c: "i < length (n_children (heap g v))" "n_children (heap g v) ! i = c"
    by (auto dest: spec [where x = 0])
  have rest: "\<forall>j<length cs. Suc i + j < length (n_children (heap g v)) \<and>
             n_children (heap g v) ! (Suc i + j) = cs ! j"
  proof (intro allI impI)
    fix j assume "j < length cs"
    then have "Suc j < length (c # cs)" by simp
    from Cons.prems(1) [rule_format, OF this] show "Suc i + j < length (n_children (heap g v)) \<and>
             n_children (heap g v) ! (Suc i + j) = cs ! j" by simp
  qed
  show ?case
  proof (cases "tr c")
    case True
    have "runBackward_from (grad_op ty v c g) v (map (grad_op ty v) cs) (Suc i) =
          foldl (\<lambda>s c. if tr c then grad_op ty v c s else s) (grad_op ty v c g) cs"
      by (rule Cons.IH) (use rest Cons.prems(2) in simp_all)
    with True c Cons.prems(2) show ?thesis by simp
  next
    case False
    have "runBackward_from g v (map (grad_op ty v) cs) (Suc i) =
          foldl (\<lambda>s c. if tr c then grad_op ty v c s else s) g cs"
      by (rule Cons.IH) (use rest Cons.prems(2) in simp_all)
    with False c Cons.prems(2) show ?thesis by simp
  qed
qed

lemma op_children_prefix:
  "\<forall>j<length (op_children ty cs). 0 + j < length cs \<and> cs ! (0 + j) = op_children ty cs ! j"
  by (cases ty) (auto simp: op_children_def)

lemma Node_backward_fold:
  "Node_backward g v False =
     foldl (\<lambda>s c. if n_trainable (heap g c) then grad_op (n_type (heap g v)) v c s else s) g
       (op_children (n_type (heap g v)) (n_children (heap g v)))"
  unfolding Node_backward_def runBackward_def backwardOps_map
  by (simp add: runBackward_from_fold [OF op_children_prefix, where tr = "\<lambda>c. n_trainable (heap g c)"])

lemma fold_grad_adj_other:
  "(\<And>c. c \<in> set cs \<Longrightarrow> tr c \<Longrightarrow> c \<noteq> b)
     \<Longrightarrow> n_adj (heap (foldl (\<lambda>s c. if tr c then grad_op ty v c s else s) g cs) b) = n_adj (heap g b)"
  by (induction cs arbitrary: g) (auto simp: grad_op_adj)

lemma fold_grad_val [simp]:
  "n_val (heap (foldl (\<lambda>s c. if tr c then grad_op ty v c s else s) g cs) b) = n_val (heap g b)"
  by (induction cs arbitrary: g) simp_all

lemma op_children_subset: "set (op_children ty cs) \<subseteq> set cs"
  by (cases ty) (auto simp: op_children_def dest: in_set_takeD)

lemma Node_backward_adj_other:
  assumes "\<not> n_trainable (heap g b) \<or> b \<notin> set (n_children (heap g v))"
  shows "n_adj (heap (Node_backward g v fake) b) = n_adj (heap g b)"
proof (cases fake)
  case True
  then show ?thesis by (simp add: Node_backward_def)
next
  case False
  then have "Node_backward g v fake = Node_backward g v False" by simp
  also note Node_backward_fold
  finally show ?thesis
    using assms op_children_subset [of "n_type (heap g v)" "n_children (heap g v)"]
    by (auto intro!: fold_grad_adj_other)
qed

lemma Node_backward_val [simp]: "n_val (heap (Node_backward g v fake) b) = n_val (heap g b)"
  by (cases fake) (simp_all add: Node_backward_fold, simp add: Node_backward_def)

lemma set_zero_adjoint_adj:
  "n_adj (heap (set_zero_adjoint g c fake) b) =
     (if b = c \<and> n_adj (heap g b) = None then Some (zeros (n_shape (heap g b))) else n_adj (heap g b))"
  by (auto simp: set_zero_adjoint_def split: option.splits)

lemma set_zero_adjoint_struct [simp]:
  "n_trainable (heap (set_zero_adjoint g c fake) b) = n_trainable (heap g b)"
  "n_shape (heap (set_zero_adjoint g c fake) b) = n_shape (heap g b)"
  "n_val (heap (set_zero_adjoint g c fake) b) = n_val (heap g b)"
  by (simp_all add: set_zero_adjoint_def split: option.splits)

lemma zero_children_struct [simp]:
  "n_trainable (heap (zero_children fake g cs) b) = n_trainable (heap g b)"
  "n_shape (heap (zero_children fake g cs) b) = n_shape (heap g b)"
  "n_val (heap (zero_children fake g cs) b) = n_val (heap g b)"
  by (induction cs arbitrary: g; simp)+

lemma zero_children_adj:
  "n_adj (heap (zero_children fake g cs) b) =
     (if b \<in> set cs \<and> n_trainable (heap g b) \<and> n_adj (heap g b) = None
      then Some (zeros (n_shape (heap g b))) else n_adj (heap g b))"
  by (induction cs arbitrary: g) (auto simp: set_zero_adjoint_adj)

lemma Node_free_adj:
  "n_adj (heap (Node_free g v fake) b) = (if b = v then None else n_adj (heap g b))"
  by (simp add: Node_free_def)

lemma backward_visit_unfold:
  obtains g3 where "buffers_only g (zero_children fake g (n_children (heap g v)))"
    and "same_struct g g3" and "freed g3 = freed g"
    and "\<And>b. n_edges (heap g3 b) = n_edges (heap g b) - of_nat (edge_ends g v b)"
    and "\<And>b. n_val (heap g3 b) = n_val (heap g b)"
    and "\<And>b. n_adj (heap g3 b) =
           n_adj (heap (if n_trainable (heap g v)
                        then Node_backward (zero_children fake g (n_children (heap g v))) v fake
                        else zero_children fake g (n_children (heap g v))) b)"
    and "backward_visit fake g v =
           (if n_edges (heap g3 v) = 0 \<and> n_name (heap g v) = ''none''
            then Node_free g3 v fake else g3)"
proof -
  define g1 where "g1 = zero_children fake g (n_children (heap g v))"
  define g2 where "g2 = (if n_trainable (heap g1 v) then Node_backward g1 v fake else g1)"
  define g3 where "g3 = release_edges g2 v (n_children (heap g2 v))"
  have b1: "buffers_only g g1" unfolding g1_def by simp
  have b: "buffers_only g g2"
    unfolding g2_def using b1
    by (auto intro: buffers_only_trans [OF _ buffers_only_Node_backward])
  then have f2: "freed g2 = freed g" and e2: "\<And>b. n_edges (heap g2 b) = n_edges (heap g b)"
    and c2: "n_children (heap g2 v) = n_children (heap g v)"
    by (simp_all add: buffers_only_def same_structD)
  have f3: "freed g3 = freed g" unfolding g3_def using release_edges_struct [of g2 v] f2 by simp
  have s3: "same_struct g g3"
    unfolding g3_def using b
    by (blast intro: same_struct_trans buffers_only_same_struct
        release_edges_struct [THEN conjunct1])
  then have n3: "n_name (heap g3 v) = n_name (heap g v)" by (simp add: same_structD)
  have e3: "\<And>b. n_edges (heap g3 b) = n_edges (heap g b) - of_nat (edge_ends g v b)"
    unfolding g3_def by (auto simp: release_edges_edges e2 c2 edge_ends_def)
  have v3: "\<And>b. n_val (heap g3 b) = n_val (heap g b)"
    unfolding g3_def g2_def g1_def by simp
  have t1: "n_trainable (heap g1 v) = n_trainable (heap g v)" unfolding g1_def by simp
  have a3: "\<And>b. n_adj (heap g3 b) =
           n_adj (heap (if n_trainable (heap g v)
                        then Node_backward (zero_children fake g (n_children (heap g v))) v fake
                        else zero_children fake g (n_children (heap g v))) b)"
    unfolding g3_def g2_def t1 unfolding g1_def by simp
  have bv: "backward_visit fake g v =
           (if n_edges (heap g3 v) = 0 \<and> n_name (heap g3 v) = ''none''
            then Node_free g3 v fake else g3)"
    by (simp only: backward_visit_def Let_def g3_def g2_def g1_def)
  show ?thesis
    by (rule that [of g3]) (use s3 f3 e3 v3 a3 bv n3 in simp_all)
qed

lemma backward_visit_freed:
  "freed (backward_visit fake g v) =
     (if n_edges (heap (backward_visit fake g v) v) = 0 \<and> n_name (heap g v) = ''none''
      then freed g @ [v] else freed g)"
proof -
  obtain g3 where f3: "freed g3 = freed g"
    and bv: "backward_visit fake g v =
           (if n_edges (heap g3 v) = 0 \<and> n_name (heap g v) = ''none''
            then Node_free g3 v fake else g3)"
    by (rule backward_visit_unfold [of g fake v]) blast
  show ?thesis
    by (simp add: bv f3 Node_free_def)
qed

lemma backward_loop_freed:
  "\<exists>fs. freed (foldl (backward_visit fake) g vs) = freed g @ fs \<and>
        set fs \<subseteq> {v \<in> set vs. n_name (heap g v) = ''none''}"
proof (induction vs arbitrary: g)
  case Nil
  show ?case by simp
next
  case (Cons v vs)
  let ?g = "backward_visit fake g v"
  from Cons.IH [of ?g] obtain fs where fs: "freed (foldl (backward_visit fake) ?g vs) = freed ?g @ fs"
    "set fs \<subseteq> {u \<in> set vs. n_name (heap ?g u) = ''none''}" by blast
  have nm: "\<And>u. n_name (heap ?g u) = n_name (heap g u)"
    using backward_visit_struct [of g fake v] by (simp add: same_structD)
  show ?case
  proof (cases "n_edges (heap ?g v) = 0 \<and> n_name (heap g v) = ''none''")
    case True
    then have "freed ?g = freed g @ [v]" by (simp add: backward_visit_freed)
    with fs nm True show ?thesis
      by (intro exI [where x = "v # fs"]) auto
  next
    case False
    then have "freed ?g = freed g" by (simp add: backward_visit_freed)
    with fs nm show ?thesis
      by (intro exI [where x = fs]) auto
  qed
qed

lemma prologue_buffers:
  "buffers_only g (foldl (\<lambda>s v. init_dependent s v fake)
                 (Parameters_set_zero_adjoint (Parameters_allocateBackward g fake) fake)
                 (g_topNodes g))"
  by (blast intro: buffers_only_trans buffers_only_Parameters buffers_only_foldl
      buffers_only_init_dependent)

lemma backward_start:
  assumes "length (g_topNodes g) \<le> 1"
  shows "backward g fake =
     (None, foldl (backward_visit fake)
              (foldl (\<lambda>s v. init_dependent s v fake)
                 (Parameters_set_zero_adjoint (Parameters_allocateBackward g fake) fake)
                 (g_topNodes g))
              (rev (g_nodes g)))"
proof -
  have "g_nodes (foldl (\<lambda>s v. init_dependent s v fake)
                 (Parameters_set_zero_adjoint (Parameters_allocateBackward g fake) fake)
                 (g_topNodes g)) = g_nodes g"
    using prologue_buffers [of g fake] by (simp add: buffers_only_def same_structD)
  with assms show ?thesis by (simp add: backward_def Let_def)
qed

lemma param_new_name:
  assumes "Parameters_get (g_params g) nm = None" "param g nm shp ini = (Inr p, g')"
  shows "n_name (heap g' p) = nm"
  using assms
  by (auto simp: param_def split_beta Let_def set_name_def split: option.splits)

section \<open>Release of node storage\<close>


lemma tanh_forwarded_struct: "same_struct tanh_graph tanh_forwarded"
  unfolding tanh_forwarded_def by (simp add: forward_edges)

lemma tanh_graph_degree: "degree tanh_graph (Suc 0) = 1" "degree tanh_graph 0 = 1"
  by (simp_all add: degree_def edge_ends_def tanh_graph_explicit default_node_def)

lemma tanh_forwarded_edges:
  "n_edges (heap tanh_forwarded (Suc 0)) = 1" "n_edges (heap tanh_forwarded 0) = 1"
  unfolding tanh_forwarded_def
  by (simp_all add: forward_edges tanh_graph_degree) (simp_all add: tanh_graph_explicit default_node_def)

lemma tanh_forwarded_eval:
  "n_name (heap tanh_forwarded (Suc 0)) = ''none''" "n_children (heap tanh_forwarded (Suc 0)) = [0]"
  "g_topNodes tanh_forwarded = [Suc 0]" "g_nodes tanh_forwarded = [0, Suc 0]"
  by (simp_all add: same_structD [OF tanh_forwarded_struct])
     (simp_all add: tanh_graph_explicit default_node_def)


section \<open>Gradients of nodes that are not trainable\<close>

lemma init_dependent_adj_other: "b \<noteq> v \<Longrightarrow> n_adj (heap (init_dependent g v fake) b) = n_adj (heap g b)"
  by (simp add: init_dependent_def)

lemma foldl_init_dependent_adj:
  "b \<notin> set vs \<Longrightarrow> n_adj (heap (foldl (\<lambda>s v. init_dependent s v fake) g vs) b) = n_adj (heap g b)"
  by (induction vs arbitrary: g) (auto simp: init_dependent_adj_other)

lemma foldl_set_zero_adjoint_adj:
  "b \<notin> set ps \<Longrightarrow>
     n_adj (heap (foldl (\<lambda>s p. set_zero_adjoint s p f) s ps) b) = n_adj (heap s b)"
  by (induction ps arbitrary: s) (auto simp: set_zero_adjoint_adj)

lemma foldl_zero_adj:
  "b \<notin> set ps \<Longrightarrow>
     n_adj (heap (foldl (\<lambda>s p. upd s p (\<lambda>n. n\<lparr>n_adj := Some (zeros (n_shape n))\<rparr>)) s ps) b) =
     n_adj (heap s b)"
  by (induction ps arbitrary: s) auto

lemma Parameters_adj_other:
  assumes "b \<notin> snd ` set (g_params g)"
  shows "n_adj (heap (Parameters_set_zero_adjoint (Parameters_allocateBackward g fake) fake) b) =
         n_adj (heap g b)"
proof -
  have b: "b \<notin> set (map snd (g_params g))" using assms by simp
  have 1: "n_adj (heap (Parameters_allocateBackward g f) b) = n_adj (heap g b)" for f
    unfolding Parameters_allocateBackward_def using b by (rule foldl_set_zero_adjoint_adj)
  show ?thesis
    unfolding Parameters_set_zero_adjoint_def
    using b by (simp add: foldl_zero_adj 1)
qed

lemma backward_visit_adj_nontrainable:
  assumes "\<not> n_trainable (heap g x)"
  shows "n_adj (heap (backward_visit fake g v) x) = n_adj (heap g x) \<or>
         n_adj (heap (backward_visit fake g v) x) = None"
proof -
  obtain g3 where a3: "\<And>b. n_adj (heap g3 b) =
           n_adj (heap (if n_trainable (heap g v)
                        then Node_backward (zero_children fake g (n_children (heap g v))) v fake
                        else zero_children fake g (n_children (heap g v))) b)"
    and bv: "backward_visit fake g v =
           (if n_edges (heap g3 v) = 0 \<and> n_name (heap g v) = ''none''
            then Node_free g3 v fake else g3)"
    by (rule backward_visit_unfold [of g fake v]) blast
  have "n_adj (heap g3 x) = n_adj (heap g x)"
    using assms by (simp add: a3 Node_backward_adj_other zero_children_adj)
  then show ?thesis by (simp add: bv Node_free_adj)
qed

lemma backward_loop_adj_nontrainable:
  assumes "\<not> n_trainable (heap g x)"
  shows "n_adj (heap (foldl (backward_visit fake) g vs) x) = n_adj (heap g x) \<or>
         n_adj (heap (foldl (backward_visit fake) g vs) x) = None"
  using assms
proof (induction vs arbitrary: g)
  case Nil
  show ?case by simp
next
  case (Cons v vs)
  let ?g = "backward_visit fake g v"
  have "n_trainable (heap ?g x) = n_trainable (heap g x)"
    using backward_visit_struct [of g fake v] by (simp add: same_structD)
  with Cons.prems have "\<not> n_trainable (heap ?g x)" by simp
  from Cons.IH [OF this] backward_visit_adj_nontrainable [OF Cons.prems, of fake v]
  show ?case by auto
qed

text \<open>
  C10, as the code has it. \<^verbatim>\<open>runBackward\<close> pairs the ops with the children by position and
  skips an op whose child is not trainable, and the loop of \<^verbatim>\<open>backward\<close> zeroes the
  adjoint of trainable children only. So neither the zeroing nor the backward ops write
  the gradient of a node that is not trainable; in the loop such a gradient keeps its
  content until the storage is released. Before the loop \<^verbatim>\<open>backward\<close> seeds the top node
  and zeroes the parameters' gradients without asking \<^verbatim>\<open>trainable()\<close>: over the whole of
  \<^verbatim>\<open>backward\<close> the statement holds for the nodes that are neither a top node nor a parameter.
\<close>

theorem nontrainable_gradient_untouched:
  "(\<not> (i < length (n_children (heap g v)) \<and> n_trainable (heap g (n_children (heap g v) ! i))) \<longrightarrow>
      runBackward_from g v (op # ops) i = runBackward_from g v ops (Suc i)) \<and>
   (\<not> n_trainable (heap g x) \<longrightarrow>
      n_adj (heap (zero_children fake g cs) x) = n_adj (heap g x) \<and>
      n_adj (heap (Node_backward g v fake) x) = n_adj (heap g x) \<and>
      (n_adj (heap (foldl (backward_visit fake) g vs) x) = n_adj (heap g x) \<or>
       n_adj (heap (foldl (backward_visit fake) g vs) x) = None)) \<and>
   (\<not> n_trainable (heap g x) \<and> x \<notin> set (g_topNodes g) \<and> x \<notin> snd ` set (g_params g) \<longrightarrow>
      n_adj (heap (snd (backward g fake)) x) = n_adj (heap g x) \<or>
      n_adj (heap (snd (backward g fake)) x) = None)"
proof (intro conjI impI)
  assume "\<not> (i < length (n_children (heap g v)) \<and> n_trainable (heap g (n_children (heap g v) ! i)))"
  then show "runBackward_from g v (op # ops) i = runBackward_from g v ops (Suc i)" by auto
next
  assume "\<not> n_trainable (heap g x)"
  then show "n_adj (heap (zero_children fake g cs) x) = n_adj (heap g x)"
    by (simp add: zero_children_adj)
next
  assume "\<not> n_trainable (heap g x)"
  then show "n_adj (heap (Node_backward g v fake) x) = n_adj (heap g x)"
    by (simp add: Node_backward_adj_other)
next
  assume "\<not> n_trainable (heap g x)"
  then show "n_adj (heap (foldl (backward_visit fake) g vs) x) = n_adj (heap g x) \<or>
       n_adj (heap (foldl (backward_visit fake) g vs) x) = None"
    by (rule backward_loop_adj_nontrainable)
next
  assume a: "\<not> n_trainable (heap g x) \<and> x \<notin> set (g_topNodes g) \<and> x \<notin> snd ` set (g_params g)"
  let ?g0 = "foldl (\<lambda>s v. init_dependent s v fake)
                 (Parameters_set_zero_adjoint (Parameters_allocateBackward g fake) fake)
                 (g_topNodes g)"
  have adj0: "n_adj (heap ?g0 x) = n_adj (heap g x)"
    using a by (simp add: foldl_init_dependent_adj Parameters_adj_other)
  have "n_trainable (heap ?g0 x) = n_trainable (heap g x)"
    using prologue_buffers [of g fake] by (simp add: buffers_only_def same_structD)
  with a have nt: "\<not> n_trainable (heap ?g0 x)" by simp
  show "n_adj (heap (snd (backward g fake)) x) = n_adj (heap g x) \<or>
        n_adj (heap (snd (backward g fake)) x) = None"
  proof (cases "length (g_topNodes g) \<le> 1")
    case True
    from backward_loop_adj_nontrainable [OF nt, of fake "rev (g_nodes g)"]
    show ?thesis by (simp add: backward_start [OF True] adj0)
  next
    case False
    then show ?thesis by (simp add: backward_def)
  qed
qed

lemma const_leaf_explicit:
  "const_leaf = \<lparr> heap = (\<lambda>_. default_node)
       (0 := default_node\<lparr>n_shape := [1, 4, 1, 1], n_trainable := False\<rparr>),
     next_addr = 1, g_count = 1, g_nodes = [0], g_tapes = [[0]], g_tapeMap = [0 \<mapsto> 0],
     g_named = Map.empty, g_topNodes = [0], g_params = [], g_hashMap = [0 \<mapsto> 0], freed = [] \<rparr>"
  by (simp add: const_leaf_def Expression_leaf_def alloc_def empty_graph_def add_def
      default_node_def Let_def insert_top_node_def setId_def leaf_hash_def hash.simps upd_def)

lemma const_tanh_explicit:
  "const_tanh = \<lparr> heap = (\<lambda>_. default_node)
       (0 := default_node\<lparr>n_shape := [1, 4, 1, 1], n_trainable := False, n_edges := 2\<rparr>,
        Suc 0 := default_node\<lparr>n_shape := [1, 4, 1, 1], n_trainable := False, n_edges := 2,
               n_id := 1, n_children := [0], n_type := Tanh, n_hash := 2942146793635365144\<rparr>),
     next_addr = 2, g_count = 2, g_nodes = [0, Suc 0], g_tapes = [[0], [Suc 0]],
     g_tapeMap = [0 \<mapsto> 0, Suc 0 \<mapsto> 1], g_named = Map.empty, g_topNodes = [Suc 0], g_params = [],
     g_hashMap = [0 \<mapsto> 0, 2942146793635365144 \<mapsto> Suc 0], freed = [] \<rparr>"
  by (simp add: const_tanh_def Expression_def newShape_def NaryNodeOp_def alloc_def
      const_leaf_explicit add_def Let_def insert_top_node_def setId_def leaf_hash_def
      hash.simps upd_def default_node_def remove_children_from_top_nodes_def remove_top_node_def
      set_hash_def hash_combine_def hash_string_def type_name_def increaseEdges_def fun_upd_twist)

theorem nontrainable_top_node_seeded:
  "\<not> n_trainable (heap const_tanh 1) \<and> n_adj (heap const_tanh 1) = None \<and>
   n_adj (heap (snd (backward const_tanh False)) 1) = Some [1, 1, 1, 1]"
  by (simp add: const_tanh_explicit backward_def Let_def Parameters_allocateBackward_def
      Parameters_set_zero_adjoint_def init_dependent_def backward_visit_def default_node_def
      upd_def Node_backward_def decreaseEdges_def ones_def elements_def eval_nat_numeral)

theorem nontrainable_gradient_untouched_witness:
  "\<not> (0 < length (n_children (heap const_tanh 1)) \<and>
        n_trainable (heap const_tanh (n_children (heap const_tanh 1) ! 0))) \<and>
   runBackward_from const_tanh 1 [grad_op Tanh 1 0] 0 = runBackward_from const_tanh 1 [] (Suc 0) \<and>
   \<not> n_trainable (heap const_tanh 0) \<and> 0 \<notin> set (g_topNodes const_tanh) \<and>
   0 \<notin> snd ` set (g_params const_tanh) \<and>
   n_adj (heap (zero_children False const_tanh [0]) 0) = n_adj (heap const_tanh 0) \<and>
   n_adj (heap (Node_backward const_tanh 1 False) 0) = n_adj (heap const_tanh 0) \<and>
   (n_adj (heap (snd (backward const_tanh False)) 0) = n_adj (heap const_tanh 0) \<or>
    n_adj (heap (snd (backward const_tanh False)) 0) = None)"
proof -
  have h: "\<not> (0 < length (n_children (heap const_tanh 1)) \<and>
        n_trainable (heap const_tanh (n_children (heap const_tanh 1) ! 0)))"
    "\<not> n_trainable (heap const_tanh 0)" "0 \<notin> set (g_topNodes const_tanh)"
    "0 \<notin> snd ` set (g_params const_tanh)"
    by (simp_all add: const_tanh_explicit default_node_def)
  note t = nontrainable_gradient_untouched [of 0 const_tanh 1 "grad_op Tanh 1 0" "[]" 0 False "[0]" "[]"]
  from t h show ?thesis by auto
qed

section \<open>Saving and loading\<close>

lemma save_array_round_trip:
  assumes "length v = r * c"
  shows "load_shape (save_array [r, c, 1, 1] v) = [r, c, 1, 1]"
    and "npy_data (save_array [r, c, 1, 1] v) = v"
  using assms
  by (simp_all add: save_array_def load_shape_def npz_array_def shape_at_def default_shape_def)

lemma leaf_hash_fresh:
  assumes "a < 2 ^ 64" "b < a"
  shows "leaf_hash a \<noteq> leaf_hash b"
proof -
  have "take_bit 64 a = a" "take_bit 64 b = b"
    using assms by (simp_all add: take_bit_nat_eq_self)
  with assms show ?thesis
    by (simp add: leaf_hash_def word_of_nat_eq_iff)
qed

lemma param_new:
  assumes po: "params_only g" and nm: "nm \<notin> fst ` set (g_params g)" and lt: "next_addr g < 2 ^ 64"
  shows "fst (param g nm shp ini) = Inr (next_addr g)"
    and "next_addr (snd (param g nm shp ini)) = Suc (next_addr g)"
    and "g_params (snd (param g nm shp ini)) = g_params g @ [(nm, next_addr g)]"
    and "g_named (snd (param g nm shp ini)) = Map.empty"
    and "g_hashMap (snd (param g nm shp ini)) = (g_hashMap g)(leaf_hash (next_addr g) \<mapsto> next_addr g)"
    and "n_shape (heap (snd (param g nm shp ini)) b) = (if b = next_addr g then shp else n_shape (heap g b))"
    and "n_val (heap (snd (param g nm shp ini)) b) = (if b = next_addr g then ini else n_val (heap g b))"
proof -
  let ?a = "next_addr g"
  let ?g1 = "snd (alloc g (default_node\<lparr>n_shape := shp, n_trainable := True, n_val := ini\<rparr>))"
  have pg: "Parameters_get (g_params g) nm = None"
    using nm by (simp add: Parameters_get_def map_of_eq_None_iff)
  have gt: "get g nm = None"
    using pg po by (simp add: get_def params_only_def)
  have h: "hash ?g1 ?a = (leaf_hash ?a, ?g1)"
    by (simp add: hash.simps alloc_def default_node_def)
  have "leaf_hash ?a \<notin> leaf_hash ` {..<?a}"
    using leaf_hash_fresh [OF lt] by auto
  then have "g_hashMap g (leaf_hash ?a) = None"
    using po by (auto simp: params_only_def)
  moreover have "g_hashMap ?g1 = g_hashMap g" by (simp add: alloc_def)
  ultimately have miss: "g_hashMap ?g1 (fst (hash ?g1 ?a)) = None"
    by (simp only: h fst_conv)
  note m = add_miss [OF miss]
  have E: "Expression_leaf g shp True ini = (?a, snd (add ?g1 ?a))"
    using m(1) by (simp add: Expression_leaf_def alloc_def prod_eq_iff)
  have P: "param g nm shp ini =
      (Inr ?a, (set_name (snd (add ?g1 ?a)) ?a nm)\<lparr>g_params := Parameters_add (g_params g) ?a nm\<rparr>)"
    using pg gt by (simp add: param_def E Let_def set_name_def alloc_def)
  show "fst (param g nm shp ini) = Inr (next_addr g)" by (simp add: P)
  show "next_addr (snd (param g nm shp ini)) = Suc (next_addr g)"
    by (simp add: P set_name_def alloc_def)
  show "g_params (snd (param g nm shp ini)) = g_params g @ [(nm, next_addr g)]"
    by (simp add: P Parameters_add_def)
  show "g_named (snd (param g nm shp ini)) = Map.empty"
    using po by (simp add: P set_name_def alloc_def params_only_def)
  show "g_hashMap (snd (param g nm shp ini)) = (g_hashMap g)(leaf_hash (next_addr g) \<mapsto> next_addr g)"
    by (simp add: P set_name_def m h) (simp add: alloc_def)
  show "n_shape (heap (snd (param g nm shp ini)) b) = (if b = next_addr g then shp else n_shape (heap g b))"
    by (simp add: P set_name_def alloc_def)
  show "n_val (heap (snd (param g nm shp ini)) b) = (if b = next_addr g then ini else n_val (heap g b))"
    by (simp add: P set_name_def alloc_def)
qed

lemma params_only_param:
  assumes po: "params_only g" and nm: "nm \<notin> fst ` set (g_params g)" and lt: "next_addr g < 2 ^ 64"
  shows "params_only (snd (param g nm shp ini))"
proof -
  note p = param_new [OF assms, of shp ini]
  have 1: "dom (g_hashMap g) \<subseteq> leaf_hash ` {..<next_addr g}"
    and 2: "fst ` set (g_params g) \<subseteq> {nm. \<exists>p. map_of (g_params g) nm = Some p \<and> p < next_addr g}"
    using po by (simp_all add: params_only_def)
  have "dom ((g_hashMap g)(leaf_hash (next_addr g) \<mapsto> next_addr g)) \<subseteq> leaf_hash ` {..<Suc (next_addr g)}"
    using 1 by (auto simp: lessThan_Suc)
  moreover have "fst ` set (g_params g @ [(nm, next_addr g)]) \<subseteq>
      {n. \<exists>q. map_of (g_params g @ [(nm, next_addr g)]) n = Some q \<and> q < Suc (next_addr g)}"
  proof
    fix n assume "n \<in> fst ` set (g_params g @ [(nm, next_addr g)])"
    then consider "n \<in> fst ` set (g_params g)" | "n = nm" "n \<notin> fst ` set (g_params g)" by auto
    then show "n \<in> {n. \<exists>q. map_of (g_params g @ [(nm, next_addr g)]) n = Some q \<and> q < Suc (next_addr g)}"
    proof cases
      case 1
      with 2 obtain q where "map_of (g_params g) n = Some q" "q < next_addr g" by blast
      then show ?thesis by (auto simp: map_add_Some_iff)
    next
      case 2
      then have "map_of (g_params g) n = None" by (simp add: map_of_eq_None_iff)
      with 2 show ?thesis by (auto simp: map_add_Some_iff)
    qed
  qed
  ultimately show ?thesis
    by (simp add: params_only_def p)
qed

lemma has_param_param_old:
  assumes po: "params_only g" and nm: "nm \<notin> fst ` set (g_params g)" and lt: "next_addr g < 2 ^ 64"
    and h: "has_param g n0 s v"
  shows "has_param (snd (param g nm shp ini)) n0 s v"
proof -
  note p = param_new [OF po nm lt, of shp ini]
  from h obtain q where q: "map_of (g_params g) n0 = Some q" "q < next_addr g"
    "n_shape (heap g q) = s" "n_val (heap g q) = Some v"
    by (auto simp: has_param_def Parameters_get_def)
  then have "map_of (g_params g @ [(nm, next_addr g)]) n0 = Some q"
    by (simp add: map_add_Some_iff)
  with q show ?thesis
    by (auto simp: has_param_def Parameters_get_def p)
qed

lemma has_param_param_new:
  assumes po: "params_only g" and nm: "nm \<notin> fst ` set (g_params g)" and lt: "next_addr g < 2 ^ 64"
  shows "has_param (snd (param g nm shp (Some v))) nm shp v"
proof -
  note p = param_new [OF po nm lt, of shp "Some v"]
  have "map_of (g_params g) nm = None" using nm by (simp add: map_of_eq_None_iff)
  then have "map_of (g_params g @ [(nm, next_addr g)]) nm = Some (next_addr g)"
    by (simp add: map_add_Some_iff)
  then show ?thesis
    by (auto simp: has_param_def Parameters_get_def p)
qed

lemma load_all:
  assumes "params_only g" "distinct (map fst es)" "fst ` set es \<inter> fst ` set (g_params g) = {}"
    and "next_addr g + length es < 2 ^ 64"
  shows "fst (load g es) = None \<and>
         (\<forall>n0 s v. has_param g n0 s v \<longrightarrow> has_param (snd (load g es)) n0 s v) \<and>
         (\<forall>(nm, a)\<in>set es. has_param (snd (load g es)) nm (load_shape a) (npy_data a))"
  using assms
proof (induction es arbitrary: g)
  case Nil
  show ?case by simp
next
  case (Cons e es)
  obtain nm a where e: "e = (nm, a)" by (cases e)
  let ?g1 = "snd (param g nm (load_shape a) (Some (npy_data a)))"
  have nm: "nm \<notin> fst ` set (g_params g)" using Cons.prems(3) e by auto
  have lt: "next_addr g < 2 ^ 64" using Cons.prems(4) by simp
  note p = param_new [OF Cons.prems(1) nm lt, of "load_shape a" "Some (npy_data a)"]
  have po1: "params_only ?g1" using Cons.prems(1) nm lt by (rule params_only_param)
  have d1: "distinct (map fst es)" using Cons.prems(2) by simp
  have i1: "fst ` set es \<inter> fst ` set (g_params ?g1) = {}"
    using Cons.prems(2,3) e by (auto simp: p)
  have l1: "next_addr ?g1 + length es < 2 ^ 64" using Cons.prems(4) by (simp add: p)
  note ih = Cons.IH [OF po1 d1 i1 l1]
  have L: "load g (e # es) = load ?g1 es"
    using p(1) by (simp add: e split_beta split: sum.splits)
  have new: "has_param ?g1 nm (load_shape a) (npy_data a)"
    using Cons.prems(1) nm lt by (rule has_param_param_new)
  have old: "\<And>n0 s v. has_param g n0 s v \<Longrightarrow> has_param ?g1 n0 s v"
    using Cons.prems(1) nm lt by (rule has_param_param_old)
  show ?case
    unfolding L using ih new old by (auto simp: e)
qed


lemma params_only_empty: "params_only empty_graph"
  by (simp add: params_only_def empty_graph_def)

text \<open>
  C7, as the code has it. \<^verbatim>\<open>save\<close> writes a parameter whose first extent is 1 as a
  one-dimensional array of the second extent, and any other parameter as a two-dimensional
  array of the first two extents; \<^verbatim>\<open>load\<close> gives a one-dimensional array of length \<open>n\<close> the
  shape (1, n, 1, 1) and a two-dimensional array the shape (row, col, 1, 1). So every
  parameter of shape (row, col, 1, 1) is found, under its name, with its shape and its values
  in the graph that \<^verbatim>\<open>load\<close> builds from what \<^verbatim>\<open>save\<close> wrote.
\<close>

theorem save_load_round_trip:
  assumes "distinct (map fst (g_params g))" and "length (g_params g) < 2 ^ 64"
    and "(nm, p) \<in> set (g_params g)" and "n_shape (heap g p) = [r, c, 1, 1]"
    and "n_val (heap g p) = Some v" and "length v = r * c"
  shows "npy_shape (save_array s w) = (if shape_at s 0 = 1 then [shape_at s 1] else [shape_at s 0, shape_at s 1]) \<and>
         load_shape \<lparr>npy_shape = [n], npy_data = w\<rparr> = [1, n, 1, 1] \<and>
         load_shape \<lparr>npy_shape = [n, m], npy_data = w\<rparr> = [n, m, 1, 1] \<and>
         fst (load empty_graph (save g)) = None \<and>
         has_param (snd (load empty_graph (save g))) nm [r, c, 1, 1] v"
proof -
  have 1: "npy_shape (save_array s w) = (if shape_at s 0 = 1 then [shape_at s 1] else [shape_at s 0, shape_at s 1])"
    by (simp add: save_array_def npz_array_def)
  have 2: "load_shape \<lparr>npy_shape = [n], npy_data = w\<rparr> = [1, n, 1, 1]"
    "load_shape \<lparr>npy_shape = [n, m], npy_data = w\<rparr> = [n, m, 1, 1]"
    by (simp_all add: load_shape_def default_shape_def)
  have f: "map fst (save g) = map fst (g_params g)"
    by (simp add: save_def split_beta)
  have mem: "(nm, save_array [r, c, 1, 1] v) \<in> set (save g)"
    using assms(3,4,5) by (force simp: save_def)
  have d: "distinct (map fst (save g))" using assms(1) by (simp only: f)
  have i: "fst ` set (save g) \<inter> fst ` set (g_params empty_graph) = {}"
    by (simp add: empty_graph_def)
  have l: "next_addr empty_graph + length (save g) < 2 ^ 64"
    using assms(2) by (simp add: empty_graph_def save_def)
  have "fst (load empty_graph (save g)) = None \<and>
         (\<forall>(nm, a)\<in>set (save g). has_param (snd (load empty_graph (save g))) nm (load_shape a) (npy_data a))"
    using load_all [OF params_only_empty d i l] by blast
  with mem have "fst (load empty_graph (save g)) = None \<and>
      has_param (snd (load empty_graph (save g))) nm (load_shape (save_array [r, c, 1, 1] v))
        (npy_data (save_array [r, c, 1, 1] v))"
    by blast
  then have "fst (load empty_graph (save g)) = None \<and>
      has_param (snd (load empty_graph (save g))) nm [r, c, 1, 1] v"
    by (simp only: save_array_round_trip [OF assms(6)])
  with 1 2 show ?thesis by blast
qed

lemma flat_param_explicit:
  "flat_param = \<lparr> heap = (\<lambda>_. default_node)
       (0 := default_node\<lparr>n_shape := [1, 3, 1, 1], n_val := Some [1, 2, 3], n_name := ''b''\<rparr>),
     next_addr = 1, g_count = 1, g_nodes = [0], g_tapes = [[0]], g_tapeMap = [0 \<mapsto> 0],
     g_named = Map.empty, g_topNodes = [0], g_params = [(''b'', 0)], g_hashMap = [0 \<mapsto> 0],
     freed = [] \<rparr>"
  by (simp add: flat_param_def param_def get_def Parameters_get_def Parameters_add_def
      Expression_leaf_def alloc_def empty_graph_def add_def default_node_def Let_def
      insert_top_node_def setId_def leaf_hash_def set_name_def hash.simps upd_def)

theorem save_load_round_trip_witness:
  "distinct (map fst (g_params flat_param)) \<and> length (g_params flat_param) < 2 ^ 64 \<and>
   (''b'', 0) \<in> set (g_params flat_param) \<and> n_shape (heap flat_param 0) = [1, 3, 1, 1] \<and>
   n_val (heap flat_param 0) = Some [1, 2, 3] \<and>
   npy_shape (save_array [1, 3, 1, 1] [1, 2, 3]) = [3] \<and>
   fst (load empty_graph (save flat_param)) = None \<and>
   has_param (snd (load empty_graph (save flat_param))) ''b'' [1, 3, 1, 1] [1, 2, 3]"
proof -
  have h: "distinct (map fst (g_params flat_param))" "length (g_params flat_param) < 2 ^ 64"
    "(''b'', 0) \<in> set (g_params flat_param)" "n_shape (heap flat_param 0) = [1, 3, 1, 1]"
    "n_val (heap flat_param 0) = Some [1, 2, 3]" "length [1, 2, 3 :: real] = 1 * 3"
    by (simp_all add: flat_param_explicit default_node_def)
  note t = save_load_round_trip [OF h, of "[1, 3, 1, 1]" "[1, 2, 3]" 0 0]
  have "npy_shape (save_array [1, 3, 1, 1] [1, 2, 3]) = [3]"
    using t by (simp add: shape_at_def)
  with t h show ?thesis by blast
qed

lemma deep_param_explicit:
  "deep_param = \<lparr> heap = (\<lambda>_. default_node)
       (0 := default_node\<lparr>n_shape := [2, 3, 2, 1],
               n_val := Some [1, 2, 3, 4, 5, 6, 7, 8, 9, 10, 11, 12], n_name := ''W''\<rparr>),
     next_addr = 1, g_count = 1, g_nodes = [0], g_tapes = [[0]], g_tapeMap = [0 \<mapsto> 0],
     g_named = Map.empty, g_topNodes = [0], g_params = [(''W'', 0)], g_hashMap = [0 \<mapsto> 0],
     freed = [] \<rparr>"
  by (simp add: deep_param_def param_def get_def Parameters_get_def Parameters_add_def
      Expression_leaf_def alloc_def empty_graph_def add_def default_node_def Let_def
      insert_top_node_def setId_def leaf_hash_def set_name_def hash.simps upd_def)

theorem save_load_drops_extents:
  "Parameters_get (g_params deep_param) ''W'' = Some 0 \<and>
   n_shape (heap deep_param 0) = [2, 3, 2, 1] \<and>
   Parameters_get (g_params (snd (load empty_graph (save deep_param)))) ''W'' = Some 0 \<and>
   n_shape (heap (snd (load empty_graph (save deep_param))) 0) = [2, 3, 1, 1]"
  by (simp add: deep_param_explicit save_def save_array_def npz_array_def shape_at_def load_shape_def
      default_shape_def param_def get_def Parameters_get_def Parameters_add_def
      Expression_leaf_def alloc_def empty_graph_def add_def default_node_def Let_def
      insert_top_node_def setId_def leaf_hash_def set_name_def hash.simps upd_def)

section \<open>Accumulation of gradients\<close>

lemma backward_visit_adj_other:
  assumes "b \<noteq> v" "b \<notin> set (n_children (heap g v))"
  shows "n_adj (heap (backward_visit fake g v) b) = n_adj (heap g b)"
proof -
  obtain g3 where b1: "buffers_only g (zero_children fake g (n_children (heap g v)))"
    and a3: "\<And>b. n_adj (heap g3 b) =
           n_adj (heap (if n_trainable (heap g v)
                        then Node_backward (zero_children fake g (n_children (heap g v))) v fake
                        else zero_children fake g (n_children (heap g v))) b)"
    and bv: "backward_visit fake g v =
           (if n_edges (heap g3 v) = 0 \<and> n_name (heap g v) = ''none''
            then Node_free g3 v fake else g3)"
    by (rule backward_visit_unfold [of g fake v]) blast
  have c: "n_children (heap (zero_children fake g (n_children (heap g v))) v) = n_children (heap g v)"
    using b1 by (simp add: buffers_only_def same_structD)
  have "n_adj (heap g3 b) = n_adj (heap g b)"
    using assms(2) by (simp add: a3 Node_backward_adj_other c zero_children_adj)
  then show ?thesis using assms(1) by (simp add: bv Node_free_adj)
qed

lemma backward_visit_adj_self:
  assumes "v \<notin> set (n_children (heap g v))"
  shows "n_adj (heap (backward_visit fake g v) v) =
     (if n_edges (heap (backward_visit fake g v) v) = 0 \<and> n_name (heap g v) = ''none''
      then None else n_adj (heap g v))"
proof -
  obtain g3 where b1: "buffers_only g (zero_children fake g (n_children (heap g v)))"
    and a3: "\<And>b. n_adj (heap g3 b) =
           n_adj (heap (if n_trainable (heap g v)
                        then Node_backward (zero_children fake g (n_children (heap g v))) v fake
                        else zero_children fake g (n_children (heap g v))) b)"
    and bv: "backward_visit fake g v =
           (if n_edges (heap g3 v) = 0 \<and> n_name (heap g v) = ''none''
            then Node_free g3 v fake else g3)"
    by (rule backward_visit_unfold [of g fake v]) blast
  have c: "n_children (heap (zero_children fake g (n_children (heap g v))) v) = n_children (heap g v)"
    using b1 by (simp add: buffers_only_def same_structD)
  have "n_adj (heap g3 v) = n_adj (heap g v)"
    using assms by (simp add: a3 Node_backward_adj_other c zero_children_adj)
  then show ?thesis by (simp add: bv Node_free_adj)
qed

lemma backward_loop_adj_other:
  assumes "x \<notin> set vs" "\<forall>v\<in>set vs. x \<notin> set (n_children (heap g v))"
  shows "n_adj (heap (foldl (backward_visit fake) g vs) x) = n_adj (heap g x)"
  using assms
proof (induction vs arbitrary: g)
  case Nil
  show ?case by simp
next
  case (Cons v vs)
  let ?g = "backward_visit fake g v"
  have c: "\<And>u. n_children (heap ?g u) = n_children (heap g u)"
    using backward_visit_struct [of g fake v] by (simp add: same_structD)
  have "n_adj (heap (foldl (backward_visit fake) ?g vs) x) = n_adj (heap ?g x)"
    by (rule Cons.IH) (use Cons.prems c in auto)
  moreover have "n_adj (heap ?g x) = n_adj (heap g x)"
    by (rule backward_visit_adj_other) (use Cons.prems in auto)
  ultimately show ?case by simp
qed

lemma backward_loop_edges_other:
  assumes "x \<notin> set vs" "\<forall>v\<in>set vs. x \<notin> set (n_children (heap g v))"
  shows "n_edges (heap (foldl (backward_visit fake) g vs) x) = n_edges (heap g x)"
  using assms
proof (induction vs arbitrary: g)
  case Nil
  show ?case by simp
next
  case (Cons v vs)
  let ?g = "backward_visit fake g v"
  have c: "\<And>u. n_children (heap ?g u) = n_children (heap g u)"
    using backward_visit_struct [of g fake v] by (simp add: same_structD)
  have "n_edges (heap (foldl (backward_visit fake) ?g vs) x) = n_edges (heap ?g x)"
    by (rule Cons.IH) (use Cons.prems c in auto)
  moreover have "n_edges (heap ?g x) = n_edges (heap g x)"
    using Cons.prems by (simp add: backward_visit_edges edge_ends_def)
  ultimately show ?case by simp
qed

lemma backward_loop_struct: "same_struct g (foldl (backward_visit fake) g vs)"
proof (induction vs arbitrary: g)
  case Nil
  show ?case by simp
next
  case (Cons v vs)
  show ?case
    using same_struct_trans [OF backward_visit_struct [of g fake v] Cons.IH] by simp
qed

lemma grad_term_cong:
  assumes "n_adj (heap s' v) = n_adj (heap s v)" "n_val (heap s' v) = n_val (heap s v)"
    "n_val (heap s' c) = n_val (heap s c)"
  shows "grad_term ty s' v c = grad_term ty s v c"
  using assms by (simp add: grad_term_def)

lemma fold_grad_once:
  assumes "count_list cs x = 1" "tr x" "v \<notin> set cs"
  shows "n_adj (heap (foldl (\<lambda>s c. if tr c then grad_op ty v c s else s) g cs) x) =
         Add (n_adj (heap g x)) (grad_term ty g v x)"
  using assms
proof (induction cs arbitrary: g)
  case Nil
  then show ?case by simp
next
  case (Cons c cs)
  let ?F = "\<lambda>s c. if tr c then grad_op ty v c s else s"
  show ?case
  proof (cases "c = x")
    case True
    with Cons.prems have "count_list cs x = 0" by simp
    then have nx: "x \<notin> set cs" by (simp add: count_list_0_iff)
    have "n_adj (heap (foldl ?F (?F g c) cs) x) = n_adj (heap (?F g c) x)"
      by (rule fold_grad_adj_other) (use nx in auto)
    with True Cons.prems(2) show ?thesis by (simp add: grad_op_adj)
  next
    case False
    with Cons.prems have 1: "count_list cs x = 1" by simp
    have v: "v \<notin> set cs" "c \<noteq> v" using Cons.prems(3) by auto
    have "n_adj (heap (foldl ?F (?F g c) cs) x) =
          Add (n_adj (heap (?F g c) x)) (grad_term ty (?F g c) v x)"
      by (rule Cons.IH [OF 1 Cons.prems(2) v(1)])
    moreover have "n_adj (heap (?F g c) x) = n_adj (heap g x)"
      using False by (simp add: grad_op_adj)
    moreover have "grad_term ty (?F g c) v x = grad_term ty g v x"
      by (rule grad_term_cong) (use v in \<open>simp_all add: grad_op_adj\<close>)
    ultimately show ?thesis by simp
  qed
qed

lemma backward_visit_adj_parent:
  assumes "v \<noteq> x" "n_trainable (heap g v)" "n_trainable (heap g x)"
    "v \<notin> set (n_children (heap g v))"
    "count_list (op_children (n_type (heap g v)) (n_children (heap g v))) x = 1"
  shows "n_adj (heap (backward_visit False g v) x) =
     Add (case n_adj (heap g x) of None \<Rightarrow> Some (zeros (n_shape (heap g x))) | Some t \<Rightarrow> Some t)
         (grad_term (n_type (heap g v)) g v x)"
proof -
  define z where "z = zero_children False g (n_children (heap g v))"
  obtain g3 where b1: "buffers_only g z"
    and a3: "\<And>b. n_adj (heap g3 b) =
           n_adj (heap (if n_trainable (heap g v) then Node_backward z v False else z) b)"
    and bv: "backward_visit False g v =
           (if n_edges (heap g3 v) = 0 \<and> n_name (heap g v) = ''none''
            then Node_free g3 v False else g3)"
    unfolding z_def by (rule backward_visit_unfold [of g False v]) blast
  have s: "n_children (heap z v) = n_children (heap g v)" "n_type (heap z v) = n_type (heap g v)"
    "\<And>c. n_trainable (heap z c) = n_trainable (heap g c)"
    using b1 by (simp_all add: buffers_only_def same_structD)
  have "count_list (op_children (n_type (heap g v)) (n_children (heap g v))) x \<noteq> 0"
    using assms(5) by simp
  then have "x \<in> set (op_children (n_type (heap g v)) (n_children (heap g v)))"
    by (simp only: count_list_0_iff not_not)
  then have xin: "x \<in> set (n_children (heap g v))" using op_children_subset by blast
  have zx: "n_adj (heap z x) =
      (case n_adj (heap g x) of None \<Rightarrow> Some (zeros (n_shape (heap g x))) | Some t \<Rightarrow> Some t)"
    unfolding z_def using xin assms(3) by (simp add: zero_children_adj split: option.splits)
  have zv: "n_adj (heap z v) = n_adj (heap g v)"
    unfolding z_def using assms(4) by (simp add: zero_children_adj)
  have vo: "v \<notin> set (op_children (n_type (heap g v)) (n_children (heap g v)))"
    using assms(4) op_children_subset by blast
  have "n_adj (heap (Node_backward z v False) x) =
        Add (n_adj (heap z x)) (grad_term (n_type (heap g v)) z v x)"
    unfolding Node_backward_fold s
    by (rule fold_grad_once [where tr = "\<lambda>c. n_trainable (heap g c)",
           OF assms(5) assms(3) vo])
  moreover have "grad_term (n_type (heap g v)) z v x = grad_term (n_type (heap g v)) g v x"
    by (rule grad_term_cong) (simp_all add: zv, simp_all add: z_def)
  ultimately have "n_adj (heap g3 x) =
     Add (case n_adj (heap g x) of None \<Rightarrow> Some (zeros (n_shape (heap g x))) | Some t \<Rightarrow> Some t)
         (grad_term (n_type (heap g v)) g v x)"
    using assms(2) by (simp add: a3 zx)
  then show ?thesis using assms(1) by (simp add: bv Node_free_adj)
qed


lemma foldl_zero_adj_in:
  "b \<in> set ps \<Longrightarrow>
     n_adj (heap (foldl (\<lambda>s p. upd s p (\<lambda>n. n\<lparr>n_adj := Some (zeros (n_shape n))\<rparr>)) s ps) b) =
     Some (zeros (n_shape (heap s b)))"
proof (induction ps arbitrary: s)
  case Nil
  then show ?case by simp
next
  case (Cons p ps)
  let ?s = "upd s p (\<lambda>n. n\<lparr>n_adj := Some (zeros (n_shape n))\<rparr>)"
  have sh: "n_shape (heap ?s b) = n_shape (heap s b)" by (simp add: upd_def)
  show ?case
  proof (cases "b \<in> set ps")
    case True
    from Cons.IH [OF True, of ?s] sh show ?thesis by simp
  next
    case False
    with Cons.prems have bp: "b = p" by simp
    have "n_adj (heap (foldl (\<lambda>s p. upd s p (\<lambda>n. n\<lparr>n_adj := Some (zeros (n_shape n))\<rparr>)) ?s ps) b) =
          n_adj (heap ?s b)"
      using False by (rule foldl_zero_adj)
    with bp show ?thesis by (simp add: upd_def)
  qed
qed

lemma prologue_struct: "same_struct g (backward_prologue g fake)"
  unfolding backward_prologue_def
  using prologue_buffers [of g fake] by (simp add: buffers_only_def)

lemma prologue_adj:
  assumes "x \<notin> set (g_topNodes g)" "x \<in> snd ` set (g_params g) \<or> n_adj (heap g x) = None"
  shows "(case n_adj (heap (backward_prologue g False) x) of
            None \<Rightarrow> Some (zeros (n_shape (heap g x))) | Some t \<Rightarrow> Some t) =
         Some (zeros (n_shape (heap g x)))"
proof (cases "x \<in> snd ` set (g_params g)")
  case True
  then have m: "x \<in> set (map snd (g_params g))" by simp
  let ?g1 = "Parameters_allocateBackward g False"
  have b: "buffers_only g ?g1" by simp
  then have p: "g_params ?g1 = g_params g" and sh: "n_shape (heap ?g1 x) = n_shape (heap g x)"
    by (simp_all add: buffers_only_def same_structD)
  have "n_adj (heap (Parameters_set_zero_adjoint ?g1 False) x) = Some (zeros (n_shape (heap g x)))"
    unfolding Parameters_set_zero_adjoint_def using m
    by (simp add: foldl_zero_adj_in p sh del: set_map)
  then show ?thesis
    unfolding backward_prologue_def using assms(1) by (simp add: foldl_init_dependent_adj)
next
  case False
  with assms(2) have n: "n_adj (heap g x) = None" by simp
  have "n_adj (heap (backward_prologue g False) x) = n_adj (heap g x)"
    unfolding backward_prologue_def using assms(1) False
    by (simp add: foldl_init_dependent_adj Parameters_adj_other)
  with n show ?thesis by simp
qed

lemma takeWhile_upto:
  "v \<notin> set xs \<Longrightarrow> takeWhile (\<lambda>u. u \<noteq> v) (xs @ v # ys) = xs"
  by (induction xs) auto

lemma Add_Some: "\<exists>t. Add (Some ot) y = Some t"
  by (cases y) (simp_all add: Add_def)

lemma accumulate_two_parents:
  assumes "length (g_topNodes g) \<le> 1" and "x \<notin> set (g_topNodes g)"
    and "g_nodes g = D @ x # C @ p1 # B @ p2 # A" and "distinct (g_nodes g)"
    and "\<forall>v\<in>set (g_nodes g). x \<in> set (n_children (heap g v)) \<longrightarrow> v = p1 \<or> v = p2"
    and "count_list (op_children (n_type (heap g p1)) (n_children (heap g p1))) x = 1"
    and "count_list (op_children (n_type (heap g p2)) (n_children (heap g p2))) x = 1"
    and "p1 \<notin> set (n_children (heap g p1))" and "p2 \<notin> set (n_children (heap g p2))"
    and "n_trainable (heap g x)" and "n_trainable (heap g p1)" and "n_trainable (heap g p2)"
    and "x \<in> snd ` set (g_params g) \<or> n_adj (heap g x) = None"
  shows "fst (backward g False) = None \<and>
     n_adj (heap (snd (backward g False)) x) =
       (if n_edges (heap (snd (backward g False)) x) = 0 \<and> n_name (heap g x) = ''none'' then None
        else Add (Add (Some (zeros (n_shape (heap g x)))) (contribution g p2 x))
                 (contribution g p1 x)) \<and>
     (contribution g p2 x = Some t2 \<and> contribution g p1 x = Some t1 \<and>
      length t2 = elements (n_shape (heap g x)) \<and> length t1 = elements (n_shape (heap g x)) \<and>
      n_name (heap g x) \<noteq> ''none'' \<longrightarrow>
        n_adj (heap (snd (backward g False)) x) = Some (map2 (+) t2 t1))"
proof -
  let ?V = "backward_visit False"
  define s0 where "s0 = backward_prologue g False"
  define sA where "sA = foldl ?V s0 (rev A)"
  define s2 where "s2 = ?V sA p2"
  define sB where "sB = foldl ?V s2 (rev B)"
  define s1 where "s1 = ?V sB p1"
  define sC where "sC = foldl ?V s1 (rev C)"
  define sx where "sx = ?V sC x"
  define sD where "sD = foldl ?V sx (rev D)"
  have st0: "same_struct g s0" unfolding s0_def by (rule prologue_struct)
  have stA: "same_struct g sA"
    unfolding sA_def by (rule same_struct_trans [OF st0 backward_loop_struct])
  have st2: "same_struct g s2"
    unfolding s2_def by (rule same_struct_trans [OF stA backward_visit_struct])
  have stB: "same_struct g sB"
    unfolding sB_def by (rule same_struct_trans [OF st2 backward_loop_struct])
  have st1: "same_struct g s1"
    unfolding s1_def by (rule same_struct_trans [OF stB backward_visit_struct])
  have stC: "same_struct g sC"
    unfolding sC_def by (rule same_struct_trans [OF st1 backward_loop_struct])
  have stx: "same_struct g sx"
    unfolding sx_def by (rule same_struct_trans [OF stC backward_visit_struct])
  note d = assms(4) [unfolded assms(3)]
  have np: "\<And>v. v \<in> set A \<union> set B \<union> set C \<union> set D \<union> {x} \<Longrightarrow> x \<notin> set (n_children (heap g v))"
    using assms(5) d unfolding assms(3) by auto
  have r: "rev (g_nodes g) = rev A @ p2 # rev B @ p1 # rev C @ x # rev D"
    by (simp add: assms(3))
  have fin: "backward g False = (None, sD)"
    unfolding backward_start [OF assms(1)] r sD_def sx_def sC_def s1_def sB_def s2_def sA_def s0_def
      backward_prologue_def
    by simp
  have r2: "reached g p2 = sA"
    unfolding reached_def r sA_def s0_def using d by (simp add: takeWhile_upto)
  have "takeWhile (\<lambda>u. u \<noteq> p1) ((rev A @ p2 # rev B) @ p1 # rev C @ x # rev D) =
        rev A @ p2 # rev B"
    by (rule takeWhile_upto) (use d in auto)
  then have "takeWhile (\<lambda>u. u \<noteq> p1) (rev (g_nodes g)) = rev A @ p2 # rev B"
    by (simp add: r)
  then have r1: "reached g p1 = sB"
    unfolding reached_def sB_def s2_def sA_def s0_def by simp
  have a0: "(case n_adj (heap s0 x) of None \<Rightarrow> Some (zeros (n_shape (heap g x))) | Some t \<Rightarrow> Some t) =
         Some (zeros (n_shape (heap g x)))"
    unfolding s0_def by (rule prologue_adj [OF assms(2) assms(13)])
  have aA: "n_adj (heap sA x) = n_adj (heap s0 x)"
    unfolding sA_def
    by (rule backward_loop_adj_other) (use d np in \<open>auto simp: same_structD [OF st0]\<close>)
  have a2: "n_adj (heap s2 x) =
     Add (case n_adj (heap sA x) of None \<Rightarrow> Some (zeros (n_shape (heap sA x))) | Some t \<Rightarrow> Some t)
         (grad_term (n_type (heap sA p2)) sA p2 x)"
    unfolding s2_def
    by (rule backward_visit_adj_parent)
       (use d assms(7,9,10,12) in \<open>auto simp: same_structD [OF stA]\<close>)
  have shA: "n_shape (heap sA x) = n_shape (heap g x)" "n_type (heap sA p2) = n_type (heap g p2)"
    by (simp_all add: same_structD [OF stA])
  have a2': "n_adj (heap s2 x) = Add (Some (zeros (n_shape (heap g x)))) (contribution g p2 x)"
    using a2 unfolding shA aA a0 contribution_def r2 by simp
  have aB: "n_adj (heap sB x) = n_adj (heap s2 x)"
    unfolding sB_def
    by (rule backward_loop_adj_other) (use d np in \<open>auto simp: same_structD [OF st2]\<close>)
  obtain t where t: "n_adj (heap sB x) = Some t"
    unfolding aB a2' using Add_Some by blast
  have a1: "n_adj (heap s1 x) =
     Add (case n_adj (heap sB x) of None \<Rightarrow> Some (zeros (n_shape (heap sB x))) | Some t \<Rightarrow> Some t)
         (grad_term (n_type (heap sB p1)) sB p1 x)"
    unfolding s1_def
    by (rule backward_visit_adj_parent)
       (use d assms(6,8,10,11) in \<open>auto simp: same_structD [OF stB]\<close>)
  have shB: "n_type (heap sB p1) = n_type (heap g p1)"
    by (simp add: same_structD [OF stB])
  have "n_adj (heap s1 x) = Add (n_adj (heap sB x)) (contribution g p1 x)"
    using a1 unfolding shB contribution_def r1 by (simp add: t)
  then have a1': "n_adj (heap s1 x) =
      Add (Add (Some (zeros (n_shape (heap g x)))) (contribution g p2 x)) (contribution g p1 x)"
    by (simp only: aB a2')
  have aC: "n_adj (heap sC x) = n_adj (heap s1 x)"
    unfolding sC_def
    by (rule backward_loop_adj_other) (use d np in \<open>auto simp: same_structD [OF st1]\<close>)
  have ax: "n_adj (heap sx x) =
     (if n_edges (heap sx x) = 0 \<and> n_name (heap sC x) = ''none'' then None else n_adj (heap sC x))"
    unfolding sx_def
    by (rule backward_visit_adj_self) (use np in \<open>simp add: same_structD [OF stC]\<close>)
  have aD: "n_adj (heap sD x) = n_adj (heap sx x)"
    unfolding sD_def
    by (rule backward_loop_adj_other) (use d np in \<open>auto simp: same_structD [OF stx]\<close>)
  have eD: "n_edges (heap sD x) = n_edges (heap sx x)"
    unfolding sD_def
    by (rule backward_loop_edges_other) (use d np in \<open>auto simp: same_structD [OF stx]\<close>)
  have main: "n_adj (heap sD x) =
       (if n_edges (heap sD x) = 0 \<and> n_name (heap g x) = ''none'' then None
        else Add (Add (Some (zeros (n_shape (heap g x)))) (contribution g p2 x))
                 (contribution g p1 x))"
    by (simp only: aD eD ax aC a1' same_structD [OF stC])
  have sum: "n_adj (heap sD x) = Some (map2 (+) t2 t1)"
    if "contribution g p2 x = Some t2" "contribution g p1 x = Some t1"
      "length t2 = elements (n_shape (heap g x))" "length t1 = elements (n_shape (heap g x))"
      "n_name (heap g x) \<noteq> ''none''"
  proof -
    have "map2 (+) (replicate (length t2) (0::real)) t2 = t2"
      by (induction t2) simp_all
    with that main show ?thesis
      by (simp add: Add_def zeros_def)
  qed
  show ?thesis
    using main sum by (simp add: fin)
qed

lemma backward_visit_val_other:
  assumes "b \<noteq> v"
  shows "n_val (heap (backward_visit fake g v) b) = n_val (heap g b)"
proof -
  obtain g3 where v3: "\<And>b. n_val (heap g3 b) = n_val (heap g b)"
    and bv: "backward_visit fake g v =
           (if n_edges (heap g3 v) = 0 \<and> n_name (heap g v) = ''none''
            then Node_free g3 v fake else g3)"
    by (rule backward_visit_unfold [of g fake v]) blast
  show ?thesis using assms by (simp add: bv v3 Node_free_def)
qed

lemma backward_visit_children:
  "n_children (heap (backward_visit fake g v) b) = n_children (heap g b)"
  using backward_visit_struct [of g fake v] by (simp add: same_structD)

lemma prologue_children:
  "n_children (heap (backward_prologue g fake) b) = n_children (heap g b)"
  using prologue_struct [of g fake] by (simp add: same_structD)


lemma sum_x_explicit:
  "sum_x = \<lparr> heap = (\<lambda>_. default_node)
       (0 := default_node\<lparr>n_shape := [1, 2, 1, 1], n_val := Some [0, 1],
              n_name := ''x''\<rparr>),
     next_addr = 1, g_count = 1, g_nodes = [0],
     g_tapes = [[0]],
     g_tapeMap = [0 \<mapsto> 0],
     g_named = Map.empty, g_topNodes = [0], g_params = [(''x'', 0)],
     g_hashMap = [0 \<mapsto> 0], freed = [] \<rparr>"
  by (simp add: sum_x_def param_def get_def Parameters_get_def Parameters_add_def
      Expression_leaf_def alloc_def empty_graph_def add_def default_node_def Let_def
      insert_top_node_def setId_def leaf_hash_def set_name_def hash.simps upd_def)

lemma sum_hashes:
  "hash_combine (hash_combine (hash_string ''none'') (hash_string ''square'')) 0 =
     13097327012116796011"
  "hash_combine (hash_combine (hash_string ''none'') (hash_string ''-'')) 0 =
     3005399625037641722"
  "hash_combine (hash_combine (hash_combine (hash_string ''none'') (hash_string ''tanh''))
     13097327012116796011) 3005399625037641722 = 15647621133616634133"
  by (simp_all add: hash_combine_def hash_string_def)

lemma sum_square_explicit:
  "sum_square = \<lparr> heap = (\<lambda>_. default_node)
       (0 := default_node\<lparr>n_shape := [1, 2, 1, 1], n_val := Some [0, 1],
              n_name := ''x'', n_edges := 2\<rparr>,
        Suc 0 := default_node\<lparr>n_shape := [1, 2, 1, 1], n_edges := 2, n_id := 1,
               n_children := [0], n_type := Square, n_hash := 13097327012116796011\<rparr>),
     next_addr = 2, g_count = 2, g_nodes = [0, Suc 0],
     g_tapes = [[0], [Suc 0]],
     g_tapeMap = [0 \<mapsto> 0, Suc 0 \<mapsto> Suc 0],
     g_named = Map.empty, g_topNodes = [Suc 0], g_params = [(''x'', 0)],
     g_hashMap = [0 \<mapsto> 0, 13097327012116796011 \<mapsto> Suc 0], freed = [] \<rparr>"
  by (simp add: sum_square_def sum_x_explicit Expression_def newShape_def NaryNodeOp_def alloc_def
      add_def Let_def insert_top_node_def setId_def leaf_hash_def
      hash.simps upd_def default_node_def remove_children_from_top_nodes_def remove_top_node_def
      set_hash_def sum_hashes type_name_def increaseEdges_def fun_upd_twist)

lemma sum_neg_explicit:
  "sum_neg = \<lparr> heap = (\<lambda>_. default_node)
       (0 := default_node\<lparr>n_shape := [1, 2, 1, 1], n_val := Some [0, 1],
              n_name := ''x'', n_edges := 4\<rparr>,
        Suc 0 := default_node\<lparr>n_shape := [1, 2, 1, 1], n_edges := 2, n_id := 1,
               n_children := [0], n_type := Square, n_hash := 13097327012116796011\<rparr>,
        2 := default_node\<lparr>n_shape := [1, 2, 1, 1], n_edges := 2, n_id := 2,
               n_children := [0], n_type := Neg, n_hash := 3005399625037641722\<rparr>),
     next_addr = 3, g_count = 3, g_nodes = [0, Suc 0, 2],
     g_tapes = [[0], [Suc 0, 2]],
     g_tapeMap = [0 \<mapsto> 0, Suc 0 \<mapsto> Suc 0, 2 \<mapsto> Suc 0],
     g_named = Map.empty, g_topNodes = [Suc 0, 2], g_params = [(''x'', 0)],
     g_hashMap = [0 \<mapsto> 0, 13097327012116796011 \<mapsto> Suc 0,
            3005399625037641722 \<mapsto> 2], freed = [] \<rparr>"
  by (simp add: sum_neg_def sum_square_explicit Expression_def newShape_def NaryNodeOp_def alloc_def
      add_def Let_def insert_top_node_def setId_def leaf_hash_def
      hash.simps upd_def default_node_def remove_children_from_top_nodes_def remove_top_node_def
      set_hash_def sum_hashes type_name_def increaseEdges_def fun_upd_twist)

lemma sum_graph_explicit:
  "sum_graph = \<lparr> heap = (\<lambda>_. default_node)
       (0 := default_node\<lparr>n_shape := [1, 2, 1, 1], n_val := Some [0, 1],
              n_name := ''x'', n_edges := 4\<rparr>,
        Suc 0 := default_node\<lparr>n_shape := [1, 2, 1, 1], n_edges := 4, n_id := 1,
               n_children := [0], n_type := Square, n_hash := 13097327012116796011\<rparr>,
        2 := default_node\<lparr>n_shape := [1, 2, 1, 1], n_edges := 4, n_id := 2,
               n_children := [0], n_type := Neg, n_hash := 3005399625037641722\<rparr>,
        3 := default_node\<lparr>n_shape := [1, 2, 1, 1], n_edges := 4, n_id := 3,
               n_children := [Suc 0, 2], n_type := Tanh, n_hash := 15647621133616634133\<rparr>),
     next_addr = 4, g_count = 4, g_nodes = [0, Suc 0, 2, 3],
     g_tapes = [[0], [Suc 0, 2], [3]],
     g_tapeMap = [0 \<mapsto> 0, Suc 0 \<mapsto> Suc 0, 2 \<mapsto> Suc 0, 3 \<mapsto> 2],
     g_named = Map.empty, g_topNodes = [3], g_params = [(''x'', 0)],
     g_hashMap = [0 \<mapsto> 0, 13097327012116796011 \<mapsto> Suc 0,
            3005399625037641722 \<mapsto> 2, 15647621133616634133 \<mapsto> 3], freed = [] \<rparr>"
  by (simp add: sum_graph_def sum_neg_explicit Expression_def newShape_def NaryNodeOp_def alloc_def
      add_def Let_def insert_top_node_def setId_def leaf_hash_def
      hash.simps upd_def default_node_def remove_children_from_top_nodes_def remove_top_node_def
      set_hash_def sum_hashes type_name_def increaseEdges_def fun_upd_twist)
     (simp add: numeral_2_eq_2)

lemma zeros_2 [simp]: "zeros [Suc 0, 2, Suc 0, Suc 0] = [0, 0]"
  by (simp add: zeros_def elements_def numeral_2_eq_2)

lemma ones_2 [simp]: "ones [Suc 0, 2, Suc 0, Suc 0] = [1, 1]"
  by (simp add: ones_def elements_def numeral_2_eq_2)

lemma sum_forwarded_explicit:
  "sum_forwarded = \<lparr> heap = (\<lambda>_. default_node)
       (0 := default_node\<lparr>n_shape := [1, 2, 1, 1], n_val := Some [0, 1],
              n_name := ''x'', n_edges := 2\<rparr>,
        Suc 0 := default_node\<lparr>n_shape := [1, 2, 1, 1], n_edges := 2, n_id := 1,
               n_children := [0], n_type := Square, n_hash := 13097327012116796011,
                      n_val := Some [0, 1]\<rparr>,
        2 := default_node\<lparr>n_shape := [1, 2, 1, 1], n_edges := 2, n_id := 2,
               n_children := [0], n_type := Neg, n_hash := 3005399625037641722,
                      n_val := Some [0, - 1]\<rparr>,
        3 := default_node\<lparr>n_shape := [1, 2, 1, 1], n_edges := 2, n_id := 3,
               n_children := [Suc 0, 2], n_type := Tanh, n_hash := 15647621133616634133,
                      n_val := Some [0, 0]\<rparr>),
     next_addr = 4, g_count = 4, g_nodes = [0, Suc 0, 2, 3],
     g_tapes = [[0], [Suc 0, 2], [3]],
     g_tapeMap = [0 \<mapsto> 0, Suc 0 \<mapsto> Suc 0, 2 \<mapsto> Suc 0, 3 \<mapsto> 2],
     g_named = Map.empty, g_topNodes = [3], g_params = [(''x'', 0)],
     g_hashMap = [0 \<mapsto> 0, 13097327012116796011 \<mapsto> Suc 0,
            3005399625037641722 \<mapsto> 2, 15647621133616634133 \<mapsto> 3], freed = [] \<rparr>"
  by (simp add: sum_forwarded_def sum_graph_explicit forward_def forward_pos_def
      Parameters_allocateForward_def Node_allocate_def forward_visit_def Node_init_def
      Node_forward_def forwardOps_def unary_forward_def Element1_def Element2_def set_val_def
      decreaseEdges_def upd_def default_node_def Let_def fun_upd_twist)

lemma sum_prologue:
  "backward_prologue sum_forwarded False = \<lparr> heap = (\<lambda>_. default_node)
       (0 := default_node\<lparr>n_shape := [1, 2, 1, 1], n_val := Some [0, 1],
              n_name := ''x'', n_edges := 2, n_adj := Some [0, 0]\<rparr>,
        Suc 0 := default_node\<lparr>n_shape := [1, 2, 1, 1], n_edges := 2, n_id := 1,
               n_children := [0], n_type := Square, n_hash := 13097327012116796011,
                      n_val := Some [0, 1]\<rparr>,
        2 := default_node\<lparr>n_shape := [1, 2, 1, 1], n_edges := 2, n_id := 2,
               n_children := [0], n_type := Neg, n_hash := 3005399625037641722,
                      n_val := Some [0, - 1]\<rparr>,
        3 := default_node\<lparr>n_shape := [1, 2, 1, 1], n_edges := 2, n_id := 3,
               n_children := [Suc 0, 2], n_type := Tanh, n_hash := 15647621133616634133,
                      n_val := Some [0, 0], n_adj := Some [1, 1]\<rparr>),
     next_addr = 4, g_count = 4, g_nodes = [0, Suc 0, 2, 3],
     g_tapes = [[0], [Suc 0, 2], [3]],
     g_tapeMap = [0 \<mapsto> 0, Suc 0 \<mapsto> Suc 0, 2 \<mapsto> Suc 0, 3 \<mapsto> 2],
     g_named = Map.empty, g_topNodes = [3], g_params = [(''x'', 0)],
     g_hashMap = [0 \<mapsto> 0, 13097327012116796011 \<mapsto> Suc 0,
            3005399625037641722 \<mapsto> 2, 15647621133616634133 \<mapsto> 3], freed = [] \<rparr>"
  by (simp add: backward_prologue_def sum_forwarded_explicit Parameters_allocateBackward_def
      Parameters_set_zero_adjoint_def set_zero_adjoint_def init_dependent_def
      upd_def default_node_def fun_upd_twist)

lemma sum_visit_3:
  "n_adj (heap (backward_visit False (backward_prologue sum_forwarded False) 3) (Suc 0)) = Some [1, 1]"
  "n_adj (heap (backward_visit False (backward_prologue sum_forwarded False) 3) 2) = Some [1, 1]"
  by (simp_all add: sum_prologue backward_visit_def Node_backward_def runBackward_def
      backwardOps_def grad_op_def grad_term_def functor2_def Add_def set_adj_def
      set_zero_adjoint_def decreaseEdges_def Node_free_def upd_def default_node_def Let_def)

lemma mid_w_explicit:
  "mid_w = \<lparr> heap = (\<lambda>_. default_node)
       (0 := default_node\<lparr>n_shape := [1, 2, 1, 1], n_val := Some [0, 0],
              n_name := ''w''\<rparr>),
     next_addr = 1, g_count = 1, g_nodes = [0],
     g_tapes = [[0]],
     g_tapeMap = [0 \<mapsto> 0],
     g_named = Map.empty, g_topNodes = [0], g_params = [(''w'', 0)],
     g_hashMap = [0 \<mapsto> 0], freed = [] \<rparr>"
  by (simp add: mid_w_def param_def get_def Parameters_get_def Parameters_add_def
      Expression_leaf_def alloc_def empty_graph_def add_def default_node_def Let_def
      insert_top_node_def setId_def leaf_hash_def set_name_def hash.simps upd_def)

lemma mid_hashes:
  "hash_combine (hash_combine (hash_string ''none'') (hash_string ''tanh'')) 0 =
     2942146793635365144"
  "hash_combine (hash_combine (hash_string ''none'') (hash_string ''square'')) 2942146793635365144 =
     16302934418851943283"
  "hash_combine (hash_combine (hash_string ''none'') (hash_string ''-'')) 2942146793635365144 =
     5857151658284725442"
  "hash_combine (hash_combine (hash_combine (hash_string ''none'') (hash_string ''tanh''))
     16302934418851943283) 5857151658284725442 = 15200233825635138195"
  by (simp_all add: hash_combine_def hash_string_def)

lemma mid_x_explicit:
  "mid_x = \<lparr> heap = (\<lambda>_. default_node)
       (0 := default_node\<lparr>n_shape := [1, 2, 1, 1], n_val := Some [0, 0],
              n_name := ''w'', n_edges := 2\<rparr>,
        Suc 0 := default_node\<lparr>n_shape := [1, 2, 1, 1], n_edges := 2, n_id := 1,
               n_children := [0], n_type := Tanh, n_hash := 2942146793635365144\<rparr>),
     next_addr = 2, g_count = 2, g_nodes = [0, Suc 0],
     g_tapes = [[0], [Suc 0]],
     g_tapeMap = [0 \<mapsto> 0, Suc 0 \<mapsto> Suc 0],
     g_named = Map.empty, g_topNodes = [Suc 0], g_params = [(''w'', 0)],
     g_hashMap = [0 \<mapsto> 0, 2942146793635365144 \<mapsto> Suc 0], freed = [] \<rparr>"
  by (simp add: mid_x_def mid_w_explicit Expression_def newShape_def NaryNodeOp_def alloc_def
      add_def Let_def insert_top_node_def setId_def leaf_hash_def
      hash.simps upd_def default_node_def remove_children_from_top_nodes_def remove_top_node_def
      set_hash_def mid_hashes type_name_def increaseEdges_def fun_upd_twist)

lemma mid_square_explicit:
  "mid_square = \<lparr> heap = (\<lambda>_. default_node)
       (0 := default_node\<lparr>n_shape := [1, 2, 1, 1], n_val := Some [0, 0],
              n_name := ''w'', n_edges := 2\<rparr>,
        Suc 0 := default_node\<lparr>n_shape := [1, 2, 1, 1], n_edges := 4, n_id := 1,
               n_children := [0], n_type := Tanh, n_hash := 2942146793635365144\<rparr>,
        2 := default_node\<lparr>n_shape := [1, 2, 1, 1], n_edges := 2, n_id := 2,
               n_children := [Suc 0], n_type := Square, n_hash := 16302934418851943283\<rparr>),
     next_addr = 3, g_count = 3, g_nodes = [0, Suc 0, 2],
     g_tapes = [[0], [Suc 0], [2]],
     g_tapeMap = [0 \<mapsto> 0, Suc 0 \<mapsto> Suc 0, 2 \<mapsto> 2],
     g_named = Map.empty, g_topNodes = [2], g_params = [(''w'', 0)],
     g_hashMap = [0 \<mapsto> 0, 2942146793635365144 \<mapsto> Suc 0,
            16302934418851943283 \<mapsto> 2], freed = [] \<rparr>"
  by (simp add: mid_square_def mid_x_explicit Expression_def newShape_def NaryNodeOp_def alloc_def
      add_def Let_def insert_top_node_def setId_def leaf_hash_def
      hash.simps upd_def default_node_def remove_children_from_top_nodes_def remove_top_node_def
      set_hash_def mid_hashes type_name_def increaseEdges_def fun_upd_twist)
     (simp add: numeral_2_eq_2)

lemma mid_neg_explicit:
  "mid_neg = \<lparr> heap = (\<lambda>_. default_node)
       (0 := default_node\<lparr>n_shape := [1, 2, 1, 1], n_val := Some [0, 0],
              n_name := ''w'', n_edges := 2\<rparr>,
        Suc 0 := default_node\<lparr>n_shape := [1, 2, 1, 1], n_edges := 6, n_id := 1,
               n_children := [0], n_type := Tanh, n_hash := 2942146793635365144\<rparr>,
        2 := default_node\<lparr>n_shape := [1, 2, 1, 1], n_edges := 2, n_id := 2,
               n_children := [Suc 0], n_type := Square, n_hash := 16302934418851943283\<rparr>,
        3 := default_node\<lparr>n_shape := [1, 2, 1, 1], n_edges := 2, n_id := 3,
               n_children := [Suc 0], n_type := Neg, n_hash := 5857151658284725442\<rparr>),
     next_addr = 4, g_count = 4, g_nodes = [0, Suc 0, 2, 3],
     g_tapes = [[0], [Suc 0], [2, 3]],
     g_tapeMap = [0 \<mapsto> 0, Suc 0 \<mapsto> Suc 0, 2 \<mapsto> 2, 3 \<mapsto> 2],
     g_named = Map.empty, g_topNodes = [2, 3], g_params = [(''w'', 0)],
     g_hashMap = [0 \<mapsto> 0, 2942146793635365144 \<mapsto> Suc 0,
            16302934418851943283 \<mapsto> 2, 5857151658284725442 \<mapsto> 3], freed = [] \<rparr>"
  by (simp add: mid_neg_def mid_square_explicit Expression_def newShape_def NaryNodeOp_def alloc_def
      add_def Let_def insert_top_node_def setId_def leaf_hash_def
      hash.simps upd_def default_node_def remove_children_from_top_nodes_def remove_top_node_def
      set_hash_def mid_hashes type_name_def increaseEdges_def fun_upd_twist)
     (simp add: numeral_2_eq_2)

lemma mid_graph_explicit:
  "mid_graph = \<lparr> heap = (\<lambda>_. default_node)
       (0 := default_node\<lparr>n_shape := [1, 2, 1, 1], n_val := Some [0, 0],
              n_name := ''w'', n_edges := 2\<rparr>,
        Suc 0 := default_node\<lparr>n_shape := [1, 2, 1, 1], n_edges := 6, n_id := 1,
               n_children := [0], n_type := Tanh, n_hash := 2942146793635365144\<rparr>,
        2 := default_node\<lparr>n_shape := [1, 2, 1, 1], n_edges := 4, n_id := 2,
               n_children := [Suc 0], n_type := Square, n_hash := 16302934418851943283\<rparr>,
        3 := default_node\<lparr>n_shape := [1, 2, 1, 1], n_edges := 4, n_id := 3,
               n_children := [Suc 0], n_type := Neg, n_hash := 5857151658284725442\<rparr>,
        4 := default_node\<lparr>n_shape := [1, 2, 1, 1], n_edges := 4, n_id := 4,
               n_children := [2, 3], n_type := Tanh, n_hash := 15200233825635138195\<rparr>),
     next_addr = 5, g_count = 5, g_nodes = [0, Suc 0, 2, 3, 4],
     g_tapes = [[0], [Suc 0], [2, 3], [4]],
     g_tapeMap = [0 \<mapsto> 0, Suc 0 \<mapsto> Suc 0, 2 \<mapsto> 2, 3 \<mapsto> 2,
            4 \<mapsto> 3],
     g_named = Map.empty, g_topNodes = [4], g_params = [(''w'', 0)],
     g_hashMap = [0 \<mapsto> 0, 2942146793635365144 \<mapsto> Suc 0,
            16302934418851943283 \<mapsto> 2, 5857151658284725442 \<mapsto> 3,
                   15200233825635138195 \<mapsto> 4], freed = [] \<rparr>"
  by (simp add: mid_graph_def mid_neg_explicit Expression_def newShape_def NaryNodeOp_def alloc_def
      add_def Let_def insert_top_node_def setId_def leaf_hash_def
      hash.simps upd_def default_node_def remove_children_from_top_nodes_def remove_top_node_def
      set_hash_def mid_hashes type_name_def increaseEdges_def fun_upd_twist)

lemma mid_forwarded_explicit:
  "mid_forwarded = \<lparr> heap = (\<lambda>_. default_node)
       (0 := default_node\<lparr>n_shape := [1, 2, 1, 1], n_val := Some [0, 0],
              n_name := ''w'', n_edges := 1\<rparr>,
        Suc 0 := default_node\<lparr>n_shape := [1, 2, 1, 1], n_edges := 3, n_id := 1,
               n_children := [0], n_type := Tanh, n_hash := 2942146793635365144,
                      n_val := Some [0, 0]\<rparr>,
        2 := default_node\<lparr>n_shape := [1, 2, 1, 1], n_edges := 2, n_id := 2,
               n_children := [Suc 0], n_type := Square, n_hash := 16302934418851943283,
                      n_val := Some [0, 0]\<rparr>,
        3 := default_node\<lparr>n_shape := [1, 2, 1, 1], n_edges := 2, n_id := 3,
               n_children := [Suc 0], n_type := Neg, n_hash := 5857151658284725442,
                      n_val := Some [0, 0]\<rparr>,
        4 := default_node\<lparr>n_shape := [1, 2, 1, 1], n_edges := 2, n_id := 4,
               n_children := [2, 3], n_type := Tanh, n_hash := 15200233825635138195,
                      n_val := Some [0, 0]\<rparr>),
     next_addr = 5, g_count = 5, g_nodes = [0, Suc 0, 2, 3, 4],
     g_tapes = [[0], [Suc 0], [2, 3], [4]],
     g_tapeMap = [0 \<mapsto> 0, Suc 0 \<mapsto> Suc 0, 2 \<mapsto> 2, 3 \<mapsto> 2,
            4 \<mapsto> 3],
     g_named = Map.empty, g_topNodes = [4], g_params = [(''w'', 0)],
     g_hashMap = [0 \<mapsto> 0, 2942146793635365144 \<mapsto> Suc 0,
            16302934418851943283 \<mapsto> 2, 5857151658284725442 \<mapsto> 3,
                   15200233825635138195 \<mapsto> 4], freed = [] \<rparr>"
  by (simp add: mid_forwarded_def mid_graph_explicit tanh_forward.simps forward_def forward_pos_def
      Parameters_allocateForward_def Node_allocate_def forward_visit_def Node_init_def
      Node_forward_def forwardOps_def unary_forward_def Element1_def Element2_def set_val_def
      decreaseEdges_def upd_def default_node_def Let_def fun_upd_twist)

lemma mid_prologue:
  "backward_prologue mid_forwarded False = \<lparr> heap = (\<lambda>_. default_node)
       (0 := default_node\<lparr>n_shape := [1, 2, 1, 1], n_val := Some [0, 0],
              n_name := ''w'', n_edges := 1, n_adj := Some [0, 0]\<rparr>,
        Suc 0 := default_node\<lparr>n_shape := [1, 2, 1, 1], n_edges := 3, n_id := 1,
               n_children := [0], n_type := Tanh, n_hash := 2942146793635365144,
                      n_val := Some [0, 0]\<rparr>,
        2 := default_node\<lparr>n_shape := [1, 2, 1, 1], n_edges := 2, n_id := 2,
               n_children := [Suc 0], n_type := Square, n_hash := 16302934418851943283,
                      n_val := Some [0, 0]\<rparr>,
        3 := default_node\<lparr>n_shape := [1, 2, 1, 1], n_edges := 2, n_id := 3,
               n_children := [Suc 0], n_type := Neg, n_hash := 5857151658284725442,
                      n_val := Some [0, 0]\<rparr>,
        4 := default_node\<lparr>n_shape := [1, 2, 1, 1], n_edges := 2, n_id := 4,
               n_children := [2, 3], n_type := Tanh, n_hash := 15200233825635138195,
                      n_val := Some [0, 0], n_adj := Some [1, 1]\<rparr>),
     next_addr = 5, g_count = 5, g_nodes = [0, Suc 0, 2, 3, 4],
     g_tapes = [[0], [Suc 0], [2, 3], [4]],
     g_tapeMap = [0 \<mapsto> 0, Suc 0 \<mapsto> Suc 0, 2 \<mapsto> 2, 3 \<mapsto> 2,
            4 \<mapsto> 3],
     g_named = Map.empty, g_topNodes = [4], g_params = [(''w'', 0)],
     g_hashMap = [0 \<mapsto> 0, 2942146793635365144 \<mapsto> Suc 0,
            16302934418851943283 \<mapsto> 2, 5857151658284725442 \<mapsto> 3,
                   15200233825635138195 \<mapsto> 4], freed = [] \<rparr>"
  by (simp add: backward_prologue_def mid_forwarded_explicit Parameters_allocateBackward_def
      Parameters_set_zero_adjoint_def set_zero_adjoint_def init_dependent_def
      upd_def default_node_def fun_upd_twist)

lemma mid_visit_4:
  "n_adj (heap (backward_visit False (backward_prologue mid_forwarded False) 4) 2) = Some [1, 1]"
  "n_adj (heap (backward_visit False (backward_prologue mid_forwarded False) 4) 3) = Some [1, 1]"
  by (simp_all add: mid_prologue backward_visit_def Node_backward_def runBackward_def
      backwardOps_def grad_op_def grad_term_def functor2_def Add_def set_adj_def
      set_zero_adjoint_def decreaseEdges_def Node_free_def upd_def default_node_def Let_def)

lemma sum_forwarded_eval:
  "g_nodes sum_forwarded = [0, Suc 0, 2, 3]" "g_topNodes sum_forwarded = [3]"
  "g_params sum_forwarded = [(''x'', 0)]"
  "n_children (heap sum_forwarded 0) = []" "n_children (heap sum_forwarded (Suc 0)) = [0]"
  "n_children (heap sum_forwarded 2) = [0]" "n_children (heap sum_forwarded 3) = [Suc 0, 2]"
  "n_type (heap sum_forwarded (Suc 0)) = Square" "n_type (heap sum_forwarded 2) = Neg"
  "n_trainable (heap sum_forwarded 0)" "n_trainable (heap sum_forwarded (Suc 0))"
  "n_trainable (heap sum_forwarded 2)" "n_name (heap sum_forwarded 0) = ''x''"
  "n_shape (heap sum_forwarded 0) = [Suc 0, 2, Suc 0, Suc 0]"
  by (simp_all add: sum_forwarded_explicit default_node_def)

lemma sum_contributions:
  "contribution sum_forwarded 2 0 = Some [- 1, - 1]"
  "contribution sum_forwarded (Suc 0) 0 = Some [0, 2]"
proof -
  let ?s0 = "backward_prologue sum_forwarded False"
  let ?s3 = "backward_visit False ?s0 3"
  let ?s2 = "backward_visit False ?s3 2"
  have r2: "reached sum_forwarded 2 = ?s3"
    by (simp add: reached_def sum_forwarded_eval)
  show "contribution sum_forwarded 2 0 = Some [- 1, - 1]"
    by (simp add: contribution_def sum_forwarded_eval r2 grad_term_def sum_visit_3 functor1_def)
  have r1: "reached sum_forwarded (Suc 0) = ?s2"
    by (simp add: reached_def sum_forwarded_eval)
  have "n_adj (heap ?s2 (Suc 0)) = n_adj (heap ?s3 (Suc 0))"
    by (rule backward_visit_adj_other)
       (simp_all add: backward_visit_children prologue_children sum_forwarded_eval)
  then have a: "n_adj (heap ?s2 (Suc 0)) = Some [1, 1]" by (simp add: sum_visit_3)
  have "n_val (heap ?s2 0) = n_val (heap ?s0 0)"
    by (simp add: backward_visit_val_other)
  then have v: "n_val (heap ?s2 0) = Some [0, 1]" by (simp add: sum_prologue)
  show "contribution sum_forwarded (Suc 0) 0 = Some [0, 2]"
    by (simp add: contribution_def sum_forwarded_eval r1 grad_term_def a v functor2_def)
qed


lemma mid_forwarded_eval:
  "g_nodes mid_forwarded = [0, Suc 0, 2, 3, 4]" "g_topNodes mid_forwarded = [4]"
  "g_params mid_forwarded = [(''w'', 0)]"
  "n_children (heap mid_forwarded 0) = []" "n_children (heap mid_forwarded (Suc 0)) = [0]"
  "n_children (heap mid_forwarded 2) = [Suc 0]" "n_children (heap mid_forwarded 3) = [Suc 0]"
  "n_children (heap mid_forwarded 4) = [2, 3]"
  "n_type (heap mid_forwarded 2) = Square" "n_type (heap mid_forwarded 3) = Neg"
  "n_trainable (heap mid_forwarded (Suc 0))" "n_trainable (heap mid_forwarded 2)"
  "n_trainable (heap mid_forwarded 3)" "n_name (heap mid_forwarded (Suc 0)) = ''none''"
  "n_adj (heap mid_forwarded (Suc 0)) = None" "n_edges (heap mid_forwarded (Suc 0)) = 3"
  by (simp_all add: mid_forwarded_explicit default_node_def)

lemma mid_contributions:
  "contribution mid_forwarded 3 (Suc 0) = Some [- 1, - 1]"
  "contribution mid_forwarded 2 (Suc 0) = Some [0, 0]"
proof -
  let ?s0 = "backward_prologue mid_forwarded False"
  let ?s4 = "backward_visit False ?s0 4"
  let ?s3 = "backward_visit False ?s4 3"
  have r3: "reached mid_forwarded 3 = ?s4"
    by (simp add: reached_def mid_forwarded_eval)
  show "contribution mid_forwarded 3 (Suc 0) = Some [- 1, - 1]"
    by (simp add: contribution_def mid_forwarded_eval r3 grad_term_def mid_visit_4 functor1_def)
  have r2: "reached mid_forwarded 2 = ?s3"
    by (simp add: reached_def mid_forwarded_eval)
  have "n_adj (heap ?s3 2) = n_adj (heap ?s4 2)"
    by (rule backward_visit_adj_other)
       (simp_all add: backward_visit_children prologue_children mid_forwarded_eval)
  then have a: "n_adj (heap ?s3 2) = Some [1, 1]" by (simp add: mid_visit_4)
  have "n_val (heap ?s3 (Suc 0)) = n_val (heap ?s0 (Suc 0))"
    by (simp add: backward_visit_val_other)
  then have v: "n_val (heap ?s3 (Suc 0)) = Some [0, 0]" by (simp add: mid_prologue)
  show "contribution mid_forwarded 2 (Suc 0) = Some [0, 0]"
    by (simp add: contribution_def mid_forwarded_eval r2 grad_term_def a v functor2_def)
qed


section \<open>Common subexpressions\<close>

lemma tanh_again_hit: "g_hashMap tanh_again (fst (hash tanh_again 2)) = Some 1"
  by (simp add: tanh_again_def NaryNodeOp_def alloc_def tanh_graph_eval tanh_graph_heap
      hash.simps leaf_hash_def default_node_def set_hash_def hash_combine_def hash_string_def
      type_name_def split_beta)

lemma tanh_graph_result: "fst (Expression one_leaf Tanh [0]) = Inr (Suc 0)"
  by (simp add: Expression_def newShape_def NaryNodeOp_def alloc_def
      one_leaf_explicit add_def Let_def insert_top_node_def setId_def leaf_hash_def
      hash.simps upd_def default_node_def remove_children_from_top_nodes_def remove_top_node_def
      set_hash_def hash_combine_def hash_string_def type_name_def increaseEdges_def)



end
